(* ===== verification/Prelude.thy ===== *)
theory Prelude
  imports Main "HOL-Library.AList"
begin

section \<open>Prelude: time, results, state-passing operations and finite maps\<close>

text \<open>
  What every component shares.
  \<^item> Instants are integers: nanoseconds since Go's zero \<open>time.Time\<close>, so the zero value of a
    \<open>time.Time\<close> field is \<open>0\<close>. \<open>time_sub\<close> is \<open>time.Time.Sub\<close>, which saturates at the
    range of a 64-bit \<open>time.Duration\<close>.
  \<^item> A fallible operation over a state is a function \<open>'s \<Rightarrow> ('e + 'a) \<times> 's\<close>: \<open>Inl\<close> is the
    returned error, and the state is returned on every path, as Go's is mutated on every path.
    \<open>bindS\<close> is ``if err != nil { return err }'' followed by the rest of the function.
  \<^item> A Go map whose size matters is an association list (\<open>alist\<close> below) updated with the
    library's \<open>AList.update\<close>; a map whose size does not matter is a function to \<open>option\<close>.
\<close>

named_theorems op_simps \<open>unfolding rules of the state-passing operations\<close>
named_theorems time_simps \<open>durations as numerals\<close>

subsection \<open>Time\<close>

type_synonym time = int
type_synonym duration = int

definition max_duration :: duration where
  "max_duration = 9223372036854775807"

definition min_duration :: duration where
  "min_duration = - 9223372036854775808"

definition time_sub :: "time \<Rightarrow> time \<Rightarrow> duration" where
  "time_sub t u = max min_duration (min max_duration (t - u))"

definition millisecond :: duration where [time_simps]: "millisecond = 1000000"
definition second :: duration where [time_simps]: "second = 1000000000"
definition minute :: duration where [time_simps]: "minute = 60000000000"
definition hour :: duration where [time_simps]: "hour = 3600000000000"

lemma time_sub_self [simp]: "time_sub t t = 0"
  by (simp add: time_sub_def max_duration_def min_duration_def)

lemma time_sub_ge_iff:
  "min_duration < d \<Longrightarrow> d \<le> max_duration \<Longrightarrow> d \<le> time_sub t u \<longleftrightarrow> u + d \<le> t"
  by (auto simp: time_sub_def)

lemma time_sub_less_iff:
  "min_duration < d \<Longrightarrow> d \<le> max_duration \<Longrightarrow> time_sub t u < d \<longleftrightarrow> t < u + d"
  by (auto simp: time_sub_def)

lemma time_sub_gt_iff:
  "min_duration \<le> d \<Longrightarrow> d < max_duration \<Longrightarrow> d < time_sub t u \<longleftrightarrow> u + d < t"
  by (auto simp: time_sub_def max_duration_def min_duration_def)

lemma time_sub_le_max: "time_sub t u \<le> max_duration"
  by (simp add: time_sub_def max_duration_def min_duration_def)

text \<open>A result of signed 64-bit arithmetic (Go's \<open>int\<close>, \<open>int64\<close> and \<open>time.Duration\<close>).\<close>

definition wrap64 :: "int \<Rightarrow> int" where
  "wrap64 x = signed_take_bit 63 x"

lemma wrap64_id: "- (2 ^ 63) \<le> x \<Longrightarrow> x < 2 ^ 63 \<Longrightarrow> wrap64 x = x"
  by (simp add: wrap64_def signed_take_bit_int_eq_self)

lemma wrap64_range: "- (2 ^ 63) \<le> wrap64 x" "wrap64 x < 2 ^ 63"
  unfolding wrap64_def
  by (rule signed_take_bit_int_greater_eq_minus_exp, rule signed_take_bit_int_less_exp)

lemma wrap64_cong: "\<exists>q. wrap64 x = x + q * 2 ^ 64"
proof -
  have "wrap64 x = (x + 2 ^ 63) mod 2 ^ 64 - 2 ^ 63"
    by (simp add: wrap64_def signed_take_bit_eq_take_bit_shift take_bit_eq_mod)
  also have "\<dots> = x + (- ((x + 2 ^ 63) div 2 ^ 64)) * 2 ^ 64"
    by (simp add: minus_mult_div_eq_mod [symmetric] mult.commute)
  finally show ?thesis by blast
qed

subsection \<open>Fallible operations over a state\<close>

type_synonym ('s, 'e, 'a) op = "'s \<Rightarrow> ('e + 'a) \<times> 's"

definition retS :: "'a \<Rightarrow> ('s, 'e, 'a) op" where
  "retS x s = (Inr x, s)"

definition failS :: "'e \<Rightarrow> ('s, 'e, 'a) op" where
  "failS e s = (Inl e, s)"

definition bindS :: "('s, 'e, 'a) op \<Rightarrow> ('a \<Rightarrow> ('s, 'e, 'b) op) \<Rightarrow> ('s, 'e, 'b) op" where
  "bindS m k s = (case m s of (Inl e, s') \<Rightarrow> (Inl e, s') | (Inr x, s') \<Rightarrow> k x s')"

definition liftS :: "'e + 'a \<Rightarrow> ('s, 'e, 'a) op" where
  "liftS r s = (r, s)"

definition guardS :: "bool \<Rightarrow> 'e \<Rightarrow> ('s, 'e, unit) op" where
  "guardS b e s = (if b then (Inr (), s) else (Inl e, s))"

definition map_errS :: "('e \<Rightarrow> 'f) \<Rightarrow> ('s, 'e, 'a) op \<Rightarrow> ('s, 'f, 'a) op" where
  "map_errS f m s = (case m s of (Inl e, s') \<Rightarrow> (Inl (f e), s') | (Inr x, s') \<Rightarrow> (Inr x, s'))"

text \<open>``if err != nil'' with a handler of its own for the error.\<close>

definition catchS ::
  "('s, 'e, 'a) op \<Rightarrow> ('e \<Rightarrow> ('s, 'f, 'b) op) \<Rightarrow> ('a \<Rightarrow> ('s, 'f, 'b) op) \<Rightarrow> ('s, 'f, 'b) op" where
  "catchS m h k s = (case m s of (Inl e, s') \<Rightarrow> h e s' | (Inr x, s') \<Rightarrow> k x s')"

lemma retS_apply [simp]: "retS x s = (Inr x, s)" by (simp add: retS_def)
lemma failS_apply [simp]: "failS e s = (Inl e, s)" by (simp add: failS_def)
lemma liftS_apply [simp]: "liftS r s = (r, s)" by (simp add: liftS_def)
lemma guardS_apply [simp]: "guardS b e s = (if b then (Inr (), s) else (Inl e, s))"
  by (simp add: guardS_def)

lemma bindS_Inl: "m s = (Inl e, s') \<Longrightarrow> bindS m k s = (Inl e, s')"
  by (simp add: bindS_def)

lemma bindS_Inr: "m s = (Inr x, s') \<Longrightarrow> bindS m k s = k x s'"
  by (simp add: bindS_def)

lemma bindS_retS [simp]: "bindS (retS x) k = k x"
  by (rule ext) (simp add: bindS_def)

lemma bindS_failS [simp]: "bindS (failS e) k = failS e"
  by (rule ext) (simp add: bindS_def)

lemma bindS_assoc: "bindS (bindS m f) g = bindS m (\<lambda>x. bindS (f x) g)"
  by (rule ext) (simp add: bindS_def split: prod.splits sum.splits)

lemma bindS_eq_Inr:
  "bindS m k s = (Inr y, t) \<longleftrightarrow> (\<exists>x s'. m s = (Inr x, s') \<and> k x s' = (Inr y, t))"
  by (auto simp: bindS_def split: prod.splits sum.splits)

lemma bindS_eq_Inl:
  "bindS m k s = (Inl e, t) \<longleftrightarrow>
     m s = (Inl e, t) \<or> (\<exists>x s'. m s = (Inr x, s') \<and> k x s' = (Inl e, t))"
  by (auto simp: bindS_def split: prod.splits sum.splits)

lemma catchS_eq:
  "catchS m h k s = y \<longleftrightarrow>
     (\<exists>e s'. m s = (Inl e, s') \<and> h e s' = y) \<or> (\<exists>x s'. m s = (Inr x, s') \<and> k x s' = y)"
  by (auto simp: catchS_def split: prod.splits sum.splits)

lemma map_errS_eq_Inr: "map_errS f m s = (Inr y, t) \<longleftrightarrow> m s = (Inr y, t)"
  by (auto simp: map_errS_def split: prod.splits sum.splits)

lemma map_errS_eq_Inl: "map_errS f m s = (Inl e, t) \<longleftrightarrow> (\<exists>e'. m s = (Inl e', t) \<and> e = f e')"
  by (auto simp: map_errS_def split: prod.splits sum.splits)

lemmas op_elim_simps = bindS_eq_Inr bindS_eq_Inl map_errS_eq_Inr map_errS_eq_Inl

text \<open>An operation keeps a property of the state, on its success and its error paths.\<close>

definition keeps :: "('s \<Rightarrow> bool) \<Rightarrow> ('s, 'e, 'a) op \<Rightarrow> bool" where
  "keeps P m \<longleftrightarrow> (\<forall>s. P s \<longrightarrow> P (snd (m s)))"

lemma keepsI: "(\<And>s. P s \<Longrightarrow> P (snd (m s))) \<Longrightarrow> keeps P m"
  by (simp add: keeps_def)

lemma keepsD: "keeps P m \<Longrightarrow> P s \<Longrightarrow> P (snd (m s))"
  by (simp add: keeps_def)

lemma keeps_retS [simp, intro]: "keeps P (retS x)" by (simp add: keeps_def)
lemma keeps_failS [simp, intro]: "keeps P (failS e)" by (simp add: keeps_def)
lemma keeps_liftS [simp, intro]: "keeps P (liftS r)" by (simp add: keeps_def)
lemma keeps_guardS [simp, intro]: "keeps P (guardS b e)" by (simp add: keeps_def)

lemma keeps_bindS [intro]: "keeps P m \<Longrightarrow> (\<And>x. keeps P (k x)) \<Longrightarrow> keeps P (bindS m k)"
  by (fastforce simp: keeps_def bindS_def split: prod.splits sum.splits)

lemma keeps_catchS [intro]:
  "keeps P m \<Longrightarrow> (\<And>e. keeps P (h e)) \<Longrightarrow> (\<And>x. keeps P (k x)) \<Longrightarrow> keeps P (catchS m h k)"
  by (fastforce simp: keeps_def catchS_def split: prod.splits sum.splits)

lemma keeps_map_errS [intro]: "keeps P m \<Longrightarrow> keeps P (map_errS f m)"
  by (fastforce simp: keeps_def map_errS_def split: prod.splits sum.splits)

lemma keeps_if [intro]: "keeps P m \<Longrightarrow> keeps P n \<Longrightarrow> keeps P (if b then m else n)"
  by simp

subsection \<open>Lists and maps\<close>

text \<open>A separator that the first parts do not contain splits a list in one way only.\<close>

lemma sep_split: "z \<notin> set a \<Longrightarrow> z \<notin> set b \<Longrightarrow> a @ z # x = b @ z # y \<longleftrightarrow> a = b \<and> x = y"
proof (induction a arbitrary: b)
  case Nil
  then show ?case by (cases b) auto
next
  case (Cons c a)
  then show ?case by (cases b) auto
qed


lemma find_SomeD: "find P xs = Some x \<Longrightarrow> x \<in> set xs \<and> P x"
  by (auto simp: find_Some_iff)

type_synonym ('k, 'v) alist = "('k \<times> 'v) list"

text \<open>Go's \<open>for k, v := range m { if drop v { delete(m, k) } }\<close> on both representations.\<close>

definition sweep_map :: "('v \<Rightarrow> bool) \<Rightarrow> ('k \<rightharpoonup> 'v) \<Rightarrow> ('k \<rightharpoonup> 'v)" where
  "sweep_map dead m = (\<lambda>k. case m k of None \<Rightarrow> None | Some v \<Rightarrow> if dead v then None else Some v)"

definition sweep_alist :: "('v \<Rightarrow> bool) \<Rightarrow> ('k, 'v) alist \<Rightarrow> ('k, 'v) alist" where
  "sweep_alist dead al = filter (\<lambda>(k, v). \<not> dead v) al"

lemma sweep_map_Some: "sweep_map dead m k = Some v \<longleftrightarrow> m k = Some v \<and> \<not> dead v"
  by (auto simp: sweep_map_def split: option.splits)

lemma sweep_map_None: "sweep_map dead m k = None \<longleftrightarrow> (\<forall>v. m k = Some v \<longrightarrow> dead v)"
  by (auto simp: sweep_map_def split: option.splits)

lemma sweep_alist_keys: "set (map fst (sweep_alist dead al)) \<subseteq> set (map fst al)"
  by (auto simp: sweep_alist_def)

lemma sweep_alist_distinct: "distinct (map fst al) \<Longrightarrow> distinct (map fst (sweep_alist dead al))"
  by (simp add: sweep_alist_def distinct_map_filter)

lemma length_sweep_alist: "length (sweep_alist dead al) \<le> length al"
  by (simp add: sweep_alist_def)

lemma map_of_sweep_alist:
  assumes "distinct (map fst al)"
  shows "map_of (sweep_alist dead al) k = Some v \<longleftrightarrow> map_of al k = Some v \<and> \<not> dead v"
proof -
  have "map_of (sweep_alist dead al) k = Some v \<longleftrightarrow> (k, v) \<in> set (sweep_alist dead al)"
    by (rule map_of_eq_Some_iff) (rule sweep_alist_distinct [OF assms])
  also have "\<dots> \<longleftrightarrow> (k, v) \<in> set al \<and> \<not> dead v"
    by (auto simp: sweep_alist_def)
  also have "\<dots> \<longleftrightarrow> map_of al k = Some v \<and> \<not> dead v"
    by (simp add: map_of_eq_Some_iff [OF assms])
  finally show ?thesis .
qed

lemma length_update_new: "k \<notin> fst ` set al \<Longrightarrow> length (AList.update k v al) = Suc (length al)"
  by (induction al) auto

lemma length_update_old: "k \<in> fst ` set al \<Longrightarrow> length (AList.update k v al) = length al"
  by (induction al) auto

lemma map_of_None_iff_notin: "map_of al k = None \<longleftrightarrow> k \<notin> fst ` set al"
  by (rule map_of_eq_None_iff)

end
