(* ===== verification/GoStrings.thy ===== *)
theory GoStrings
  imports Prelude "HOL-Library.Char_ord" "HOL-Library.List_Lexorder"
begin

section \<open>Go strings: the operations of strings and strconv the program uses\<close>

text \<open>
  A Go string is a sequence of bytes, and so is a HOL \<open>string\<close>. White space is what
  \<open>unicode.IsSpace\<close> accepts, given by its UTF-8 encodings (\<open>space_len\<close>): no encoding of a space
  begins inside another rune, so scanning bytes finds exactly the runes Go's scan finds.
  \<open>utoa\<close>/\<open>itoa\<close> are \<open>%d\<close> and \<open>strconv.Itoa\<close>; \<open>atoi\<close> and \<open>parse_uint32\<close> are \<open>strconv.Atoi\<close> and
  \<open>strconv.ParseUint(s, 10, 32)\<close> with their range checks. The round trip \<open>parse_nat_utoa\<close> is
  what the cursor and the PHC codec rest on.
\<close>

definition byte :: "char \<Rightarrow> nat" where
  "byte c = of_char c"

lemma byte_less [simp]: "byte c < 256"
  by (simp add: byte_def)

lemma byte_char_of [simp]: "n < 256 \<Longrightarrow> byte (char_of n) = n"
  by (simp add: byte_def)

lemma char_of_byte [simp]: "char_of (byte c) = c"
  by (simp add: byte_def)

lemma byte_inject [simp]: "byte c = byte d \<longleftrightarrow> c = d"
  by (metis char_of_byte)

subsection \<open>Prefixes, substrings, splitting\<close>

fun has_prefix :: "string \<Rightarrow> string \<Rightarrow> bool" where
  "has_prefix s [] = True"
| "has_prefix [] (p # ps) = False"
| "has_prefix (c # s) (p # ps) = (c = p \<and> has_prefix s ps)"

lemma has_prefix_iff: "has_prefix s p \<longleftrightarrow> (\<exists>r. s = p @ r)"
  by (induction s p rule: has_prefix.induct) auto

lemma has_prefix_append [simp]: "has_prefix (p @ r) p"
  by (auto simp: has_prefix_iff)

definition trim_prefix :: "string \<Rightarrow> string \<Rightarrow> string" where
  "trim_prefix s p = (if has_prefix s p then drop (length p) s else s)"

lemma trim_prefix_append [simp]: "trim_prefix (p @ r) p = r"
  by (simp add: trim_prefix_def)

fun contains_str :: "string \<Rightarrow> string \<Rightarrow> bool" where
  "contains_str [] sub = (sub = [])"
| "contains_str (c # s) sub = (has_prefix (c # s) sub \<or> contains_str s sub)"

lemma contains_str_iff: "contains_str s sub \<longleftrightarrow> (\<exists>l r. s = l @ sub @ r)"
proof (induction s)
  case Nil
  then show ?case by auto
next
  case (Cons c s)
  note IH = Cons.IH
  show ?case
  proof
    assume "contains_str (c # s) sub"
    then consider "has_prefix (c # s) sub" | "contains_str s sub" by auto
    then show "\<exists>l r. c # s = l @ sub @ r"
    proof cases
      case 1
      then show ?thesis by (metis has_prefix_iff append_Nil)
    next
      case 2
      with IH obtain l r where "s = l @ sub @ r" by auto
      then have "c # s = (c # l) @ sub @ r" by simp
      then show ?thesis by blast
    qed
  next
    assume "\<exists>l r. c # s = l @ sub @ r"
    then obtain l r where lr: "c # s = l @ sub @ r" by auto
    show "contains_str (c # s) sub"
    proof (cases l)
      case Nil
      with lr have "has_prefix (c # s) sub" by (auto simp: has_prefix_iff)
      then show ?thesis by simp
    next
      case (Cons d l')
      with lr have "s = l' @ sub @ r" by simp
      then have "contains_str s sub" using IH by blast
      then show ?thesis by simp
    qed
  qed
qed

text \<open>\<open>strings.Split(s, sep)\<close> for a one-byte separator.\<close>

fun split_on :: "char \<Rightarrow> string \<Rightarrow> string list" where
  "split_on d [] = [[]]"
| "split_on d (c # s) =
     (if c = d then [] # split_on d s
      else (case split_on d s of [] \<Rightarrow> [[c]] | p # ps \<Rightarrow> (c # p) # ps))"

lemma split_on_nonempty [simp]: "split_on d s \<noteq> []"
  by (induction s) (auto split: list.splits)

lemma split_on_free: "d \<notin> set s \<Longrightarrow> split_on d s = [s]"
  by (induction s) auto

lemma split_on_sep: "d \<notin> set p \<Longrightarrow> split_on d (p @ d # s) = p # split_on d s"
  by (induction p) auto

text \<open>\<open>strings.Cut(s, sep)\<close> for a one-byte separator: \<open>None\<close> when it does not occur.\<close>

fun cut :: "char \<Rightarrow> string \<Rightarrow> (string \<times> string) option" where
  "cut d [] = None"
| "cut d (c # s) =
     (if c = d then Some ([], s)
      else (case cut d s of None \<Rightarrow> None | Some (a, b) \<Rightarrow> Some (c # a, b)))"

lemma cut_sep: "d \<notin> set p \<Longrightarrow> cut d (p @ d # s) = Some (p, s)"
  by (induction p) auto

subsection \<open>Decimal numbers\<close>

definition digit_char :: "nat \<Rightarrow> char" where
  "digit_char n = char_of (48 + n)"

definition is_digit :: "char \<Rightarrow> bool" where
  "is_digit c \<longleftrightarrow> 48 \<le> byte c \<and> byte c \<le> 57"

definition digit_val :: "char \<Rightarrow> nat" where
  "digit_val c = byte c - 48"

fun utoa :: "nat \<Rightarrow> string" where
  "utoa n = (if n < 10 then [digit_char n] else utoa (n div 10) @ [digit_char (n mod 10)])"

declare utoa.simps [simp del]

definition itoa :: "int \<Rightarrow> string" where
  "itoa i = (if i < 0 then CHR ''-'' # utoa (nat (- i)) else utoa (nat i))"

definition digits_val :: "string \<Rightarrow> nat" where
  "digits_val s = foldl (\<lambda>acc c. 10 * acc + digit_val c) 0 s"

definition parse_nat :: "string \<Rightarrow> nat option" where
  "parse_nat s = (if s \<noteq> [] \<and> list_all is_digit s then Some (digits_val s) else None)"

text \<open>\<open>strconv.ParseUint(s, 10, 32)\<close>: digits only, at most \<open>2^32 - 1\<close>.\<close>

definition parse_uint32 :: "string \<Rightarrow> nat option" where
  "parse_uint32 s =
     (case parse_nat s of
        None \<Rightarrow> None
      | Some n \<Rightarrow> if n \<le> 4294967295 then Some n else None)"

text \<open>\<open>strconv.Atoi\<close>: an optional sign, digits, the range of a 64-bit \<open>int\<close>.\<close>

definition atoi :: "string \<Rightarrow> int option" where
  "atoi s =
     (let neg = (case s of [] \<Rightarrow> False | c # _ \<Rightarrow> c = CHR ''-'');
          signed = (case s of [] \<Rightarrow> False | c # _ \<Rightarrow> c = CHR ''-'' \<or> c = CHR ''+'')
      in case parse_nat (if signed then tl s else s) of
           None \<Rightarrow> None
         | Some n \<Rightarrow>
             if neg then (if n \<le> 9223372036854775808 then Some (- int n) else None)
             else (if n \<le> 9223372036854775807 then Some (int n) else None))"

lemma is_digit_digit_char [simp]: "n < 10 \<Longrightarrow> is_digit (digit_char n)"
  by (simp add: is_digit_def digit_char_def)

lemma digit_val_digit_char [simp]: "n < 10 \<Longrightarrow> digit_val (digit_char n) = n"
  by (simp add: digit_val_def digit_char_def)

lemma digits_val_snoc: "digits_val (s @ [c]) = 10 * digits_val s + digit_val c"
  by (simp add: digits_val_def)

lemma utoa_nonempty [simp]: "utoa n \<noteq> []"
  by (subst utoa.simps) simp

lemma utoa_digits: "list_all is_digit (utoa n)"
proof (induction n rule: utoa.induct)
  case (1 n)
  then show ?case by (subst utoa.simps) auto
qed

lemma digits_val_utoa: "digits_val (utoa n) = n"
proof (induction n rule: utoa.induct)
  case (1 n)
  show ?case
  proof (cases "n < 10")
    case True
    then show ?thesis by (subst utoa.simps) (simp add: digits_val_def)
  next
    case False
    with "1.IH" show ?thesis
      by (subst utoa.simps) (simp add: digits_val_snoc)
  qed
qed

lemma parse_nat_utoa [simp]: "parse_nat (utoa n) = Some n"
  by (simp add: parse_nat_def utoa_digits digits_val_utoa)

lemma parse_uint32_utoa: "n \<le> 4294967295 \<Longrightarrow> parse_uint32 (utoa n) = Some n"
  by (simp add: parse_uint32_def)

lemma utoa_set: "c \<in> set (utoa n) \<Longrightarrow> is_digit c"
  using utoa_digits [of n] by (simp add: list_all_iff)

lemma not_digit_notin_utoa: "\<not> is_digit c \<Longrightarrow> c \<notin> set (utoa n)"
  using utoa_set by blast

lemma is_digit_simps [simp]:
  "\<not> is_digit CHR ''-''" "\<not> is_digit CHR ''+''" "\<not> is_digit CHR ''$''"
  "\<not> is_digit CHR '',''" "\<not> is_digit CHR ''=''" "\<not> is_digit CHR '':''"
  by (simp_all add: is_digit_def byte_def)

lemma atoi_utoa:
  assumes "n \<le> 9223372036854775807"
  shows "atoi (utoa n) = Some (int n)"
proof (cases "utoa n")
  case Nil
  then show ?thesis by simp
next
  case (Cons c r)
  then have "is_digit c" using utoa_set [of c n] by simp
  then have "c \<noteq> CHR ''-''" "c \<noteq> CHR ''+''" by auto
  with Cons assms show ?thesis
    unfolding atoi_def Cons [symmetric] by (simp add: Cons) (simp flip: Cons)
qed

lemma atoi_itoa:
  "0 \<le> i \<Longrightarrow> i \<le> 9223372036854775807 \<Longrightarrow> atoi (itoa i) = Some i"
  by (simp add: itoa_def atoi_utoa nat_le_iff)

subsection \<open>White space, case\<close>

text \<open>The number of bytes of the space at the head of a string, 0 when there is none.\<close>

definition space_len :: "string \<Rightarrow> nat" where
  "space_len s = (case map byte (take 3 s) of
     a # b # c # _ \<Rightarrow>
       if a = 32 \<or> (9 \<le> a \<and> a \<le> 13) then 1
       else if a = 194 \<and> (b = 133 \<or> b = 160) then 2
       else if (a = 225 \<and> b = 154 \<and> c = 128)
         \<or> (a = 226 \<and> b = 128 \<and> (128 \<le> c \<and> c \<le> 138 \<or> c = 168 \<or> c = 169 \<or> c = 175))
         \<or> (a = 226 \<and> b = 129 \<and> c = 159)
         \<or> (a = 227 \<and> b = 128 \<and> c = 128) then 3 else 0
   | [a, b] \<Rightarrow>
       if a = 32 \<or> (9 \<le> a \<and> a \<le> 13) then 1
       else if a = 194 \<and> (b = 133 \<or> b = 160) then 2 else 0
   | [a] \<Rightarrow> if a = 32 \<or> (9 \<le> a \<and> a \<le> 13) then 1 else 0
   | [] \<Rightarrow> 0)"

lemma space_len_le: "space_len s \<le> length s"
  by (cases s rule: list.exhaust; cases "tl s"; cases "tl (tl s)") (auto simp: space_len_def)

fun trim_left :: "string \<Rightarrow> string" where
  "trim_left [] = []"
| "trim_left (c # s) =
     (if space_len (c # s) = 0 then c # s else trim_left (drop (space_len (c # s) - 1) s))"

definition space_suffix :: "string \<Rightarrow> nat" where
  "space_suffix s =
     (let n = length s
      in if 1 \<le> n \<and> space_len (drop (n - 1) s) = 1 then 1
         else if 2 \<le> n \<and> space_len (drop (n - 2) s) = 2 then 2
         else if 3 \<le> n \<and> space_len (drop (n - 3) s) = 3 then 3
         else 0)"

lemma space_suffix_pos: "0 < space_suffix s \<Longrightarrow> 0 < length s"
  by (auto simp: space_suffix_def)

function trim_right :: "string \<Rightarrow> string" where
  "trim_right s =
     (if space_suffix s = 0 then s else trim_right (take (length s - space_suffix s) s))"
  by pat_completeness auto
termination
  by (relation "measure length") (auto dest: space_suffix_pos intro: diff_less)

declare trim_right.simps [simp del]

definition trim_space :: "string \<Rightarrow> string" where
  "trim_space s = trim_right (trim_left s)"

lemma trim_space_Nil [simp]: "trim_space [] = []"
  by (simp add: trim_space_def trim_right.simps [of "[]"] space_suffix_def)

text \<open>A visible ASCII string (no byte of it can begin or end a space) is its own trimming.\<close>

definition visible :: "char \<Rightarrow> bool" where
  "visible c \<longleftrightarrow> 33 \<le> byte c \<and> byte c \<le> 126"

lemma space_len_visible: "visible c \<Longrightarrow> space_len (c # s) = 0"
  by (cases s; cases "tl s") (auto simp: space_len_def visible_def)

lemma trim_left_visible: "list_all visible s \<Longrightarrow> trim_left s = s"
  by (cases s) (auto simp: space_len_visible)

lemma space_suffix_visible:
  assumes "list_all visible s" shows "space_suffix s = 0"
proof -
  have "space_len (drop k s) = 0" for k
  proof (cases "drop k s")
    case Nil
    then show ?thesis by (simp add: space_len_def)
  next
    case (Cons c r)
    then have "c \<in> set s" by (metis in_set_dropD list.set_intros(1))
    with assms have "visible c" by (simp add: list_all_iff)
    with Cons show ?thesis by (simp add: space_len_visible)
  qed
  then show ?thesis by (simp add: space_suffix_def)
qed

lemma trim_space_visible: "list_all visible s \<Longrightarrow> trim_space s = s"
  by (simp add: trim_space_def trim_left_visible trim_right.simps [of s] space_suffix_visible)

text \<open>\<open>strings.Fields\<close>: the maximal runs of non-space bytes.\<close>

function fields_from :: "string \<Rightarrow> string \<Rightarrow> string list" where
  "fields_from cur [] = (if cur = [] then [] else [rev cur])"
| "fields_from cur (c # s) =
     (if space_len (c # s) = 0 then fields_from (c # cur) s
      else (if cur = [] then [] else [rev cur]) @ fields_from [] (drop (space_len (c # s) - 1) s))"
  by pat_completeness auto
termination
  by (relation "measure (\<lambda>(cur, s). length s)") auto

definition fields :: "string \<Rightarrow> string list" where
  "fields s = fields_from [] s"

lemma fields_from_visible:
  "list_all visible s \<Longrightarrow> fields_from cur s = (if cur = [] \<and> s = [] then [] else [rev cur @ s])"
  by (induction s arbitrary: cur) (auto simp: space_len_visible)

lemma fields_visible: "list_all visible s \<Longrightarrow> s \<noteq> [] \<Longrightarrow> fields s = [s]"
  by (simp add: fields_def fields_from_visible)

text \<open>ASCII case mapping: SQLite's \<open>LOWER\<close>/\<open>upper\<close>, and Go's functions on ASCII input.\<close>

definition lower_char :: "char \<Rightarrow> char" where
  "lower_char c = (if 65 \<le> byte c \<and> byte c \<le> 90 then char_of (byte c + 32) else c)"

definition upper_char :: "char \<Rightarrow> char" where
  "upper_char c = (if 97 \<le> byte c \<and> byte c \<le> 122 then char_of (byte c - 32) else c)"

definition ascii_lower :: "string \<Rightarrow> string" where
  "ascii_lower s = map lower_char s"

definition ascii_upper :: "string \<Rightarrow> string" where
  "ascii_upper s = map upper_char s"

definition is_ascii :: "string \<Rightarrow> bool" where
  "is_ascii s \<longleftrightarrow> list_all (\<lambda>c. byte c < 128) s"

lemma lower_char_idem [simp]: "lower_char (lower_char c) = lower_char c"
  by (simp add: lower_char_def)

lemma upper_char_idem [simp]: "upper_char (upper_char c) = upper_char c"
proof -
  have "byte (char_of (byte c - 32)) = byte c - 32"
    by (rule byte_char_of) (use byte_less [of c] in linarith)
  then show ?thesis
    by (cases "97 \<le> byte c \<and> byte c \<le> 122") (auto simp: upper_char_def)
qed

lemma ascii_lower_idem [simp]: "ascii_lower (ascii_lower s) = ascii_lower s"
  by (simp add: ascii_lower_def)

lemma ascii_upper_idem [simp]: "ascii_upper (ascii_upper s) = ascii_upper s"
  by (simp add: ascii_upper_def)

lemma length_ascii_lower [simp]: "length (ascii_lower s) = length s"
  by (simp add: ascii_lower_def)

lemma length_ascii_upper [simp]: "length (ascii_upper s) = length s"
  by (simp add: ascii_upper_def)

lemma ascii_lower_append [simp]: "ascii_lower (s @ t) = ascii_lower s @ ascii_lower t"
  by (simp add: ascii_lower_def)

definition equal_fold :: "string \<Rightarrow> string \<Rightarrow> bool" where
  "equal_fold s t \<longleftrightarrow> ascii_lower s = ascii_lower t"

definition contains_any :: "string \<Rightarrow> char list \<Rightarrow> bool" where
  "contains_any s cs \<longleftrightarrow> list_ex (\<lambda>c. c \<in> set cs) s"

end
