(* ===== verification/Json.thy ===== *)
theory Json
  imports GoStrings Prelude
begin

section \<open>JSON values: decoding into structs, and response bodies\<close>

text \<open>
  The handlers read JSON with \<open>encoding/json\<close> and write it with the same package. A document is its
  syntax tree: an object is the list of its members in order, duplicates included, and a number
  keeps its literal, since whether it fits a Go \<open>int\<close> is decided on the text. \<open>decode_struct\<close> is
  \<open>Decode\<close> into a struct: members are matched to fields exactly or by case folding, \<open>null\<close> leaves a
  field alone (or sets a pointer to nil), a value of another type or, with
  \<open>DisallowUnknownFields\<close>, an unknown member makes the whole call fail.
\<close>

datatype json =
    JNull
  | JBool bool
  | JNum string
  | JStr string
  | JArr "json list"
  | JObj "(string \<times> json) list"

text \<open>A request body: no first JSON value to read (empty or malformed), or one.\<close>

datatype req_body = BadJson | Doc json

text \<open>\<open>foldName\<close>: simple case folding restricted to what can match an ASCII field name; the Kelvin
  sign folds to k and the long s to s.\<close>

fun fold_name :: "string \<Rightarrow> string" where
  "fold_name [] = []"
| "fold_name (a # s) =
     (case s of
        b # t \<Rightarrow>
          if byte a = 0xC5 \<and> byte b = 0xBF then CHR ''s'' # fold_name t
          else (case t of
                  c # u \<Rightarrow>
                    if byte a = 0xE2 \<and> byte b = 0x84 \<and> byte c = 0xAA then CHR ''k'' # fold_name u
                    else lower_char a # fold_name s
                | [] \<Rightarrow> lower_char a # fold_name s)
      | [] \<Rightarrow> [lower_char a])"

type_synonym 'r field_decoder = "string \<times> (json \<Rightarrow> 'r \<Rightarrow> 'r option)"

text \<open>The decoders of the field types in use: \<open>*string\<close>, \<open>string\<close>, \<open>int\<close>.\<close>

definition dec_ptr :: "(string option \<Rightarrow> 'r \<Rightarrow> 'r) \<Rightarrow> json \<Rightarrow> 'r \<Rightarrow> 'r option" where
  "dec_ptr put v r = (case v of JNull \<Rightarrow> Some (put None r) | JStr x \<Rightarrow> Some (put (Some x) r) | _ \<Rightarrow> None)"

definition dec_str :: "(string \<Rightarrow> 'r \<Rightarrow> 'r) \<Rightarrow> json \<Rightarrow> 'r \<Rightarrow> 'r option" where
  "dec_str put v r = (case v of JNull \<Rightarrow> Some r | JStr x \<Rightarrow> Some (put x r) | _ \<Rightarrow> None)"

definition dec_int :: "(int \<Rightarrow> 'r \<Rightarrow> 'r) \<Rightarrow> json \<Rightarrow> 'r \<Rightarrow> 'r option" where
  "dec_int put v r =
     (case v of
        JNull \<Rightarrow> Some r
      | JNum x \<Rightarrow> map_option (\<lambda>n. put n r) (atoi x)
      | _ \<Rightarrow> None)"

text \<open>Exact matches first, then the first folded one.\<close>

definition find_field :: "'r field_decoder list \<Rightarrow> string \<Rightarrow> (json \<Rightarrow> 'r \<Rightarrow> 'r option) option" where
  "find_field fs k =
     (case map_of fs k of
        Some d \<Rightarrow> Some d
      | None \<Rightarrow> map_option snd (find (\<lambda>(n, _). fold_name n = fold_name k) fs))"

fun decode_members :: "bool \<Rightarrow> 'r field_decoder list \<Rightarrow> (string \<times> json) list \<Rightarrow> 'r \<Rightarrow> 'r option" where
  "decode_members strict fs [] r = Some r"
| "decode_members strict fs ((k, v) # ms) r =
     (case find_field fs k of
        None \<Rightarrow> if strict then None else decode_members strict fs ms r
      | Some d \<Rightarrow> (case d v r of None \<Rightarrow> None | Some r' \<Rightarrow> decode_members strict fs ms r'))"

definition decode_struct :: "bool \<Rightarrow> 'r field_decoder list \<Rightarrow> 'r \<Rightarrow> req_body \<Rightarrow> 'r option" where
  "decode_struct strict fs r b =
     (case b of
        BadJson \<Rightarrow> None
      | Doc JNull \<Rightarrow> Some r
      | Doc (JObj ms) \<Rightarrow> decode_members strict fs ms r
      | Doc _ \<Rightarrow> None)"

lemma decode_strict_unknown:
  "(k, v) \<in> set ms \<Longrightarrow> find_field fs k = None \<Longrightarrow> decode_members True fs ms r = None"
  by (induction True fs ms r rule: decode_members.induct) (auto split: option.splits)

text \<open>Members of a response object: \<open>omitempty\<close> on a \<open>*string\<close> and on a \<open>string\<close>.\<close>

definition opt_member :: "string \<Rightarrow> string option \<Rightarrow> (string \<times> json) list" where
  "opt_member k v = (case v of None \<Rightarrow> [] | Some x \<Rightarrow> [(k, JStr x)])"

definition str_member :: "string \<Rightarrow> string \<Rightarrow> (string \<times> json) list" where
  "str_member k v = (if v = [] then [] else [(k, JStr v)])"

text \<open>Every string that occurs in a document, member names included.\<close>

fun json_strings :: "json \<Rightarrow> string set" where
  "json_strings (JStr s) = {s}"
| "json_strings (JArr xs) = (\<Union>x \<in> set xs. json_strings x)"
| "json_strings (JObj ms) = (\<Union>(k, v) \<in> set ms. insert k (json_strings v))"
| "json_strings _ = {}"

end
