(* ===== verification/GoErrors.thy ===== *)
theory GoErrors
  imports Prelude
begin

section \<open>Go error values\<close>

text \<open>
  Every error value the modelled packages create or inspect. A package-level sentinel is a
  constructor, so identity of the Go variable is equality here; \<open>ErrText\<close> is an error made on the
  spot by \<open>errors.New\<close> or by \<open>fmt.Errorf\<close> without \<open>%w\<close>; \<open>Wrap\<close> is \<open>fmt.Errorf("text%w")\<close> and
  \<open>Wrap2\<close> is \<open>fmt.Errorf("%w: %w")\<close>. \<open>errors_is\<close> and \<open>errors_as_pg\<close> walk the chain as
  \<open>errors.Is\<close> and \<open>errors.As\<close> do. Driver errors (\<open>*pgconn.PgError\<close>, modernc's \<open>*sqlite.Error\<close>)
  keep only the fields the code reads.
\<close>

datatype goerr =
    ErrNotFound
  | ErrAlreadyExists
  | ErrDuplicateUsername
  | ErrInvalidMethod
  | ErrInvalidQuery
  | ErrInvalidArgument
  | ErrInvalidCredential
  | DeadlineExceeded
  | Canceled
  | ErrNoRows
  | ErrUnclassified
  | ErrJWKSStale
  | ErrJWKSUnreachable
  | ErrVendorAuthFailed
  | ErrVendorIdentityNotFound
  | ErrIdentityVerificationUnavailable
  | ErrVendorCredentialRejected
  | PgError string string string
  | SqliteError int string
  | ErrText string
  | Wrap string goerr
  | Wrap2 goerr goerr

type_synonym ctx = "goerr option" \<comment> \<open>\<open>ctx.Err()\<close>: \<open>None\<close> while the context is live\<close>

fun errors_is :: "goerr \<Rightarrow> goerr \<Rightarrow> bool" where
  "errors_is (Wrap m e) t = (Wrap m e = t \<or> errors_is e t)"
| "errors_is (Wrap2 d e) t = (Wrap2 d e = t \<or> errors_is d t \<or> errors_is e t)"
| "errors_is e t = (e = t)"

text \<open>\<open>errors.As(err, *pgconn.PgError)\<close>: SQLSTATE and constraint name of the first one found.\<close>

fun errors_as_pg :: "goerr \<Rightarrow> (string \<times> string) option" where
  "errors_as_pg (PgError code con msg) = Some (code, con)"
| "errors_as_pg (Wrap m e) = errors_as_pg e"
| "errors_as_pg (Wrap2 d e) =
     (case errors_as_pg d of Some p \<Rightarrow> Some p | None \<Rightarrow> errors_as_pg e)"
| "errors_as_pg _ = None"

text \<open>\<open>errors.As(err, *sqlite.Error)\<close>: extended result code and message.\<close>

fun errors_as_sqlite :: "goerr \<Rightarrow> (int \<times> string) option" where
  "errors_as_sqlite (SqliteError code msg) = Some (code, msg)"
| "errors_as_sqlite (Wrap m e) = errors_as_sqlite e"
| "errors_as_sqlite (Wrap2 d e) =
     (case errors_as_sqlite d of Some p \<Rightarrow> Some p | None \<Rightarrow> errors_as_sqlite e)"
| "errors_as_sqlite _ = None"

text \<open>\<open>err.Error()\<close>.\<close>

fun err_msg :: "goerr \<Rightarrow> string" where
  "err_msg ErrNotFound = ''dao: not found''"
| "err_msg ErrAlreadyExists = ''dao: already exists''"
| "err_msg ErrDuplicateUsername = ''dao: duplicate username''"
| "err_msg ErrInvalidMethod = ''dao: unknown or inactive auth method''"
| "err_msg ErrInvalidQuery = ''dao: invalid query''"
| "err_msg ErrInvalidArgument = ''dao: invalid argument''"
| "err_msg ErrInvalidCredential = ''dao: credential violates secret-state rules''"
| "err_msg DeadlineExceeded = ''context deadline exceeded''"
| "err_msg Canceled = ''context canceled''"
| "err_msg ErrNoRows = ''sql: no rows in result set''"
| "err_msg ErrUnclassified = ''unclassified driver error''"
| "err_msg ErrJWKSStale = ''api: JWKS cache exceeded max staleness and could not be refreshed''"
| "err_msg ErrJWKSUnreachable = ''api: JWKS cache not yet populated and fetch failed''"
| "err_msg ErrVendorAuthFailed = ''connector: vendor authentication failed''"
| "err_msg ErrVendorIdentityNotFound = ''connector: vendor identity lookup failed''"
| "err_msg ErrIdentityVerificationUnavailable =
     ''onboarding: identity verification temporarily unavailable''"
| "err_msg ErrVendorCredentialRejected = ''onboarding: vendor credential rejected''"
| "err_msg (PgError code con msg) = msg"
| "err_msg (SqliteError code msg) = msg"
| "err_msg (ErrText m) = m"
| "err_msg (Wrap m e) = m @ err_msg e"
| "err_msg (Wrap2 d e) = err_msg d @ '': '' @ err_msg e"

definition dao_sentinels :: "goerr list" where
  "dao_sentinels = [ErrNotFound, ErrAlreadyExists, ErrDuplicateUsername, ErrInvalidMethod,
     ErrInvalidQuery, ErrInvalidArgument, ErrInvalidCredential]"

lemma errors_is_refl [simp]: "errors_is e e"
  by (cases e) auto

end
