(* ===== verification/Dao.thy ===== *)
theory Dao
  imports GoErrors GoStrings
begin

section \<open>internal/model and the backend-independent part of internal/dao\<close>

text \<open>
  The domain structs, \<open>ProfileQuery\<close>, \<open>SweepResult\<close>, and the validators and normalisers both SQL
  backends call before any SQL runs. A Go \<open>*string\<close> is a \<open>string option\<close> and \<open>[]byte\<close> a
  \<open>string option\<close> (\<open>None\<close> is \<open>nil\<close>). Unicode case mapping outside ASCII is the parameter
  \<open>toUpper\<close>, used only through the hypothesis that it is \<open>ascii_upper\<close> on ASCII strings.
\<close>

record user_profile =
  up_ID :: string
  up_Name :: string
  up_Phone :: "string option"
  up_StreetAddress :: "string option"
  up_Locality :: "string option"
  up_Region :: "string option"
  up_PostalCode :: "string option"
  up_Country :: "string option"
  up_Source :: string
  up_CreatedAt :: time
  up_UpdatedAt :: time

record user_credential =
  uc_ID :: string
  uc_UserID :: string
  uc_Username :: string
  uc_MethodID :: string
  uc_Secret :: "string option"
  uc_SecretState :: string
  uc_HashAlgo :: "string option"
  uc_HashCost :: "int option"
  uc_CreatedAt :: time
  uc_UpdatedAt :: time

record auth_method =
  am_ID :: string
  am_Name :: string
  am_RequiresSecret :: bool
  am_IsActive :: bool
  am_CreatedAt :: time

record profile_query =
  pq_Name :: "string option"
  pq_Phone :: "string option"
  pq_Region :: "string option"
  pq_Country :: "string option"
  pq_Limit :: int
  pq_Offset :: int

datatype retention_class =
  RetentionDirect | RetentionIDPCache | RetentionIDPCacheOrphan | OtherClass string

fun class_string :: "retention_class \<Rightarrow> string" where
  "class_string RetentionDirect = ''direct''"
| "class_string RetentionIDPCache = ''idp_cache''"
| "class_string RetentionIDPCacheOrphan = ''idp_cache_orphan''"
| "class_string (OtherClass s) = s"

record sweep_result =
  RowsExamined :: int
  RowsDeleted :: int
  OldestSurvivingAt :: "time option"
  Drained :: bool

subsection \<open>Validation\<close>

definition ValidateCreateID :: "string \<Rightarrow> goerr + unit" where
  "ValidateCreateID i = (if i \<noteq> [] then Inl ErrInvalidArgument else Inr ())"

definition profile_pointers :: "user_profile \<Rightarrow> string option list" where
  "profile_pointers p =
     [up_Phone p, up_StreetAddress p, up_Locality p, up_Region p, up_PostalCode p, up_Country p]"

definition ValidateProfilePointers :: "user_profile \<Rightarrow> goerr + unit" where
  "ValidateProfilePointers p =
     (if list_ex (\<lambda>f. f = Some []) (profile_pointers p) then Inl ErrInvalidArgument else Inr ())"

definition ValidateCredentialPointers :: "user_credential \<Rightarrow> goerr + unit" where
  "ValidateCredentialPointers c =
     (if uc_HashAlgo c = Some [] then Inl ErrInvalidArgument else Inr ())"

definition PrepareCreateProfileWithCredential :: "user_credential \<Rightarrow> user_credential" where
  "PrepareCreateProfileWithCredential c = c\<lparr>uc_UserID := []\<rparr>"

definition NormalizeProfileForWrite :: "(string \<Rightarrow> string) \<Rightarrow> user_profile \<Rightarrow> user_profile" where
  "NormalizeProfileForWrite toUpper p = p\<lparr>up_Country := map_option toUpper (up_Country p)\<rparr>"

text \<open>The regular expression \<open>^[0-9a-f]{8}-[0-9a-f]{4}-...-[0-9a-f]{12}$\<close>, group by group.\<close>

definition hex_char :: "char \<Rightarrow> bool" where
  "hex_char c \<longleftrightarrow> (48 \<le> byte c \<and> byte c \<le> 57) \<or> (97 \<le> byte c \<and> byte c \<le> 102)"

fun match_groups :: "nat list \<Rightarrow> string \<Rightarrow> bool" where
  "match_groups [] s = (s = [])"
| "match_groups [n] s = (length s = n \<and> list_all hex_char s)"
| "match_groups (n # ns) s =
     (n < length s \<and> list_all hex_char (take n s) \<and> s ! n = CHR ''-'' \<and> match_groups ns (drop (Suc n) s))"

definition uuidPattern :: "nat list" where
  "uuidPattern = [8, 4, 4, 4, 12]"

definition ValidateID :: "string \<Rightarrow> goerr + unit" where
  "ValidateID i = (if match_groups uuidPattern i then Inr () else Inl ErrInvalidArgument)"

definition ValidateProfileQuery :: "profile_query \<Rightarrow> goerr + unit" where
  "ValidateProfileQuery q =
     (if list_ex (\<lambda>f. case f of None \<Rightarrow> False | Some v \<Rightarrow> trim_space v = [])
           [pq_Name q, pq_Phone q, pq_Region q, pq_Country q] then Inl ErrInvalidQuery
      else if pq_Limit q < 0 \<or> 100 < pq_Limit q then Inl ErrInvalidQuery
      else if pq_Offset q < 0 \<or> 10000 < pq_Offset q then Inl ErrInvalidQuery
      else if (case pq_Country q of None \<Rightarrow> False | Some c \<Rightarrow> length c \<noteq> 2) then Inl ErrInvalidQuery
      else Inr ())"

definition EffectiveLimit :: "profile_query \<Rightarrow> int" where
  "EffectiveLimit q = (if pq_Limit q = 0 then 50 else pq_Limit q)"

lemma EffectiveLimit_range: "ValidateProfileQuery q = Inr () \<Longrightarrow> 1 \<le> EffectiveLimit q \<and> EffectiveLimit q \<le> 100"
  by (auto simp: ValidateProfileQuery_def EffectiveLimit_def split: if_splits)

subsection \<open>The identifier validator accepts one spelling only\<close>

text \<open>The position of the hyphens and digits in a canonical identifier.\<close>

definition canonical_uuid :: "string \<Rightarrow> bool" where
  "canonical_uuid s \<longleftrightarrow> length s = 36 \<and>
     list_all (\<lambda>(i, c). if i \<in> {8, 13, 18, 23} then c = CHR ''-'' else hex_char c) (enumerate 0 s)"

fun hyphens :: "nat \<Rightarrow> nat list \<Rightarrow> nat list" where
  "hyphens i (n # m # ns) = (i + n) # hyphens (i + n + 1) (m # ns)"
| "hyphens i ns = []"

definition layout_ok :: "nat \<Rightarrow> nat list \<Rightarrow> string \<Rightarrow> bool" where
  "layout_ok i ns s \<longleftrightarrow> length s + 1 = sum_list ns + length ns \<and>
     (\<forall>j < length s. if i + j \<in> set (hyphens i ns) then s ! j = CHR ''-'' else hex_char (s ! j))"

lemma hyphens_ge: "j \<in> set (hyphens i ns) \<Longrightarrow> i \<le> j"
  by (induction i ns rule: hyphens.induct) auto

lemma all_split_at:
  assumes "n < (m::nat)"
  shows "(\<forall>j < m. P j) \<longleftrightarrow> (\<forall>j < n. P j) \<and> P n \<and> (\<forall>j < m - Suc n. P (Suc n + j))"
proof (intro iffI allI impI)
  fix j
  assume r: "(\<forall>j < n. P j) \<and> P n \<and> (\<forall>j < m - Suc n. P (Suc n + j))" and j: "j < m"
  show "P j"
  proof (cases "n < j")
    case True
    then have "j - Suc n < m - Suc n" "Suc n + (j - Suc n) = j" using j by linarith+
    then show ?thesis using r by metis
  next
    case False
    then show ?thesis using r by (cases "j = n") auto
  qed
next
  assume "\<forall>j < m. P j"
  then show "(\<forall>j < n. P j) \<and> P n \<and> (\<forall>j < m - Suc n. P (Suc n + j))" using assms by auto
qed

lemma match_groups_layout: "ns \<noteq> [] \<Longrightarrow> match_groups ns s \<longleftrightarrow> layout_ok i ns s"
proof (induction ns s arbitrary: i rule: match_groups.induct)
  case (1 s)
  then show ?case by simp
next
  case (2 n s)
  then show ?case by (auto simp: layout_ok_def list_all_length)
next
  case (3 n m ns s)
  let ?h = "set (hyphens i (n # m # ns))"
  show ?case
  proof (cases "n < length s")
    case False
    then show ?thesis by (auto simp: layout_ok_def)
  next
    case True
    have in_h: "i + j \<in> ?h \<longleftrightarrow> j = n \<or> n < j \<and> i + j \<in> set (hyphens (i + n + 1) (m # ns))" for j
      using hyphens_ge [of "i + j" "i + n + 1" "m # ns"] by auto
    have "layout_ok i (n # m # ns) s \<longleftrightarrow> (\<forall>j < n. hex_char (s ! j)) \<and> s ! n = CHR ''-'' \<and>
        layout_ok (i + n + 1) (m # ns) (drop (Suc n) s)"
      unfolding layout_ok_def in_h all_split_at [OF True]
      using True by (auto simp: ac_simps)
    moreover have "match_groups (m # ns) (drop (Suc n) s) \<longleftrightarrow> layout_ok (i + n + 1) (m # ns) (drop (Suc n) s)"
      by (rule "3.IH") simp
    ultimately show ?thesis
      using True by (auto simp: list_all_length)
  qed
qed

text \<open>
  \<open>ValidateID\<close> accepts a string exactly when it is 36 bytes long with hyphens at positions
  8, 13, 18 and 23 and lower-case hexadecimal digits everywhere else, so an identifier has one
  accepted spelling on both backends.
\<close>
theorem validate_id_canonical: "ValidateID s = Inr () \<longleftrightarrow> canonical_uuid s"
proof -
  have h: "set (hyphens 0 uuidPattern) = {8, 13, 18, 23}" by (simp add: uuidPattern_def)
  have "match_groups uuidPattern s \<longleftrightarrow> layout_ok 0 uuidPattern s"
    by (rule match_groups_layout) (simp add: uuidPattern_def)
  also have "\<dots> \<longleftrightarrow> canonical_uuid s"
    unfolding layout_ok_def canonical_uuid_def h
    by (simp add: uuidPattern_def list_all_length nth_enumerate_eq)
  finally show ?thesis by (simp add: ValidateID_def)
qed

end
