(* ===== verification/Budget.thy ===== *)
theory Budget
  imports Prelude
begin

section \<open>Runs of a request-driven component, and admission budgets\<close>

text \<open>
  The limiters are objects that answer a request and change their state. \<open>run_ops\<close> is a sequence of
  calls under the component's mutex: it returns each request with its answer. \<open>legal\<close> says which
  requests may come in which state (for example: the clock does not run backwards).

  The locale \<open>budget\<close> is the contract an admission control keeps with its callers: a potential
  that every counted answer lowers by its cost and that nothing else raises. The bound on the total
  cost of a run is proved once, and is interpreted for the rate limiter.
\<close>

fun run_ops :: "('r \<Rightarrow> 's \<Rightarrow> 'o \<times> 's) \<Rightarrow> 'r list \<Rightarrow> 's \<Rightarrow> ('r \<times> 'o) list \<times> 's" where
  "run_ops step [] s = ([], s)"
| "run_ops step (r # rs) s =
     (let (a, s') = step r s; (out, t) = run_ops step rs s' in ((r, a) # out, t))"

fun legal :: "('r \<Rightarrow> 's \<Rightarrow> bool) \<Rightarrow> ('r \<Rightarrow> 's \<Rightarrow> 'o \<times> 's) \<Rightarrow> 'r list \<Rightarrow> 's \<Rightarrow> bool" where
  "legal ok step [] s = True"
| "legal ok step (r # rs) s = (ok r s \<and> legal ok step rs (snd (step r s)))"

definition total_cost :: "('r \<Rightarrow> 'o \<Rightarrow> int) \<Rightarrow> ('r \<times> 'o) list \<Rightarrow> int" where
  "total_cost cost out = sum_list (map (\<lambda>(r, a). cost r a) out)"

lemma total_cost_simps [simp]:
  "total_cost cost [] = 0"
  "total_cost cost ((r, a) # out) = cost r a + total_cost cost out"
  by (simp_all add: total_cost_def)

locale budget =
  fixes step :: "'r \<Rightarrow> 's \<Rightarrow> 'o \<times> 's"
    and ok :: "'r \<Rightarrow> 's \<Rightarrow> bool"
    and inv :: "'s \<Rightarrow> bool"
    and pot :: "'s \<Rightarrow> int"
    and cost :: "'r \<Rightarrow> 'o \<Rightarrow> int"
  assumes pot_nonneg: "inv s \<Longrightarrow> 0 \<le> pot s"
    and step_inv: "inv s \<Longrightarrow> ok r s \<Longrightarrow> inv (snd (step r s))"
    and step_pays: "inv s \<Longrightarrow> ok r s \<Longrightarrow> cost r (fst (step r s)) + pot (snd (step r s)) \<le> pot s"
begin

lemma run_inv: "inv s \<Longrightarrow> legal ok step rs s \<Longrightarrow> inv (snd (run_ops step rs s))"
proof (induction rs arbitrary: s)
  case Nil
  then show ?case by simp
next
  case (Cons r rs)
  have "inv (snd (step r s))" using Cons.prems by (auto intro: step_inv)
  with Cons show ?case by (simp add: case_prod_beta Let_def)
qed

lemma run_pays:
  "inv s \<Longrightarrow> legal ok step rs s \<Longrightarrow>
     total_cost cost (fst (run_ops step rs s)) + pot (snd (run_ops step rs s)) \<le> pot s"
proof (induction rs arbitrary: s)
  case Nil
  then show ?case by simp
next
  case (Cons r rs)
  have i: "inv (snd (step r s))" using Cons.prems by (auto intro: step_inv)
  have "cost r (fst (step r s)) + pot (snd (step r s)) \<le> pot s"
    using Cons.prems by (auto intro: step_pays)
  moreover have "total_cost cost (fst (run_ops step rs (snd (step r s))))
      + pot (snd (run_ops step rs (snd (step r s)))) \<le> pot (snd (step r s))"
    using Cons.IH [OF i] Cons.prems by simp
  ultimately show ?case by (simp add: case_prod_beta Let_def)
qed

lemma run_bounded:
  assumes "inv s" "legal ok step rs s"
  shows "total_cost cost (fst (run_ops step rs s)) \<le> pot s"
  using run_pays [OF assms] pot_nonneg [OF run_inv [OF assms]] by simp

end

end
