(* ===== verification/RateLimit.thy ===== *)
theory RateLimit
  imports Budget GoStrings
begin

section \<open>internal/api/ratelimit.go: the per-minute limiter\<close>

text \<open>
  \<open>InProcessRateLimiter\<close> is its \<open>buckets\<close> map; the wall clock is the argument \<open>now\<close>, and one call of
  \<open>Allow\<close> is one atomic step (the method holds the mutex). \<open>rl_allow\<close> is the whole method.
  The theorem \<open>rate_limit_two_windows\<close> bounds the burst at the boundary of two fixed windows: any
  minute admits less than twice the limit, and \<open>rate_limit_burst\<close> reaches the bound.
\<close>

type_synonym scope = string

record bucket =
  window_start :: time
  bucket_count :: int

type_synonym rate_limiter = "string \<rightharpoonup> bucket"

definition NewInProcessRateLimiter :: rate_limiter where
  "NewInProcessRateLimiter = Map.empty"

definition rl_key :: "string \<Rightarrow> scope \<Rightarrow> string" where
  "rl_key sub sc = sub @ ''|'' @ sc"

definition rl_allow :: "time \<Rightarrow> string \<Rightarrow> scope \<Rightarrow> int \<Rightarrow> rate_limiter \<Rightarrow> bool \<times> rate_limiter" where
  "rl_allow now sub sc limit m =
     (let key = rl_key sub sc;
          fresh = \<lparr>window_start = now, bucket_count = 0\<rparr>;
          b = (case m key of
                 None \<Rightarrow> fresh
               | Some b \<Rightarrow> if time_sub now (window_start b) \<ge> minute then fresh else b);
          m' = m(key \<mapsto> b)
      in if bucket_count b \<ge> limit then (False, m')
         else (True, m'(key \<mapsto> b\<lparr>bucket_count := bucket_count b + 1\<rparr>)))"

subsection \<open>One call\<close>

lemma rl_allow_other: "key \<noteq> rl_key sub sc \<Longrightarrow> snd (rl_allow now sub sc limit m) key = m key"
  by (simp add: rl_allow_def Let_def)

lemma rl_allow_own:
  "snd (rl_allow now sub sc limit m) (rl_key sub sc) =
     (let b = (case m (rl_key sub sc) of
                 None \<Rightarrow> \<lparr>window_start = now, bucket_count = 0\<rparr>
               | Some b \<Rightarrow> if window_start b + minute \<le> now
                           then \<lparr>window_start = now, bucket_count = 0\<rparr> else b)
      in Some (if limit \<le> bucket_count b then b else b\<lparr>bucket_count := bucket_count b + 1\<rparr>))"
  by (auto simp: rl_allow_def Let_def time_sub_ge_iff minute_def max_duration_def
      min_duration_def split: option.splits)

lemma rl_allow_answer:
  "fst (rl_allow now sub sc limit m) \<longleftrightarrow>
     (case m (rl_key sub sc) of
        None \<Rightarrow> 0 < limit
      | Some b \<Rightarrow> if window_start b + minute \<le> now then 0 < limit else bucket_count b < limit)"
  by (auto simp: rl_allow_def Let_def time_sub_ge_iff minute_def max_duration_def
      min_duration_def split: option.splits)

subsection \<open>Runs\<close>

record rl_req =
  rq_now :: time
  rq_sub :: string
  rq_scope :: scope
  rq_limit :: int

definition rq_key :: "rl_req \<Rightarrow> string" where
  "rq_key r = rl_key (rq_sub r) (rq_scope r)"

definition rl_step :: "rl_req \<Rightarrow> rate_limiter \<Rightarrow> bool \<times> rate_limiter" where
  "rl_step r m = rl_allow (rq_now r) (rq_sub r) (rq_scope r) (rq_limit r) m"

text \<open>The same step with the clock of the last call kept beside the state.\<close>

definition rl_clocked :: "rl_req \<Rightarrow> rate_limiter \<times> time \<Rightarrow> bool \<times> (rate_limiter \<times> time)" where
  "rl_clocked r s = (let (a, m') = rl_step r (fst s) in (a, (m', rq_now r)))"

definition rl_ok :: "string \<Rightarrow> int \<Rightarrow> rl_req \<Rightarrow> rate_limiter \<times> time \<Rightarrow> bool" where
  "rl_ok k limit r s \<longleftrightarrow> snd s \<le> rq_now r \<and> (rq_key r = k \<longrightarrow> rq_limit r = limit)"

definition rl_inv :: "string \<Rightarrow> int \<Rightarrow> rate_limiter \<times> time \<Rightarrow> bool" where
  "rl_inv k limit s \<longleftrightarrow> 1 \<le> limit \<and>
     (case fst s k of None \<Rightarrow> True
      | Some b \<Rightarrow> 1 \<le> bucket_count b \<and> bucket_count b \<le> limit \<and> window_start b \<le> snd s)"

text \<open>What may still be admitted for \<open>k\<close> at a time in \<open>[t, t + 1min)\<close>.\<close>

definition rl_pot :: "string \<Rightarrow> int \<Rightarrow> time \<Rightarrow> rate_limiter \<times> time \<Rightarrow> int" where
  "rl_pot k limit t s =
     (if t + minute \<le> snd s then 0
      else case fst s k of
        None \<Rightarrow> 2 * limit - 1
      | Some b \<Rightarrow>
          if t \<le> window_start b then limit - bucket_count b
          else if t < window_start b + minute then 2 * limit - bucket_count b
          else 2 * limit - 1)"

definition rl_hit :: "string \<Rightarrow> time \<Rightarrow> rl_req \<Rightarrow> bool \<Rightarrow> int" where
  "rl_hit k t r a = (if a \<and> rq_key r = k \<and> t \<le> rq_now r \<and> rq_now r < t + minute then 1 else 0)"

lemma rl_clocked_simps [simp]:
  "fst (rl_clocked r s) = fst (rl_step r (fst s))"
  "fst (snd (rl_clocked r s)) = snd (rl_step r (fst s))"
  "snd (snd (rl_clocked r s)) = rq_now r"
  by (simp_all add: rl_clocked_def case_prod_beta Let_def)

lemma rl_step_own:
  "rq_key r = k \<Longrightarrow> snd (rl_step r m) k =
     (let b = (case m k of
                 None \<Rightarrow> \<lparr>window_start = rq_now r, bucket_count = 0\<rparr>
               | Some b \<Rightarrow> if window_start b + minute \<le> rq_now r
                           then \<lparr>window_start = rq_now r, bucket_count = 0\<rparr> else b)
      in Some (if rq_limit r \<le> bucket_count b then b
               else b\<lparr>bucket_count := bucket_count b + 1\<rparr>))"
  by (auto simp: rl_step_def rq_key_def rl_allow_own)

lemma rl_step_other: "rq_key r \<noteq> k \<Longrightarrow> snd (rl_step r m) k = m k"
  by (simp add: rl_step_def rq_key_def rl_allow_other)

lemma rl_step_answer:
  "rq_key r = k \<Longrightarrow> fst (rl_step r m) \<longleftrightarrow>
     (case m k of
        None \<Rightarrow> 0 < rq_limit r
      | Some b \<Rightarrow> if window_start b + minute \<le> rq_now r then 0 < rq_limit r
                  else bucket_count b < rq_limit r)"
  by (auto simp: rl_step_def rq_key_def rl_allow_answer)

interpretation rl: budget rl_clocked "rl_ok k limit" "rl_inv k limit" "rl_pot k limit t" "rl_hit k t"
  for k limit t
proof
  fix s :: "rate_limiter \<times> time" and r
  assume i: "rl_inv k limit s"
  then show "0 \<le> rl_pot k limit t s"
    by (auto simp: rl_inv_def rl_pot_def split: option.splits)
  assume o: "rl_ok k limit r s"
  show "rl_inv k limit (snd (rl_clocked r s))"
    using i o by (cases "rq_key r = k")
      (auto simp: rl_inv_def rl_ok_def rl_step_own rl_step_other Let_def split: option.splits)
  show "rl_hit k t r (fst (rl_clocked r s)) + rl_pot k limit t (snd (rl_clocked r s)) \<le> rl_pot k limit t s"
  proof (cases "rq_key r = k")
    case False
    with i o show ?thesis
      by (auto simp: rl_inv_def rl_ok_def rl_hit_def rl_pot_def rl_step_other split: option.splits)
  next
    case True
    with i o show ?thesis
      by (auto simp: rl_inv_def rl_ok_def rl_hit_def rl_pot_def rl_step_own rl_step_answer Let_def
          minute_def split: option.splits)
  qed
qed

lemma run_clocked:
  "fst (run_ops rl_clocked rs (m, u)) = fst (run_ops rl_step rs m)"
  by (induction rs arbitrary: m u) (simp_all add: rl_clocked_def case_prod_beta Let_def)

lemma legal_clocked:
  "sorted (u # map rq_now rs) \<Longrightarrow> list_all (\<lambda>r. rq_key r = k \<longrightarrow> rq_limit r = limit) rs \<Longrightarrow>
     legal (rl_ok k limit) rl_clocked rs (m, u)"
  by (induction rs arbitrary: m u) (auto simp: rl_clocked_def rl_ok_def case_prod_beta Let_def)

definition rl_admitted :: "string \<Rightarrow> time \<Rightarrow> rl_req list \<Rightarrow> rate_limiter \<Rightarrow> nat" where
  "rl_admitted k t rs m =
     length (filter (\<lambda>(r, a). a \<and> rq_key r = k \<and> t \<le> rq_now r \<and> rq_now r < t + minute)
       (fst (run_ops rl_step rs m)))"

lemma rl_admitted_cost:
  "int (rl_admitted k t rs m) = total_cost (rl_hit k t) (fst (run_ops rl_step rs m))"
proof -
  have "int (length (filter (\<lambda>(r, a). a \<and> rq_key r = k \<and> t \<le> rq_now r \<and> rq_now r < t + minute) out))
      = total_cost (rl_hit k t) out" for out
    by (induction out) (simp_all add: rl_hit_def split: prod.splits)
  then show ?thesis by (simp add: rl_admitted_def)
qed

subsection \<open>Properties\<close>

text \<open>
  C36. In any interval of one minute the limiter admits less than twice the limit for one
  (caller, scope) key, whatever the other callers do, over every sequence of calls whose clock does
  not run backwards.
\<close>
theorem rate_limit_two_windows:
  assumes "sorted (map rq_now rs)" and "1 \<le> limit"
    and "list_all (\<lambda>r. rq_key r = k \<longrightarrow> rq_limit r = limit) rs"
  shows "int (rl_admitted k t rs NewInProcessRateLimiter) \<le> 2 * limit - 1"
proof (cases rs)
  case Nil
  with assms show ?thesis by (simp add: rl_admitted_def)
next
  case (Cons r rs')
  let ?s = "(NewInProcessRateLimiter, rq_now r)"
  have inv: "rl_inv k limit ?s"
    using assms(2) by (simp add: rl_inv_def NewInProcessRateLimiter_def)
  have "legal (rl_ok k limit) rl_clocked rs ?s"
    using assms by (intro legal_clocked) (auto simp: Cons)
  then have "total_cost (rl_hit k t) (fst (run_ops rl_clocked rs ?s)) \<le> rl_pot k limit t ?s"
    by (rule rl.run_bounded [OF inv])
  also have "\<dots> \<le> 2 * limit - 1"
    using assms(2) by (auto simp: rl_pot_def NewInProcessRateLimiter_def)
  finally show ?thesis by (simp add: rl_admitted_cost run_clocked)
qed

definition rl_example :: "time \<Rightarrow> rl_req" where
  "rl_example t = \<lparr>rq_now = t, rq_sub = ''c'', rq_scope = ''profile:search'', rq_limit = 2\<rparr>"

text \<open>The bound is reached: two full windows inside one minute.\<close>

lemma rate_limit_burst:
  "rl_admitted ''c|profile:search'' 59000000000
      [rl_example 0, rl_example 59000000000, rl_example 59000000000, rl_example 60000000000,
       rl_example 61000000000, rl_example 62000000000] NewInProcessRateLimiter = 3"
  by code_simp

theorem rate_limit_two_windows_witness:
  "int (rl_admitted ''c|profile:search'' 59000000000
      [rl_example 0, rl_example 59000000000, rl_example 59000000000, rl_example 60000000000,
       rl_example 61000000000, rl_example 62000000000] NewInProcessRateLimiter) \<le> 2 * 2 - 1"
  by (rule rate_limit_two_windows) (simp_all add: rl_example_def rq_key_def rl_key_def)

end
