(* ===== verification/TouchCounter.thy ===== *)
theory TouchCounter
  imports GoErrors "HOL-Library.FSet" "HOL-Library.Multiset"
begin

section \<open>internal/api/touchcounter.go: the distinct-record touch cap\<close>

text \<open>
  \<open>touch_counter\<close> is \<open>InProcessTouchCounter\<close>: a map from callers to windows, the cap, the window
  length and the time of the last sweep. \<open>Reserve\<close> and \<open>Settle\<close> are atomic steps (both hold the
  mutex); the clock is an argument. \<open>touch_reservation\<close> with \<open>reserveTouches\<close>, \<open>tr_release\<close> and
  \<open>tr_settle\<close> is the client side, written against the interface record \<open>touch_iface\<close> (Go's
  \<open>TouchCounter\<close> interface).

  The step relation \<open>tc_step\<close> interleaves the \<open>Reserve\<close> and \<open>Settle\<close> calls of any number of
  requests; \<open>touch_cap\<close> bounds the distinct records touched in one window, and
  \<open>settle_after_rollover\<close> shows what happens when a reservation outlives its window.
\<close>

record touch_window =
  tw_start :: time
  touched :: "string fset"
  tw_reserved :: int

record touch_counter =
  tc_windows :: "string \<rightharpoonup> touch_window"
  tc_cap :: int
  tc_window :: duration
  tc_last_sweep :: time

definition NewInProcessTouchCounter :: "int \<Rightarrow> duration \<Rightarrow> touch_counter" where
  "NewInProcessTouchCounter capPerWindow window =
     \<lparr>tc_windows = Map.empty, tc_cap = capPerWindow, tc_window = window, tc_last_sweep = 0\<rparr>"

definition currentWindow :: "string \<Rightarrow> time \<Rightarrow> touch_counter \<Rightarrow> touch_window \<times> touch_counter" where
  "currentWindow sub now c =
     (let fresh = \<lparr>tw_start = now, touched = {||}, tw_reserved = 0\<rparr> in
      case tc_windows c sub of
        None \<Rightarrow> (fresh, c\<lparr>tc_windows := (tc_windows c)(sub \<mapsto> fresh)\<rparr>)
      | Some w \<Rightarrow>
          if tc_window c \<le> time_sub now (tw_start w)
          then (fresh, c\<lparr>tc_windows := (tc_windows c)(sub \<mapsto> fresh)\<rparr>)
          else (w, c))"

definition tc_sweep :: "time \<Rightarrow> touch_counter \<Rightarrow> touch_counter" where
  "tc_sweep now c =
     (if time_sub now (tc_last_sweep c) < tc_window c then c
      else c\<lparr>tc_last_sweep := now,
             tc_windows := sweep_map
               (\<lambda>w. wrap64 (2 * tc_window c) \<le> time_sub now (tw_start w)) (tc_windows c)\<rparr>)"

definition Reserve :: "time \<Rightarrow> string \<Rightarrow> int \<Rightarrow> touch_counter \<Rightarrow> bool \<times> touch_counter" where
  "Reserve now sub maxNewTouches c =
     (let (w, c1) = currentWindow sub now (tc_sweep now c) in
      if tc_cap c1 \<le> int (fcard (touched w)) + tw_reserved w then (False, c1)
      else (True, c1\<lparr>tc_windows := (tc_windows c1)
              (sub \<mapsto> w\<lparr>tw_reserved := tw_reserved w + maxNewTouches\<rparr>)\<rparr>))"

definition Settle :: "string \<Rightarrow> string list \<Rightarrow> int \<Rightarrow> touch_counter \<Rightarrow> touch_counter" where
  "Settle sub recordIDs reserved c =
     (case tc_windows c sub of
        None \<Rightarrow> c
      | Some w \<Rightarrow> c\<lparr>tc_windows := (tc_windows c)
          (sub \<mapsto> w\<lparr>touched := fset_of_list recordIDs |\<union>| touched w,
                     tw_reserved := max 0 (tw_reserved w - reserved)\<rparr>)\<rparr>)"

subsection \<open>One call\<close>

definition touched_of :: "touch_counter \<Rightarrow> string \<Rightarrow> string fset" where
  "touched_of c sub = (case tc_windows c sub of None \<Rightarrow> {||} | Some w \<Rightarrow> touched w)"

definition reserved_of :: "touch_counter \<Rightarrow> string \<Rightarrow> int" where
  "reserved_of c sub = (case tc_windows c sub of None \<Rightarrow> 0 | Some w \<Rightarrow> tw_reserved w)"

text \<open>The call at \<open>now\<close> finds no window of \<open>sub\<close> that has run out (so none is replaced or swept).\<close>

definition in_window :: "string \<Rightarrow> time \<Rightarrow> touch_counter \<Rightarrow> bool" where
  "in_window sub now c \<longleftrightarrow>
     (case tc_windows c sub of None \<Rightarrow> True | Some w \<Rightarrow> time_sub now (tw_start w) < tc_window c)"

definition tc_sane :: "touch_counter \<Rightarrow> bool" where
  "tc_sane c \<longleftrightarrow> 0 < tc_window c \<and> tc_window c < 2 ^ 62"

lemma tc_sweep_simps [simp]:
  "tc_cap (tc_sweep now c) = tc_cap c" "tc_window (tc_sweep now c) = tc_window c"
  by (simp_all add: tc_sweep_def)

lemma tc_sweep_keeps:
  assumes "tc_sane c" "in_window sub now c"
  shows "tc_windows (tc_sweep now c) sub = tc_windows c sub"
  using assms
  by (auto simp: tc_sweep_def sweep_map_def in_window_def tc_sane_def wrap64_id split: option.splits)

lemma Settle_simps [simp]:
  "tc_cap (Settle sub ids n c) = tc_cap c" "tc_window (Settle sub ids n c) = tc_window c"
  by (simp_all add: Settle_def split: option.splits)

lemma currentWindow_simps [simp]:
  "tc_cap (snd (currentWindow sub now c)) = tc_cap c"
  "tc_window (snd (currentWindow sub now c)) = tc_window c"
  by (simp_all add: currentWindow_def Let_def split: option.splits)

lemma Reserve_simps [simp]:
  "tc_cap (snd (Reserve now sub n c)) = tc_cap c"
  "tc_window (snd (Reserve now sub n c)) = tc_window c"
  by (simp_all add: Reserve_def case_prod_beta Let_def)

lemma Reserve_in_window:
  assumes "tc_sane c" "in_window sub now c"
  shows "fst (Reserve now sub n c) \<longleftrightarrow> int (fcard (touched_of c sub)) + reserved_of c sub < tc_cap c"
    and "touched_of (snd (Reserve now sub n c)) sub = touched_of c sub"
    and "reserved_of (snd (Reserve now sub n c)) sub =
           reserved_of c sub + (if fst (Reserve now sub n c) then n else 0)"
  using assms tc_sweep_keeps [OF assms]
  by (auto simp: Reserve_def currentWindow_def Let_def touched_of_def reserved_of_def in_window_def
      not_le split: option.splits)

lemma Reserve_start:
  assumes "tc_sane c" "in_window sub now c" "tc_windows c sub = Some w"
  shows "\<exists>w'. tc_windows (snd (Reserve now sub n c)) sub = Some w' \<and> tw_start w' = tw_start w"
  using assms tc_sweep_keeps [OF assms(1,2)]
  by (auto simp: Reserve_def currentWindow_def Let_def in_window_def not_le)

lemma Reserve_start_new:
  assumes "tc_windows c sub = None"
  shows "\<exists>w'. tc_windows (snd (Reserve now sub n c)) sub = Some w' \<and> tw_start w' = now"
proof -
  have "tc_windows (tc_sweep now c) sub = None"
    using assms by (simp add: tc_sweep_def sweep_map_def)
  then show ?thesis by (simp add: Reserve_def currentWindow_def Let_def)
qed

lemma Settle_own:
  assumes "tc_windows c sub = Some w"
  shows "touched_of (Settle sub ids n c) sub = fset_of_list ids |\<union>| touched_of c sub"
    and "reserved_of (Settle sub ids n c) sub = max 0 (reserved_of c sub - n)"
  using assms by (simp_all add: Settle_def touched_of_def reserved_of_def)

lemma Settle_other: "s \<noteq> sub \<Longrightarrow> tc_windows (Settle sub ids n c) s = tc_windows c s"
  by (simp add: Settle_def split: option.splits)

subsection \<open>Interleaved requests\<close>

text \<open>
  The counter with the reservations in flight. Calls come from any number of callers in any order;
  every \<open>Settle\<close> consumes a reservation in flight and reports at most as many records as it booked.
  All calls fall in one window length \<open>[t0, t0 + window)\<close>.
\<close>

type_synonym tc_sys = "touch_counter \<times> (string \<times> int) multiset"

inductive tc_step :: "time \<Rightarrow> int \<Rightarrow> tc_sys \<Rightarrow> tc_sys \<Rightarrow> bool" for t0 M where
  tc_reserve: "t0 \<le> now \<Longrightarrow> now < t0 + tc_window c \<Longrightarrow> 0 < n \<Longrightarrow> n \<le> M \<Longrightarrow>
     Reserve now sub n c = (ok, c') \<Longrightarrow>
     tc_step t0 M (c, Q) (c', if ok then add_mset (sub, n) Q else Q)"
| tc_settle: "(sub, n) \<in># Q \<Longrightarrow> int (length ids) \<le> n \<Longrightarrow>
     tc_step t0 M (c, Q) (Settle sub ids n c, Q - {#(sub, n)#})"

inductive_cases tc_stepE: "tc_step t0 M s s'"

definition booked :: "string \<Rightarrow> (string \<times> int) multiset \<Rightarrow> int" where
  "booked k Q = (\<Sum>(s, n) \<in># Q. if s = k then n else 0)"

lemma booked_simps [simp]:
  "booked k {#} = 0"
  "booked k (add_mset (s, n) Q) = (if s = k then n else 0) + booked k Q"
  by (simp_all add: booked_def)

lemma booked_remove: "(s, n) \<in># Q \<Longrightarrow> booked k (Q - {#(s, n)#}) = booked k Q - (if s = k then n else 0)"
  by (auto dest!: multi_member_split)

text \<open>The caller \<open>k\<close> either has no window that is live at \<open>t0\<close> and nothing in flight, or has one
  opened since, whose bookkeeping is exact.\<close>

definition tc_inv :: "string \<Rightarrow> time \<Rightarrow> int \<Rightarrow> tc_sys \<Rightarrow> bool" where
  "tc_inv k t0 M s \<longleftrightarrow> (case s of (c, Q) \<Rightarrow>
     tc_sane c \<and> 0 \<le> tc_cap c \<and> 1 \<le> M \<and> (\<forall>(s, n) \<in># Q. 0 < n) \<and>
     (if \<exists>w. tc_windows c k = Some w \<and> t0 \<le> tw_start w
      then reserved_of c k = booked k Q
         \<and> int (fcard (touched_of c k)) + booked k Q \<le> tc_cap c + M - 1
      else (\<forall>w. tc_windows c k = Some w \<longrightarrow> tw_start w + tc_window c \<le> t0) \<and> booked k Q = 0
         \<and> (\<forall>n. (k, n) \<notin># Q)))"

lemma fcard_add_ids: "int (fcard (fset_of_list ids |\<union>| S)) \<le> int (length ids) + int (fcard S)"
proof -
  have "fcard (fset_of_list ids) \<le> length ids"
    by (metis card_length fcard.rep_eq fset_of_list.rep_eq)
  moreover have "fcard (fset_of_list ids |\<union>| S) \<le> fcard (fset_of_list ids) + fcard S"
    by (simp add: fcard.rep_eq union_fset card_Un_le)
  ultimately show ?thesis by linarith
qed

lemma booked_nonneg: "\<forall>(s, n) \<in># Q. 0 < n \<Longrightarrow> 0 \<le> booked k Q"
  by (induction Q) auto

lemma booked_pos: "\<forall>(s, n) \<in># Q. 0 < n \<Longrightarrow> (k, m) \<in># Q \<Longrightarrow> m \<le> booked k Q"
  using booked_nonneg [of "Q - {#(k, m)#}" k] booked_remove [of k m Q k]
  by (auto dest: in_diffD)

lemma Reserve_other:
  assumes "tc_sane c" "in_window k now c" "s \<noteq> k"
  shows "tc_windows (snd (Reserve now s n c)) k = tc_windows c k"
  using tc_sweep_keeps [OF assms(1,2)] assms(3)
  by (auto simp: Reserve_def currentWindow_def Let_def split: option.splits)

lemma Reserve_other_None:
  assumes "s \<noteq> k" "tc_windows (snd (Reserve now s n c)) k = Some w"
  shows "tc_windows c k = Some w"
proof -
  have "tc_windows (snd (Reserve now s n c)) k = tc_windows (tc_sweep now c) k"
    using assms(1) by (auto simp: Reserve_def currentWindow_def Let_def split: option.splits)
  with assms(2) show ?thesis
    by (auto simp: tc_sweep_def sweep_map_Some split: if_splits)
qed

text \<open>A window that ran out is replaced by an empty one.\<close>

lemma Reserve_rollover:
  assumes "\<forall>w. tc_windows c k = Some w \<longrightarrow> tc_window c \<le> time_sub now (tw_start w)"
  shows "fst (Reserve now k n c) \<longleftrightarrow> 0 < tc_cap c"
    and "tc_windows (snd (Reserve now k n c)) k =
      Some \<lparr>tw_start = now, touched = {||}, tw_reserved = (if 0 < tc_cap c then n else 0)\<rparr>"
proof -
  have "\<forall>w. tc_windows (tc_sweep now c) k = Some w \<longrightarrow> tc_window c \<le> time_sub now (tw_start w)"
    using assms by (auto simp: tc_sweep_def sweep_map_Some)
  then show "fst (Reserve now k n c) \<longleftrightarrow> 0 < tc_cap c"
    and "tc_windows (snd (Reserve now k n c)) k =
      Some \<lparr>tw_start = now, touched = {||}, tw_reserved = (if 0 < tc_cap c then n else 0)\<rparr>"
    by (auto simp: Reserve_def currentWindow_def Let_def not_le fcard_fempty split: option.splits)
qed

lemma tc_inv_liveI:
  "tc_sane c \<Longrightarrow> 0 \<le> tc_cap c \<Longrightarrow> 1 \<le> M \<Longrightarrow> \<forall>(s, n) \<in># Q. 0 < n \<Longrightarrow>
   tc_windows c k = Some w \<Longrightarrow> t0 \<le> tw_start w \<Longrightarrow> tw_reserved w = booked k Q \<Longrightarrow>
   int (fcard (touched w)) + booked k Q \<le> tc_cap c + M - 1 \<Longrightarrow> tc_inv k t0 M (c, Q)"
  by (auto simp: tc_inv_def reserved_of_def touched_of_def)

lemma tc_inv_idleI:
  "tc_sane c \<Longrightarrow> 0 \<le> tc_cap c \<Longrightarrow> 1 \<le> M \<Longrightarrow> \<forall>(s, n) \<in># Q. 0 < n \<Longrightarrow> 0 < tc_window c \<Longrightarrow>
   (\<And>w. tc_windows c k = Some w \<Longrightarrow> tw_start w + tc_window c \<le> t0) \<Longrightarrow> booked k Q = 0 \<Longrightarrow>
   \<forall>n. (k, n) \<notin># Q \<Longrightarrow> tc_inv k t0 M (c, Q)"
  by (fastforce simp: tc_inv_def)

lemma tc_step_reserve:
  assumes inv: "tc_inv k t0 M (c, Q)" and t: "t0 \<le> now" "now < t0 + tc_window c" and n: "0 < n" "n \<le> M"
    and r: "Reserve now sub n c = (ok, c')"
  shows "tc_inv k t0 M (c', if ok then add_mset (sub, n) Q else Q)"
proof -
  have ok: "ok = fst (Reserve now sub n c)" and c': "c' = snd (Reserve now sub n c)" using r by simp_all
  have sane: "tc_sane c" and cap: "0 \<le> tc_cap c" "1 \<le> M" and pos: "\<forall>(s, n) \<in># Q. 0 < n"
    using inv by (auto simp: tc_inv_def)
  have sane': "tc_sane c'" using sane by (simp add: tc_sane_def c')
  note lim = sane [unfolded tc_sane_def] max_duration_def min_duration_def
  show ?thesis
  proof (cases "\<exists>w. tc_windows c k = Some w \<and> t0 \<le> tw_start w")
    case True
    then obtain w where w: "tc_windows c k = Some w" "t0 \<le> tw_start w" by blast
    have "time_sub now (tw_start w) < tc_window c"
      using w(2) t lim by (subst time_sub_less_iff) auto
    then have i: "in_window k now c" using w(1) by (simp add: in_window_def)
    have book: "reserved_of c k = booked k Q"
        "int (fcard (touched_of c k)) + booked k Q \<le> tc_cap c + M - 1"
      using inv True by (auto simp: tc_inv_def)
    show ?thesis
    proof (cases "sub = k")
      case True
      obtain w' where w': "tc_windows c' k = Some w'" "tw_start w' = tw_start w"
        using Reserve_start [OF sane i w(1)] True by (auto simp: c')
      show ?thesis
        using w w' sane' cap pos book n Reserve_in_window [OF sane i, of n] True
        by (auto simp: tc_inv_def c' ok)
    next
      case False
      have "tc_windows c' k = tc_windows c k" using Reserve_other [OF sane i False] by (simp add: c')
      then show ?thesis
        using w sane' cap pos book n False by (auto simp: tc_inv_def c' reserved_of_def touched_of_def)
    qed
  next
    case nolive: False
    have old: "\<forall>w. tc_windows c k = Some w \<longrightarrow> tw_start w + tc_window c \<le> t0"
      and Q: "booked k Q = 0" "\<forall>n. (k, n) \<notin># Q"
      using inv nolive by (auto simp: tc_inv_def split: if_splits)
    show ?thesis
    proof (cases "sub = k")
      case True
      have "\<forall>w. tc_windows c k = Some w \<longrightarrow> tc_window c \<le> time_sub now (tw_start w)"
        using old t lim by (auto simp: time_sub_ge_iff)
      from Reserve_rollover [OF this, of n] have
        "fst (Reserve now k n c) \<longleftrightarrow> 0 < tc_cap c"
        "tc_windows c' k = Some \<lparr>tw_start = now, touched = {||}, tw_reserved = (if 0 < tc_cap c then n else 0)\<rparr>"
        by (simp_all add: c' True)
      then show ?thesis
        using True t pos Q n cap ok
        by (intro tc_inv_liveI [OF sane' _ cap(2)]) (auto simp: fcard_fempty c')
    next
      case False
      have old': "\<And>w. tc_windows c' k = Some w \<Longrightarrow> tw_start w + tc_window c' \<le> t0"
        using Reserve_other_None [OF False, of now n c] old by (simp add: c')
      have "0 \<le> tc_cap c'" "0 < tc_window c'" using cap sane by (simp_all add: c' tc_sane_def)
      with False pos Q n show ?thesis
        by (intro tc_inv_idleI [OF sane' _ cap(2) _ _ old']) auto
    qed
  qed
qed

lemma tc_step_settle:
  assumes inv: "tc_inv k t0 M (c, Q)" and q: "(sub, n) \<in># Q" and ids: "int (length ids) \<le> n"
  shows "tc_inv k t0 M (Settle sub ids n c, Q - {#(sub, n)#})"
proof -
  have sane: "tc_sane c" and cap: "0 \<le> tc_cap c" "1 \<le> M" and pos: "\<forall>(s, n) \<in># Q. 0 < n"
    using inv by (auto simp: tc_inv_def)
  have sane': "tc_sane (Settle sub ids n c)" using sane by (simp add: tc_sane_def)
  have pos': "\<forall>(s, n) \<in># Q - {#(sub, n)#}. 0 < n" using pos by (auto dest: in_diffD)
  show ?thesis
  proof (cases "sub = k")
    case True
    have live: "\<exists>w. tc_windows c k = Some w \<and> t0 \<le> tw_start w"
      using inv q True by (auto simp: tc_inv_def split: if_splits)
    then obtain w where w: "tc_windows c k = Some w" "t0 \<le> tw_start w" by blast
    have book: "reserved_of c k = booked k Q"
        "int (fcard (touched_of c k)) + booked k Q \<le> tc_cap c + M - 1"
      using inv live by (auto simp: tc_inv_def)
    have le: "n \<le> booked k Q" using booked_pos [OF pos] q True by simp
    have live': "\<exists>w'. tc_windows (Settle sub ids n c) k = Some w' \<and> t0 \<le> tw_start w'"
      using w True by (simp add: Settle_def)
    show ?thesis
      using live' sane' cap pos' book le ids True booked_remove [OF q, of k]
        Settle_own [OF w(1), of ids n] fcard_add_ids [of ids "touched_of c k"]
      by (simp add: tc_inv_def)
  next
    case False
    have "tc_windows (Settle sub ids n c) k = tc_windows c k"
      using False by (simp add: Settle_other)
    then show ?thesis
      using inv sane' pos' booked_remove [OF q, of k] False
      by (auto simp: tc_inv_def reserved_of_def touched_of_def dest: in_diffD)
  qed
qed

lemma tc_step_inv: "tc_step t0 M s s' \<Longrightarrow> tc_inv k t0 M s \<Longrightarrow> tc_inv k t0 M s'"
  by (cases rule: tc_step.cases) (auto intro: tc_step_reserve tc_step_settle)

lemma tc_reach_inv: "(tc_step t0 M)\<^sup>*\<^sup>* s s' \<Longrightarrow> tc_inv k t0 M s \<Longrightarrow> tc_inv k t0 M s'"
  by (induction rule: rtranclp_induct) (auto intro: tc_step_inv)


definition day :: duration where "day = 24 * hour"

definition tc_small :: touch_counter where
  "tc_small = NewInProcessTouchCounter 1 day"

lemma tc_small_reserve:
  "Reserve 5 ''k'' 2 tc_small =
     (True, tc_small\<lparr>tc_windows := [''k'' \<mapsto> \<lparr>tw_start = 5, touched = {||}, tw_reserved = 2\<rparr>]\<rparr>)"
  by (simp add: Reserve_def currentWindow_def tc_sweep_def tc_small_def NewInProcessTouchCounter_def
      time_sub_def day_def hour_def max_duration_def min_duration_def fcard_fempty Let_def)


text \<open>
  When a reservation outlives its window, \<open>Settle\<close> does act on the window that replaced it: the old
  request's records are counted there and its release erases the new request's booking, so the cap
  is passed by more than one reservation allows (cap 1, reservations of 1, two records touched).
\<close>

lemma rollover_reserves:
  "Reserve 5 ''k'' 1 tc_small =
     (True, tc_small\<lparr>tc_windows := [''k'' \<mapsto> \<lparr>tw_start = 5, touched = {||}, tw_reserved = 1\<rparr>]\<rparr>)"
  "Reserve (5 + day) ''k'' 1
     (tc_small\<lparr>tc_windows := [''k'' \<mapsto> \<lparr>tw_start = 5, touched = {||}, tw_reserved = 1\<rparr>]\<rparr>) =
     (True, tc_small\<lparr>tc_last_sweep := 5 + day,
        tc_windows := [''k'' \<mapsto> \<lparr>tw_start = 5 + day, touched = {||}, tw_reserved = 1\<rparr>]\<rparr>)"
proof -
  have [simp]: "sweep_map dead [''k'' \<mapsto> w] = (if dead w then Map.empty else [''k'' \<mapsto> w])" for dead w
    by (auto simp: sweep_map_def fun_eq_iff)
  show "Reserve 5 ''k'' 1 tc_small =
     (True, tc_small\<lparr>tc_windows := [''k'' \<mapsto> \<lparr>tw_start = 5, touched = {||}, tw_reserved = 1\<rparr>]\<rparr>)"
    "Reserve (5 + day) ''k'' 1
     (tc_small\<lparr>tc_windows := [''k'' \<mapsto> \<lparr>tw_start = 5, touched = {||}, tw_reserved = 1\<rparr>]\<rparr>) =
     (True, tc_small\<lparr>tc_last_sweep := 5 + day,
        tc_windows := [''k'' \<mapsto> \<lparr>tw_start = 5 + day, touched = {||}, tw_reserved = 1\<rparr>]\<rparr>)"
    by (simp_all add: Reserve_def currentWindow_def tc_sweep_def tc_small_def
      NewInProcessTouchCounter_def time_sub_def day_def hour_def max_duration_def
      min_duration_def fcard_fempty Let_def wrap64_id)
qed

lemma settle_after_rollover:
  assumes "c1 = snd (Reserve 5 ''k'' 1 tc_small)" and "c2 = snd (Reserve (5 + day) ''k'' 1 c1)"
    and "c3 = Settle ''k'' [''a''] 1 c2" and "c4 = Settle ''k'' [''b''] 1 c3"
  shows "fst (Reserve (5 + day) ''k'' 1 c1) \<and> reserved_of c2 ''k'' = 1 \<and> reserved_of c3 ''k'' = 0
       \<and> map_option tw_start (tc_windows c4 ''k'') = Some (5 + day)
       \<and> fcard (touched_of c4 ''k'') = 2"
  by (simp add: assms rollover_reserves Settle_def touched_of_def reserved_of_def fcard_finsert_if
      fcard_fempty)

subsection \<open>The client side: a reservation with a deferred release\<close>

record 's touch_iface =
  ti_Reserve :: "ctx \<Rightarrow> string \<Rightarrow> int \<Rightarrow> ('s, goerr, bool) op"
  ti_Settle :: "ctx \<Rightarrow> string \<Rightarrow> string list \<Rightarrow> int \<Rightarrow> ('s, goerr, unit) op"

record touch_reservation =
  tr_sub :: string
  tr_reserved :: int
  tr_done :: bool

definition reserveTouches ::
  "ctx \<Rightarrow> 's touch_iface \<Rightarrow> string \<Rightarrow> int \<Rightarrow> ('s, goerr, touch_reservation option \<times> bool) op" where
  "reserveTouches cx tc sub maxNewTouches =
     bindS (ti_Reserve tc cx sub maxNewTouches) (\<lambda>ok.
       if ok then retS (Some \<lparr>tr_sub = sub, tr_reserved = maxNewTouches, tr_done = False\<rparr>, True)
       else retS (None, False))"

text \<open>\<open>None\<close> is the nil reservation, on which both methods are no-ops. The release detaches the
  context from the request's cancellation: it calls \<open>Settle\<close> with a live context.\<close>

definition tr_release :: "'s touch_iface \<Rightarrow> touch_reservation option \<Rightarrow> 's \<Rightarrow> 's" where
  "tr_release tc tr s =
     (case tr of None \<Rightarrow> s
      | Some t \<Rightarrow> if tr_done t then s else snd (ti_Settle tc None (tr_sub t) [] (tr_reserved t) s))"

definition tr_settle :: "ctx \<Rightarrow> 's touch_iface \<Rightarrow> string list \<Rightarrow>
    ('s \<times> touch_reservation option, goerr, unit) op" where
  "tr_settle cx tc recordIDs st =
     (case st of
        (s, None) \<Rightarrow> (Inr (), st)
      | (s, Some t) \<Rightarrow>
          if tr_done t then (Inr (), st)
          else let (r, s') = ti_Settle tc cx (tr_sub t) recordIDs (tr_reserved t) s
               in (r, (s', Some (t\<lparr>tr_done := True\<rparr>))))"

text \<open>\<open>defer tr.release(ctx)\<close>: the body runs with the reservation beside the state, and every way out
  of it (an error or a value) is followed by the release.\<close>

definition deferred :: "'s touch_iface \<Rightarrow> touch_reservation option \<Rightarrow>
    ('s \<times> touch_reservation option, 'e, 'a) op \<Rightarrow> ('s, 'e, 'a) op" where
  "deferred tc tr body s = (case body (s, tr) of (r, (s', tr')) \<Rightarrow> (r, tr_release tc tr' s'))"

definition lift_tr :: "('s, 'e, 'a) op \<Rightarrow> ('s \<times> touch_reservation option, 'e, 'a) op" where
  "lift_tr m st = (case m (fst st) of (r, s') \<Rightarrow> (r, (s', snd st)))"

lemma lift_tr_simps [simp]:
  "fst (lift_tr m (s, tr)) = fst (m s)" "snd (lift_tr m (s, tr)) = (snd (m s), tr)"
  by (simp_all add: lift_tr_def case_prod_beta)

text \<open>After a \<open>settle\<close> the deferred release does nothing, whatever \<open>Settle\<close> returned.\<close>

lemma release_after_settle:
  "tr_settle cx tc ids (s, tr) = (r, (s', tr')) \<Longrightarrow> tr_release tc tr' s' = s'"
  by (auto simp: tr_settle_def tr_release_def case_prod_beta Let_def split: if_splits option.splits)

text \<open>The in-process counter behind the interface; \<open>get\<close> and \<open>put\<close> place it in a larger state,
  \<open>clock\<close> reads the time from it.\<close>

definition in_process_touch ::
  "('s \<Rightarrow> time) \<Rightarrow> ('s \<Rightarrow> touch_counter) \<Rightarrow> (touch_counter \<Rightarrow> 's \<Rightarrow> 's) \<Rightarrow> 's touch_iface" where
  "in_process_touch clock get put =
     \<lparr>ti_Reserve = (\<lambda>_ sub n s. let (ok, c) = Reserve (clock s) sub n (get s) in (Inr ok, put c s)),
      ti_Settle = (\<lambda>_ sub ids n s. (Inr (), put (Settle sub ids n (get s)) s))\<rparr>"

end
