(* ===== verification/ApiCore.thy ===== *)
theory ApiCore
  imports Json Dao RateLimit TouchCounter
begin

section \<open>internal/api: authorization data, audit events, error responses, masking\<close>

text \<open>
  auth.go, stopgap_authorizer.go, audit.go, errors.go and masking.go. A response is what the handler
  hands to \<open>http.ResponseWriter\<close>: a status, the headers it sets and a body. The functions
  \<open>writeError\<close> and its callers are values of this type. \<open>handler\<close> operations carry early returns
  as \<open>Inl response\<close>.
\<close>

subsection \<open>auth.go, stopgap_authorizer.go, audit.go\<close>

definition ScopeReadOwn :: scope where "ScopeReadOwn = ''profile:read:own''"
definition ScopeReadAny :: scope where "ScopeReadAny = ''profile:read:any''"
definition ScopeSearch :: scope where "ScopeSearch = ''profile:search''"
definition ScopeConnectorIdentityLookup :: scope where
  "ScopeConnectorIdentityLookup = ''connector:identity-lookup''"

lemmas scope_defs = ScopeReadOwn_def ScopeReadAny_def ScopeSearch_def ScopeConnectorIdentityLookup_def

record auth_context =
  ac_Sub :: string
  ac_Scope :: scope

definition reason_codes :: "string list" where
  "reason_codes = [''support_ticket'', ''fraud_review'', ''kyc_reverification'', ''legal_hold'']"

definition ReasonCode_Valid :: "string \<Rightarrow> bool" where
  "ReasonCode_Valid r \<longleftrightarrow> r \<in> set reason_codes"

definition StopgapAuthorizer_Authorize ::
  "(string \<rightharpoonup> (string \<rightharpoonup> bool)) \<Rightarrow> string \<Rightarrow> scope \<Rightarrow> string \<Rightarrow> bool" where
  "StopgapAuthorizer_Authorize readOwnAllow sub sc target =
     (if sc = ScopeReadOwn then
        (case readOwnAllow sub of
           None \<Rightarrow> False
         | Some allowed \<Rightarrow> (case allowed target of None \<Rightarrow> False | Some b \<Rightarrow> b))
      else if sc = ScopeReadAny \<or> sc = ScopeSearch then True
      else False)"

datatype audit_kind =
    AuditAuthnFailure | AuditScopeFailure | AuditPolicyDenial | AuditRateLimited
  | AuditCapExceeded | AuditRequestFailed | AuditSuccess | AuditJWKSUnavailable

record audit_event =
  ae_Sub :: string
  ae_Scope :: scope
  ae_Kind :: audit_kind
  ae_RecordIDs :: "string list"
  ae_ReasonCode :: string
  ae_Timestamp :: time

text \<open>
  The stopgap policy denies by default: it allows a read of one's own record exactly when the
  pair is seeded, and it allows no scope outside the three profile scopes.
\<close>
theorem stopgap_default_deny:
  "StopgapAuthorizer_Authorize m sub sc target \<longleftrightarrow>
     sc = ScopeReadAny \<or> sc = ScopeSearch \<or>
     (sc = ScopeReadOwn \<and> (\<exists>allowed. m sub = Some allowed \<and> allowed target = Some True))"
  by (auto simp: StopgapAuthorizer_Authorize_def scope_defs split: option.splits)

subsection \<open>errors.go\<close>

datatype body = NoBody | Json json | Text string

record response =
  rs_status :: int
  rs_headers :: "(string \<times> string) list"
  rs_body :: body

definition json_response :: "int \<Rightarrow> json \<Rightarrow> response" where
  "json_response status b =
     \<lparr>rs_status = status, rs_headers = [(''Content-Type'', ''application/json'')], rs_body = Json b\<rparr>"

definition writeError :: "int \<Rightarrow> string \<Rightarrow> string \<Rightarrow> response" where
  "writeError status code message =
     json_response status (JObj [(''code'', JStr code), (''message'', JStr message)])"

definition writeUnauthorized :: response where
  "writeUnauthorized = writeError 401 ''unauthorized'' ''missing or invalid token''"
definition writeForbidden :: response where
  "writeForbidden = writeError 403 ''forbidden'' ''not authorized for this request''"
definition writeRateLimited :: response where
  "writeRateLimited = writeError 429 ''rate_limited'' ''rate limit exceeded''"
definition writeTouchCapExceeded :: response where
  "writeTouchCapExceeded = writeError 429 ''cumulative_cap_exceeded''
     ''cumulative record-access cap exceeded for the current window''"
definition writeBadRequest :: "string \<Rightarrow> response" where
  "writeBadRequest message = writeError 400 ''bad_request'' message"

definition deadline_response :: response where
  "deadline_response = writeError 504 ''deadline_exceeded'' ''request timed out''"
definition internal_response :: response where
  "internal_response = writeError 500 ''internal_error'' ''internal error''"

definition writeDAOError :: "goerr \<Rightarrow> response" where
  "writeDAOError err =
     (if errors_is err DeadlineExceeded then deadline_response
      else if errors_is err ErrNotFound then writeError 404 ''not_found'' ''no such record''
      else if errors_is err ErrInvalidArgument then writeBadRequest ''invalid request''
      else if errors_is err ErrInvalidQuery then writeBadRequest ''invalid search query''
      else if errors_is err ErrDuplicateUsername \<or> errors_is err ErrInvalidMethod
           \<or> errors_is err ErrInvalidCredential \<or> errors_is err ErrAlreadyExists
        then writeBadRequest ''request could not be completed''
      else internal_response)"

definition writeInternalError :: "goerr \<Rightarrow> response" where
  "writeInternalError err =
     (if errors_is err DeadlineExceeded then deadline_response else internal_response)"

definition WriteServiceUnavailable :: response where
  "WriteServiceUnavailable =
     writeError 503 ''service_unavailable'' ''service temporarily unavailable''"

text \<open>What a client can learn from a failed call: one of these, whatever the error's text.\<close>

definition safe_error_responses :: "response list" where
  "safe_error_responses =
     [deadline_response, writeError 404 ''not_found'' ''no such record'',
      writeBadRequest ''invalid request'', writeBadRequest ''invalid search query'',
      writeBadRequest ''request could not be completed'', internal_response]"

lemma writeError_status [simp]: "rs_status (writeError n c m) = n"
  by (simp add: writeError_def json_response_def)

lemma write_status [simp]:
  "rs_status writeUnauthorized = 401" "rs_status writeForbidden = 403"
  "rs_status writeRateLimited = 429" "rs_status writeTouchCapExceeded = 429"
  "rs_status (writeBadRequest m) = 400" "rs_status deadline_response = 504"
  "rs_status internal_response = 500" "rs_status WriteServiceUnavailable = 503"
  by (simp_all add: writeUnauthorized_def writeForbidden_def writeRateLimited_def
      writeTouchCapExceeded_def writeBadRequest_def deadline_response_def internal_response_def
      WriteServiceUnavailable_def)

lemma response_neq: "rs_status a \<noteq> rs_status b \<Longrightarrow> a \<noteq> b"
  by auto

lemma writeDAOError_safe: "writeDAOError e \<in> set safe_error_responses"
  by (simp add: writeDAOError_def safe_error_responses_def)

lemma writeDAOError_not_200 [simp]: "rs_status (writeDAOError e) \<noteq> 200"
  by (simp add: writeDAOError_def)

lemma writeInternalError_not_200 [simp]: "rs_status (writeInternalError e) \<noteq> 200"
  by (simp add: writeInternalError_def)

text \<open>
  The boundary translation of a DAO error: a client gets 404 exactly for a not-found error, 504
  exactly for an expired deadline, 400 for the other caller errors and a detail-free 500 for every
  error the DAO has no name for; no other response exists, so no error text reaches a client.
\<close>
theorem dao_error_boundary:
  "writeDAOError e \<in> set safe_error_responses \<and>
   (rs_status (writeDAOError e) = 504 \<longleftrightarrow> errors_is e DeadlineExceeded) \<and>
   (rs_status (writeDAOError e) = 404 \<longleftrightarrow> errors_is e ErrNotFound \<and> \<not> errors_is e DeadlineExceeded) \<and>
   (writeDAOError e = internal_response \<longleftrightarrow>
      \<not> errors_is e DeadlineExceeded \<and> \<not> list_ex (errors_is e) dao_sentinels)"
proof -
  have [simp]: "writeError 404 c m \<noteq> internal_response" "writeBadRequest m \<noteq> internal_response"
    "deadline_response \<noteq> internal_response" for c m
    by (rule response_neq, simp)+
  show ?thesis
    by (simp add: writeDAOError_safe, auto simp: writeDAOError_def dao_sentinels_def split: if_splits)
qed

subsection \<open>masking.go\<close>

record search_result_profile =
  sr_ID :: string
  sr_Name :: string
  sr_Phone :: "string option"
  sr_Region :: "string option"

definition maskPhone :: "string option \<Rightarrow> string option" where
  "maskPhone phone =
     (case phone of
        None \<Rightarrow> None
      | Some digits \<Rightarrow>
          if length digits < 4 then Some (replicate (length digits) CHR ''*'')
          else Some (''***-***-'' @ drop (length digits - 4) digits))"

definition toSearchResult :: "user_profile \<Rightarrow> search_result_profile" where
  "toSearchResult p =
     \<lparr>sr_ID = up_ID p, sr_Name = up_Name p, sr_Phone = maskPhone (up_Phone p), sr_Region = up_Region p\<rparr>"

definition search_result_json :: "search_result_profile \<Rightarrow> json" where
  "search_result_json r = JObj ([(''id'', JStr (sr_ID r)), (''name'', JStr (sr_Name r))]
     @ opt_member ''phone'' (sr_Phone r) @ opt_member ''region'' (sr_Region r))"

definition profile_response_json :: "user_profile \<Rightarrow> json" where
  "profile_response_json p = JObj ([(''id'', JStr (up_ID p)), (''name'', JStr (up_Name p))]
     @ opt_member ''phone'' (up_Phone p) @ opt_member ''street_address'' (up_StreetAddress p)
     @ opt_member ''locality'' (up_Locality p) @ opt_member ''region'' (up_Region p)
     @ opt_member ''postal_code'' (up_PostalCode p) @ opt_member ''country'' (up_Country p))"

text \<open>Two profiles a search result must not tell apart: same id, name, region and the same phone up
  to everything but its last four digits.\<close>

definition phone_view :: "string option \<Rightarrow> (nat + string) option" where
  "phone_view ph = (case ph of None \<Rightarrow> None
     | Some d \<Rightarrow> if length d < 4 then Some (Inl (length d)) else Some (Inr (drop (length d - 4) d)))"

definition same_public :: "user_profile \<Rightarrow> user_profile \<Rightarrow> bool" where
  "same_public p q \<longleftrightarrow> up_ID p = up_ID q \<and> up_Name p = up_Name q \<and> up_Region p = up_Region q
     \<and> phone_view (up_Phone p) = phone_view (up_Phone q)"

lemma replicate_star_mask: "replicate n CHR ''*'' \<noteq> ''***-***-'' @ x"
proof
  assume "replicate n CHR ''*'' = ''***-***-'' @ x"
  then have "CHR ''-'' \<in> set (replicate n CHR ''*'')" by (simp only:) simp
  then show False by (simp split: if_splits)
qed

lemma maskPhone_eq_iff: "maskPhone a = maskPhone b \<longleftrightarrow> phone_view a = phone_view b"
  using replicate_star_mask replicate_star_mask [THEN not_sym]
  by (auto simp: maskPhone_def phone_view_def split: option.splits)

text \<open>
  A search result shows of a profile its id, its name, its region and the last four digits of
  the phone (only its length when shorter), and nothing else: two profiles get the same result
  exactly when they agree on those.
\<close>
theorem masking_exact: "toSearchResult p = toSearchResult q \<longleftrightarrow> same_public p q"
  by (auto simp: toSearchResult_def same_public_def maskPhone_eq_iff)

subsection \<open>Handlers as operations\<close>

text \<open>Either way out of a handler is the response it wrote.\<close>

definition run_handler :: "('s, response, response) op \<Rightarrow> 's \<Rightarrow> response \<times> 's" where
  "run_handler m s = (case m s of (Inl r, s') \<Rightarrow> (r, s') | (Inr r, s') \<Rightarrow> (r, s'))"

text \<open>``if err != nil'' then write the error and return.\<close>

definition or_write :: "(goerr \<Rightarrow> response) \<Rightarrow> ('s, goerr, 'a) op \<Rightarrow> ('s, response, 'a) op" where
  "or_write f m = map_errS f m"

definition execS :: "('s \<Rightarrow> 's) \<Rightarrow> ('s, 'e, unit) op" where
  "execS f s = (Inr (), f s)"

lemma execS_apply [simp]: "execS f s = (Inr (), f s)" by (simp add: execS_def)

definition denyS :: "('s \<Rightarrow> 's) \<Rightarrow> response \<Rightarrow> ('s, response, 'a) op" where
  "denyS f r s = (Inl r, f s)"

lemma denyS_apply [simp]: "denyS f r s = (Inl r, f s)" by (simp add: denyS_def)

end
