(* ===== verification/Base64.thy ===== *)
theory Base64
  imports GoStrings
begin

section \<open>encoding/base64, unpadded\<close>

text \<open>
  \<open>RawURLEncoding\<close> and \<open>RawStdEncoding\<close> differ in their alphabet only. The decoder is the
  library's: carriage returns and newlines are skipped, any other byte outside the alphabet is an
  error, a last group of one digit is an error, and the unused low bits of a short last group are
  ignored (neither encoding is \<open>Strict()\<close>).
\<close>

definition std_alphabet :: string where
  "std_alphabet = ''ABCDEFGHIJKLMNOPQRSTUVWXYZabcdefghijklmnopqrstuvwxyz0123456789+/''"

definition url_alphabet :: string where
  "url_alphabet = ''ABCDEFGHIJKLMNOPQRSTUVWXYZabcdefghijklmnopqrstuvwxyz0123456789-_''"

fun b64_groups :: "nat list \<Rightarrow> nat list" where
  "b64_groups (a # b # c # r) =
     a div 4 # ((a mod 4) * 16 + b div 16) # ((b mod 16) * 4 + c div 64) # c mod 64 # b64_groups r"
| "b64_groups [a, b] = [a div 4, (a mod 4) * 16 + b div 16, (b mod 16) * 4]"
| "b64_groups [a] = [a div 4, (a mod 4) * 16]"
| "b64_groups [] = []"

fun b64_ungroup :: "nat list \<Rightarrow> nat list option" where
  "b64_ungroup (w # x # y # z # r) =
     (case b64_ungroup r of
        None \<Rightarrow> None
      | Some bs \<Rightarrow>
          Some ((w * 4 + x div 16) # ((x mod 16) * 16 + y div 4) # ((y mod 4) * 64 + z) # bs))"
| "b64_ungroup [w, x, y] = Some [w * 4 + x div 16, (x mod 16) * 16 + y div 4]"
| "b64_ungroup [w, x] = Some [w * 4 + x div 16]"
| "b64_ungroup [w] = None"
| "b64_ungroup [] = Some []"

fun index_of :: "char \<Rightarrow> string \<Rightarrow> nat option" where
  "index_of c [] = None"
| "index_of c (d # s) = (if c = d then Some 0 else map_option Suc (index_of c s))"

fun map_all :: "('a \<Rightarrow> 'b option) \<Rightarrow> 'a list \<Rightarrow> 'b list option" where
  "map_all f [] = Some []"
| "map_all f (x # xs) =
     (case f x of None \<Rightarrow> None
      | Some y \<Rightarrow> (case map_all f xs of None \<Rightarrow> None | Some ys \<Rightarrow> Some (y # ys)))"

definition b64_encode :: "string \<Rightarrow> string \<Rightarrow> string" where
  "b64_encode alph s = map (\<lambda>d. alph ! d) (b64_groups (map byte s))"

definition b64_decode :: "string \<Rightarrow> string \<Rightarrow> string option" where
  "b64_decode alph s =
     (case map_all (\<lambda>c. index_of c alph) (filter (\<lambda>c. byte c \<noteq> 13 \<and> byte c \<noteq> 10) s) of
        None \<Rightarrow> None
      | Some ds \<Rightarrow> map_option (map char_of) (b64_ungroup ds))"

subsection \<open>Round trip\<close>

lemma b64_groups_less: "\<forall>n \<in> set bs. n < 256 \<Longrightarrow> d \<in> set (b64_groups bs) \<Longrightarrow> d < 64"
  by (induction bs rule: b64_groups.induct) auto

lemma b64_ungroup_groups: "\<forall>n \<in> set bs. n < 256 \<Longrightarrow> b64_ungroup (b64_groups bs) = Some bs"
  by (induction bs rule: b64_groups.induct) (auto simp: div_mult2_eq [symmetric])

definition good_alphabet :: "string \<Rightarrow> bool" where
  "good_alphabet alph \<longleftrightarrow> length alph = 64 \<and> distinct alph \<and> list_all visible alph"

lemma good_alphabets [simp]: "good_alphabet std_alphabet" "good_alphabet url_alphabet"
  by (simp_all add: good_alphabet_def std_alphabet_def url_alphabet_def visible_def byte_def)

lemma index_of_nth: "distinct s \<Longrightarrow> i < length s \<Longrightarrow> index_of (s ! i) s = Some i"
proof (induction s arbitrary: i)
  case Nil
  then show ?case by simp
next
  case (Cons c s)
  then show ?case by (cases i) (auto simp: nth_mem)
qed

lemma map_all_map: "(\<And>x. x \<in> set xs \<Longrightarrow> f (g x) = Some x) \<Longrightarrow> map_all f (map g xs) = Some xs"
  by (induction xs) auto

lemma set_b64_encode:
  assumes "good_alphabet alph" shows "set (b64_encode alph s) \<subseteq> set alph"
proof -
  have "alph ! d \<in> set alph" if "d \<in> set (b64_groups (map byte s))" for d
    using that b64_groups_less [of "map byte s" d] assms by (auto simp: good_alphabet_def)
  then show ?thesis by (auto simp: b64_encode_def)
qed

theorem b64_decode_encode:
  assumes g: "good_alphabet alph"
  shows "b64_decode alph (b64_encode alph s) = Some s"
proof -
  let ?bs = "map byte s"
  have less: "\<forall>n \<in> set ?bs. n < 256" by simp
  have vis: "visible c" if "c \<in> set (b64_encode alph s)" for c
    using that set_b64_encode [OF g, of s] g by (auto simp: good_alphabet_def list_all_iff)
  have "filter (\<lambda>c. byte c \<noteq> 13 \<and> byte c \<noteq> 10) (b64_encode alph s) = b64_encode alph s"
    by (rule filter_True) (use vis in \<open>force simp: visible_def\<close>)
  moreover have "map_all (\<lambda>c. index_of c alph) (b64_encode alph s) = Some (b64_groups ?bs)"
    unfolding b64_encode_def
    by (rule map_all_map) (use g b64_groups_less [OF less] in \<open>auto simp: good_alphabet_def intro: index_of_nth\<close>)
  ultimately show ?thesis
    by (simp add: b64_decode_def b64_ungroup_groups [OF less] comp_def)
qed

lemma b64_encode_free:
  "good_alphabet alph \<Longrightarrow> c \<notin> set alph \<Longrightarrow> c \<notin> set (b64_encode alph s)"
  using set_b64_encode by blast

lemma dollar_comma_not_std [simp]: "CHR ''$'' \<notin> set std_alphabet" "CHR '','' \<notin> set std_alphabet"
  by (simp_all add: std_alphabet_def)

lemma length_b64_groups: "b64_groups bs = [] \<longleftrightarrow> bs = []"
  by (cases bs rule: b64_groups.cases) auto

lemma b64_encode_Nil_iff [simp]: "b64_encode alph s = [] \<longleftrightarrow> s = []"
  by (simp add: b64_encode_def length_b64_groups)

end
