(* ===== verification/Cursor.thy ===== *)
theory Cursor
  imports GoErrors Base64
begin

section \<open>internal/api/cursor.go: the opaque page cursor\<close>

text \<open>
  \<open>encodeCursor\<close> and \<open>decodeCursor\<close> over the model of \<open>base64.RawURLEncoding\<close> and \<open>strconv\<close>.
  An offset is a Go \<open>int\<close> (64 bits): \<open>atoi\<close> refuses a number outside its range.
\<close>

definition cursorPrefix :: string where "cursorPrefix = ''v1:''"

definition encodeCursor :: "int \<Rightarrow> string" where
  "encodeCursor offset = b64_encode url_alphabet (cursorPrefix @ itoa offset)"

definition decodeCursor :: "string \<Rightarrow> goerr + int" where
  "decodeCursor cursor =
     (if cursor = [] then Inr 0
      else case b64_decode url_alphabet cursor of
        None \<Rightarrow> Inl (Wrap ''api: malformed cursor: '' (ErrText ''illegal base64 data''))
      | Some s \<Rightarrow>
          if \<not> has_prefix s cursorPrefix
          then Inl (ErrText ''api: malformed cursor: missing version prefix'')
          else case atoi (trim_prefix s cursorPrefix) of
            None \<Rightarrow> Inl (Wrap ''api: malformed cursor: '' (ErrText ''strconv.Atoi''))
          | Some n \<Rightarrow>
              if n < 0 then Inl (ErrText ''api: malformed cursor: negative offset'') else Inr n)"

lemma encodeCursor_nonempty: "encodeCursor n \<noteq> []"
  by (simp add: encodeCursor_def cursorPrefix_def)

text \<open>
  A cursor the API hands out is read back as the offset it was made from, and whatever cursor
  a caller sends, a decoded offset is never negative.
\<close>
theorem cursor_round_trip:
  assumes "0 \<le> n" and "n < 2 ^ 63"
  shows "decodeCursor (encodeCursor n) = Inr n \<and> (decodeCursor c = Inr m \<longrightarrow> 0 \<le> m)"
proof
  have "b64_decode url_alphabet (encodeCursor n) = Some (cursorPrefix @ itoa n)"
    by (simp add: encodeCursor_def b64_decode_encode)
  moreover have "atoi (itoa n) = Some n" using assms by (intro atoi_itoa) auto
  ultimately show "decodeCursor (encodeCursor n) = Inr n"
    using assms encodeCursor_nonempty [of n] by (simp add: decodeCursor_def)
  show "decodeCursor c = Inr m \<longrightarrow> 0 \<le> m"
    by (auto simp: decodeCursor_def split: if_splits option.splits)
qed

theorem cursor_round_trip_witness:
  "decodeCursor (encodeCursor 9223372036854775807) = Inr 9223372036854775807"
  using cursor_round_trip [of 9223372036854775807] by simp

end
