(* ===== verification/Handlers.thy ===== *)
theory Handlers
  imports ApiCore Cursor
begin

section \<open>internal/api/handlers.go: search and get-profile\<close>

text \<open>
  \<open>deps\<close> is the \<open>Deps\<close> struct: the collaborators' methods as operations over an arbitrary state
  \<open>'s\<close>, so a theorem about a handler holds for every repository, policy, limiter and audit sink.
  \<open>search_handler\<close> and \<open>get_profile_handler\<close> are the two handler functions, check by check in the
  order of the code; \<open>deferred\<close> is the \<open>defer tr.release(ctx)\<close>. A panic is not modelled.
\<close>

record request =
  hr_ctx :: ctx
  hr_auth :: "auth_context option" \<comment> \<open>\<open>AuthContextFromContext\<close>\<close>
  hr_body :: "req_body option" \<comment> \<open>\<open>None\<close> is a nil body\<close>
  hr_path :: "string \<Rightarrow> string" \<comment> \<open>\<open>r.PathValue\<close>\<close>
  hr_query :: "string \<Rightarrow> string" \<comment> \<open>\<open>r.URL.Query().Get\<close>\<close>
  hr_header :: "string \<Rightarrow> string" \<comment> \<open>\<open>r.Header.Get\<close>\<close>
  hr_remote :: string \<comment> \<open>\<open>r.RemoteAddr\<close>\<close>

record 's deps =
  d_search :: "ctx \<Rightarrow> profile_query \<Rightarrow> ('s, goerr, user_profile list \<times> int) op"
  d_get :: "ctx \<Rightarrow> string \<Rightarrow> ('s, goerr, user_profile) op"
  d_authorize :: "ctx \<Rightarrow> string \<Rightarrow> scope \<Rightarrow> string \<Rightarrow> ('s, goerr, bool) op"
  d_allow :: "ctx \<Rightarrow> string \<Rightarrow> scope \<Rightarrow> int \<Rightarrow> ('s, goerr, bool) op"
  d_touch :: "'s touch_iface"
  d_log :: "audit_event \<Rightarrow> 's \<Rightarrow> 's"
  d_clock :: "'s \<Rightarrow> time"

definition defaultPageSize :: int where "defaultPageSize = 20"
definition maxPageSize :: int where "maxPageSize = 50"
definition readRateLimit :: int where "readRateLimit = 60"
definition searchRateLimit :: int where "searchRateLimit = 10"
definition TouchCapPerWindow :: int where "TouchCapPerWindow = 2000"
definition TouchCapWindow :: duration where "TouchCapWindow = 24 * hour"

record search_request =
  sq_Name :: "string option"
  sq_Phone :: "string option"
  sq_Region :: "string option"
  sq_Country :: "string option"
  sq_Cursor :: string
  sq_PageSize :: int

definition zero_search_request :: search_request where
  "zero_search_request = \<lparr>sq_Name = None, sq_Phone = None, sq_Region = None, sq_Country = None,
     sq_Cursor = [], sq_PageSize = 0\<rparr>"

definition search_request_fields :: "search_request field_decoder list" where
  "search_request_fields =
     [(''name'', dec_ptr (\<lambda>v r. r\<lparr>sq_Name := v\<rparr>)), (''phone'', dec_ptr (\<lambda>v r. r\<lparr>sq_Phone := v\<rparr>)),
      (''region'', dec_ptr (\<lambda>v r. r\<lparr>sq_Region := v\<rparr>)), (''country'', dec_ptr (\<lambda>v r. r\<lparr>sq_Country := v\<rparr>)),
      (''cursor'', dec_str (\<lambda>v r. r\<lparr>sq_Cursor := v\<rparr>)), (''page_size'', dec_int (\<lambda>v r. r\<lparr>sq_PageSize := v\<rparr>))]"

definition audit ::
  "'s deps \<Rightarrow> string \<Rightarrow> scope \<Rightarrow> audit_kind \<Rightarrow> string list \<Rightarrow> string \<Rightarrow> 's \<Rightarrow> 's" where
  "audit d sub sc kind recordIDs reasonCode s =
     d_log d \<lparr>ae_Sub = sub, ae_Scope = sc, ae_Kind = kind, ae_RecordIDs = recordIDs,
              ae_ReasonCode = reasonCode, ae_Timestamp = d_clock d s\<rparr> s"

definition search_response_json :: "search_result_profile list \<Rightarrow> int \<Rightarrow> string \<Rightarrow> json" where
  "search_response_json results n_total nextCursor =
     JObj ([(''results'', JArr (map search_result_json results)), (''total'', JNum (itoa n_total))]
       @ str_member ''next_cursor'' nextCursor)"

text \<open>The request-shape checks: body, at least one filter, cursor, page size.\<close>

definition parse_search :: "request \<Rightarrow> response + (profile_query \<times> int \<times> int)" where
  "parse_search r =
     (case (case hr_body r of
              None \<Rightarrow> Some zero_search_request
            | Some b \<Rightarrow> decode_struct True search_request_fields zero_search_request b) of
        None \<Rightarrow> Inl (writeBadRequest ''malformed request body or unrecognized field'')
      | Some req \<Rightarrow>
          if sq_Name req = None \<and> sq_Phone req = None \<and> sq_Region req = None \<and> sq_Country req = None
          then Inl (writeBadRequest ''at least one search filter is required'')
          else case decodeCursor (sq_Cursor req) of
            Inl _ \<Rightarrow> Inl (writeBadRequest ''malformed cursor'')
          | Inr offset \<Rightarrow>
              (let pageSize = (if sq_PageSize req \<le> 0 then defaultPageSize else sq_PageSize req) in
               if maxPageSize < pageSize
               then Inl (writeBadRequest ''page_size exceeds the maximum of 50'')
               else Inr (\<lparr>pq_Name = sq_Name req, pq_Phone = sq_Phone req, pq_Region = sq_Region req,
                          pq_Country = sq_Country req, pq_Limit = pageSize, pq_Offset = offset\<rparr>,
                         pageSize, offset)))"

text \<open>What runs under the deferred release.\<close>

definition search_body ::
  "'s deps \<Rightarrow> ctx \<Rightarrow> auth_context \<Rightarrow> profile_query \<Rightarrow> int \<Rightarrow> ('s \<times> touch_reservation option, response, response) op" where
  "search_body d cx ac q offset =
     (let deny = (\<lambda>kind resp. denyS (apfst (audit d (ac_Sub ac) (ac_Scope ac) kind [] [])) resp) in
      bindS (or_write writeInternalError (lift_tr (d_authorize d cx (ac_Sub ac) (ac_Scope ac) []))) (\<lambda>allowed.
      if \<not> allowed then deny AuditPolicyDenial writeForbidden
      else catchS (lift_tr (d_search d cx q))
        (\<lambda>err. deny AuditRequestFailed (writeDAOError err))
        (\<lambda>(results, n_total).
          let ids = map up_ID results; masked = map toSearchResult results in
          bindS (or_write writeInternalError (tr_settle cx (d_touch d) ids)) (\<lambda>_.
          bindS (execS (apfst (audit d (ac_Sub ac) (ac_Scope ac) AuditSuccess ids []))) (\<lambda>_.
          retS (json_response 200 (search_response_json masked n_total
            (if offset + int (length results) < n_total
             then encodeCursor (offset + int (length results)) else []))))))))"

definition search_op :: "'s deps \<Rightarrow> request \<Rightarrow> ('s, response, response) op" where
  "search_op d r =
     (let cx = hr_ctx r in
      case hr_auth r of
        None \<Rightarrow> denyS (audit d [] [] AuditAuthnFailure [] []) writeUnauthorized
      | Some ac \<Rightarrow>
          (let deny = (\<lambda>kind resp. denyS (audit d (ac_Sub ac) (ac_Scope ac) kind [] []) resp) in
           if ac_Scope ac \<noteq> ScopeSearch then deny AuditScopeFailure writeForbidden
           else bindS (liftS (parse_search r)) (\<lambda>(q, pageSize, offset).
             bindS (or_write writeInternalError (d_allow d cx (ac_Sub ac) ScopeSearch searchRateLimit)) (\<lambda>allow.
             if \<not> allow then deny AuditRateLimited writeRateLimited
             else bindS (or_write writeInternalError (reserveTouches cx (d_touch d) (ac_Sub ac) pageSize)) (\<lambda>(tr, reserved).
             if \<not> reserved then deny AuditCapExceeded writeTouchCapExceeded
             else deferred (d_touch d) tr (search_body d cx ac q offset))))))"

definition search_handler :: "'s deps \<Rightarrow> request \<Rightarrow> 's \<Rightarrow> response \<times> 's" where
  "search_handler d r = run_handler (search_op d r)"

definition get_body ::
  "'s deps \<Rightarrow> ctx \<Rightarrow> auth_context \<Rightarrow> string \<Rightarrow> string \<Rightarrow> ('s \<times> touch_reservation option, response, response) op" where
  "get_body d cx ac i reasonCode =
     (let deny = (\<lambda>kind resp. denyS (apfst (audit d (ac_Sub ac) (ac_Scope ac) kind [i] reasonCode)) resp) in
      bindS (or_write writeInternalError (lift_tr (d_authorize d cx (ac_Sub ac) (ac_Scope ac) i))) (\<lambda>allowed.
      if \<not> allowed then deny AuditPolicyDenial writeForbidden
      else catchS (lift_tr (d_get d cx i))
        (\<lambda>err. deny AuditRequestFailed (writeDAOError err))
        (\<lambda>p. bindS (or_write writeInternalError (tr_settle cx (d_touch d) [up_ID p])) (\<lambda>_.
             bindS (execS (apfst (audit d (ac_Sub ac) (ac_Scope ac) AuditSuccess [up_ID p] reasonCode))) (\<lambda>_.
             retS (json_response 200 (profile_response_json p)))))))"

definition get_profile_op :: "'s deps \<Rightarrow> request \<Rightarrow> ('s, response, response) op" where
  "get_profile_op d r =
     (let cx = hr_ctx r; i = hr_path r ''id'' in
      case hr_auth r of
        None \<Rightarrow> denyS (audit d [] [] AuditAuthnFailure [] []) writeUnauthorized
      | Some ac \<Rightarrow>
          if ac_Scope ac \<noteq> ScopeReadOwn \<and> ac_Scope ac \<noteq> ScopeReadAny
          then denyS (audit d (ac_Sub ac) (ac_Scope ac) AuditScopeFailure [] []) writeForbidden
          else if trim_space i = [] then failS (writeBadRequest ''id is required'')
          else let reasonCode = (if ac_Scope ac = ScopeReadAny then hr_query r ''reason_code'' else []);
                   deny = (\<lambda>kind resp. denyS (audit d (ac_Sub ac) (ac_Scope ac) kind [] reasonCode) resp) in
            if ac_Scope ac = ScopeReadAny \<and> \<not> ReasonCode_Valid reasonCode
            then failS (writeBadRequest ''reason_code is required for profile:read:any and must be one of the closed enum values'')
            else bindS (or_write writeInternalError (d_allow d cx (ac_Sub ac) (ac_Scope ac) readRateLimit)) (\<lambda>allow.
              if \<not> allow then deny AuditRateLimited writeRateLimited
              else bindS (if ac_Scope ac = ScopeReadAny
                          then or_write writeInternalError (reserveTouches cx (d_touch d) (ac_Sub ac) 1)
                          else retS (None, True)) (\<lambda>(tr, reserved).
                if \<not> reserved then deny AuditCapExceeded writeTouchCapExceeded
                else deferred (d_touch d) tr (get_body d cx ac i reasonCode))))"

definition get_profile_handler :: "'s deps \<Rightarrow> request \<Rightarrow> 's \<Rightarrow> response \<times> 's" where
  "get_profile_handler d r = run_handler (get_profile_op d r)"

subsection \<open>What a 200 answer means\<close>

text \<open>Every early return of an operation satisfies \<open>Q\<close>.\<close>

definition exits :: "(response \<Rightarrow> bool) \<Rightarrow> ('s, response, 'a) op \<Rightarrow> bool" where
  "exits Q m \<longleftrightarrow> (\<forall>s r s'. m s = (Inl r, s') \<longrightarrow> Q r)"

named_theorems exits_rules

lemma exits_bindS [exits_rules]: "exits Q m \<Longrightarrow> (\<And>x. exits Q (k x)) \<Longrightarrow> exits Q (bindS m k)"
  by (fastforce simp: exits_def bindS_eq_Inl)

lemma exits_if [exits_rules]: "exits Q m \<Longrightarrow> exits Q n \<Longrightarrow> exits Q (if b then m else n)"
  by simp

lemma exits_basic [exits_rules]:
  "exits Q (retS x)" "exits Q (execS f)" "Q r \<Longrightarrow> exits Q (denyS f r)" "Q r \<Longrightarrow> exits Q (failS r)"
  by (auto simp: exits_def)

lemma exits_or_write [exits_rules]: "(\<And>e. Q (f e)) \<Longrightarrow> exits Q (or_write f m)"
  by (auto simp: exits_def or_write_def map_errS_eq_Inl)

lemma exits_deferred [exits_rules]: "exits Q m \<Longrightarrow> exits Q (deferred tc tr m)"
  by (fastforce simp: exits_def deferred_def split: prod.splits)

lemma exits_parse_search [exits_rules]:
  "(\<And>m. Q (writeBadRequest m)) \<Longrightarrow> exits Q (liftS (parse_search r))"
  by (auto simp: exits_def parse_search_def Let_def split: option.splits sum.splits if_splits)

lemma exits_pair [exits_rules]: "(\<And>x y. exits Q (k x y)) \<Longrightarrow> exits Q (case p of (x, y) \<Rightarrow> k x y)"
  by (cases p) simp

lemma exits_opt [exits_rules]:
  "exits Q m \<Longrightarrow> (\<And>x. exits Q (k x)) \<Longrightarrow> exits Q (case p of None \<Rightarrow> m | Some x \<Rightarrow> k x)"
  by (cases p) simp_all

lemma exits_catchS [exits_rules]:
  "(\<And>e. exits Q (h e)) \<Longrightarrow> (\<And>x. exits Q (k x)) \<Longrightarrow> exits Q (catchS m h k)"
  by (fastforce simp: exits_def catchS_eq)

text \<open>What a handler of this package may write before its success answer.\<close>

definition refusals :: "response list" where
  "refusals = writeUnauthorized # writeForbidden # writeRateLimited # writeTouchCapExceeded
     # safe_error_responses"

definition refusal :: "response \<Rightarrow> bool" where
  "refusal r \<longleftrightarrow> r \<in> set refusals \<or> (\<exists>m. r = writeBadRequest m)"

lemma refusal_simps [simp]:
  "refusal writeUnauthorized" "refusal writeForbidden" "refusal writeRateLimited"
  "refusal writeTouchCapExceeded" "refusal (writeBadRequest m)" "refusal (writeDAOError e)"
  "refusal (writeInternalError e)"
  using writeDAOError_safe [of e]
  by (auto simp: refusal_def refusals_def writeInternalError_def safe_error_responses_def)

lemma refusal_not_200: "refusal r \<Longrightarrow> rs_status r \<noteq> 200"
  by (auto simp: refusal_def refusals_def safe_error_responses_def)

lemma refusal_403: "refusal r \<Longrightarrow> rs_status r = 403 \<Longrightarrow> r = writeForbidden"
  by (auto simp: refusal_def refusals_def safe_error_responses_def)

lemma exits_search_body [exits_rules]: "exits refusal (search_body d cx ac q off)"
  unfolding search_body_def Let_def by (intro exits_rules) (auto intro!: exits_rules)

lemma exits_search: "exits refusal (search_op d r)"
  unfolding search_op_def Let_def by (intro exits_rules) (auto intro!: exits_rules)

lemma exits_get_body [exits_rules]: "exits refusal (get_body d cx ac i rc)"
  unfolding get_body_def Let_def by (intro exits_rules) (auto intro!: exits_rules)

lemma exits_get: "exits refusal (get_profile_op d r)"
  unfolding get_profile_op_def Let_def by (intro exits_rules) (auto intro!: exits_rules)

lemma run_handler_exits:
  "exits refusal m \<Longrightarrow> run_handler m s = (resp, s') \<Longrightarrow> m s = (Inr resp, s') \<or> refusal resp"
  by (auto simp: exits_def run_handler_def split: prod.splits sum.splits)

lemma run_handler_200:
  "exits refusal m \<Longrightarrow> run_handler m s = (resp, s') \<Longrightarrow> rs_status resp = 200 \<Longrightarrow> m s = (Inr resp, s')"
  by (metis run_handler_exits refusal_not_200)

lemma parse_search_page:
  "parse_search r = Inr (q, n, off) \<Longrightarrow> 1 \<le> n \<and> n \<le> maxPageSize \<and> pq_Limit q = n \<and> pq_Offset q = off \<and> 0 \<le> off"
  by (auto simp: parse_search_def defaultPageSize_def maxPageSize_def Let_def decodeCursor_def
     split: option.splits sum.splits if_splits)


lemmas inv_simps = bindS_eq_Inr or_write_def map_errS_eq_Inr

lemma deferred_Inr:
  "deferred tc tr m s = (Inr x, s') \<longleftrightarrow> (\<exists>t tr'. m (s, tr) = (Inr x, (t, tr')) \<and> s' = tr_release tc tr' t)"
  by (auto simp: deferred_def split: prod.splits)

lemma reserve_Inr: "reserveTouches cx tc sub n s = (Inr (tr, True), s') \<longleftrightarrow>
  ti_Reserve tc cx sub n s = (Inr True, s') \<and> tr = Some \<lparr>tr_sub = sub, tr_reserved = n, tr_done = False\<rparr>"
  by (auto simp: reserveTouches_def bindS_eq_Inr split: if_splits)

lemma lift_tr_Inr: "lift_tr m st = (Inr x, st') \<longleftrightarrow> m (fst st) = (Inr x, fst st') \<and> snd st' = snd st"
  by (cases st; cases st') (auto simp: lift_tr_def split: prod.splits)

lemma tr_settle_fresh: "tr_settle cx tc ids (s, Some \<lparr>tr_sub = sub, tr_reserved = n, tr_done = False\<rparr>) = (Inr (), st')
  \<longleftrightarrow> (\<exists>s'. ti_Settle tc cx sub ids n s = (Inr (), s') \<and> st' = (s', Some \<lparr>tr_sub = sub, tr_reserved = n, tr_done = True\<rparr>))"
  by (auto simp: tr_settle_def Let_def split: prod.splits)

lemma search_body_200:
  assumes "search_body d cx ac q off (s, Some \<lparr>tr_sub = sub, tr_reserved = n, tr_done = False\<rparr>) = (Inr resp, st)"
  shows "\<exists>s3 s4 s5 results n_total.
     d_authorize d cx (ac_Sub ac) (ac_Scope ac) [] s = (Inr True, s3)
   \<and> d_search d cx q s3 = (Inr (results, n_total), s4)
   \<and> ti_Settle (d_touch d) cx sub (map up_ID results) n s4 = (Inr (), s5)
   \<and> st = (audit d (ac_Sub ac) (ac_Scope ac) AuditSuccess (map up_ID results) [] s5, Some \<lparr>tr_sub = sub, tr_reserved = n, tr_done = True\<rparr>)
   \<and> resp = json_response 200 (search_response_json (map toSearchResult results) n_total
       (if off + int (length results) < n_total then encodeCursor (off + int (length results)) else []))"
  using assms
  by (fastforce simp: search_body_def Let_def inv_simps lift_tr_Inr catchS_eq tr_settle_fresh split: if_splits)


lemma get_body_200:
  assumes "get_body d cx ac i rc (s, tr) = (Inr resp, st)"
    and "tr = None \<or> tr = Some \<lparr>tr_sub = sub, tr_reserved = n, tr_done = False\<rparr>"
  shows "\<exists>s3 s4 s5 p.
     d_authorize d cx (ac_Sub ac) (ac_Scope ac) i s = (Inr True, s3)
   \<and> d_get d cx i s3 = (Inr p, s4)
   \<and> (if tr = None then s5 = s4 else ti_Settle (d_touch d) cx sub [up_ID p] n s4 = (Inr (), s5))
   \<and> st = (audit d (ac_Sub ac) (ac_Scope ac) AuditSuccess [up_ID p] rc s5, map_option (tr_done_update (\<lambda>_. True)) tr)
   \<and> resp = json_response 200 (profile_response_json p)"
proof -
  have none: "tr_settle cx tc ids (s, None) = (Inr (), st') \<longleftrightarrow> st' = (s, None)" for s st' ids and tc :: "'a touch_iface"
    by (auto simp: tr_settle_def)
  show ?thesis
    using assms
    by (elim disjE) (fastforce simp: get_body_def Let_def inv_simps lift_tr_Inr catchS_eq tr_settle_fresh none split: if_splits)+
qed

lemma release_done: "tr_release tc (Some \<lparr>tr_sub = sub, tr_reserved = n, tr_done = True\<rparr>) s = s"
  by (simp add: tr_release_def)

lemma release_None [simp]: "tr_release tc None s = s"
  by (simp add: tr_release_def)

lemma search_op_200:
  assumes "search_op d r s = (Inr resp, s')"
  obtains ac q n off s1 s2 st where
    "hr_auth r = Some ac" "ac_Scope ac = ScopeSearch" "parse_search r = Inr (q, n, off)"
    "d_allow d (hr_ctx r) (ac_Sub ac) ScopeSearch searchRateLimit s = (Inr True, s1)"
    "ti_Reserve (d_touch d) (hr_ctx r) (ac_Sub ac) n s1 = (Inr True, s2)"
    "search_body d (hr_ctx r) ac q off
       (s2, Some \<lparr>tr_sub = ac_Sub ac, tr_reserved = n, tr_done = False\<rparr>) = (Inr resp, st)"
    "s' = tr_release (d_touch d) (snd st) (fst st)"
  using assms
  by (fastforce simp: search_op_def Let_def inv_simps deferred_Inr reserve_Inr
      split: option.splits if_splits prod.splits)

lemma search_op_Inr: "search_op d r s = (Inr resp, s') \<Longrightarrow> rs_status resp = 200"
  by (erule search_op_200, drule search_body_200) (auto simp: json_response_def)

lemma get_op_200:
  assumes "get_profile_op d r s = (Inr resp, s')"
  obtains ac rc s1 s2 st tr where
    "hr_auth r = Some ac" "trim_space (hr_path r ''id'') \<noteq> []"
      "ac_Scope ac = ScopeReadOwn \<and> rc = [] \<or>
       ac_Scope ac = ScopeReadAny \<and> rc = hr_query r ''reason_code'' \<and> ReasonCode_Valid rc"
    "d_allow d (hr_ctx r) (ac_Sub ac) (ac_Scope ac) readRateLimit s = (Inr True, s1)"
    "if ac_Scope ac = ScopeReadAny
      then ti_Reserve (d_touch d) (hr_ctx r) (ac_Sub ac) 1 s1 = (Inr True, s2)
        \<and> tr = Some \<lparr>tr_sub = ac_Sub ac, tr_reserved = 1, tr_done = False\<rparr>
      else s2 = s1 \<and> tr = None"
    "get_body d (hr_ctx r) ac (hr_path r ''id'') rc (s2, tr) = (Inr resp, st)"
    "s' = tr_release (d_touch d) (snd st) (fst st)"
proof -
  obtain ac where ac: "hr_auth r = Some ac"
    using assms by (auto simp: get_profile_op_def Let_def split: option.splits)
  have id: "trim_space (hr_path r ''id'') \<noteq> []" and sc: "ac_Scope ac = ScopeReadOwn \<or> ac_Scope ac = ScopeReadAny"
    using assms ac by (auto simp: get_profile_op_def Let_def split: if_splits)
  have own: "ScopeReadOwn \<noteq> ScopeReadAny" by (simp add: scope_defs)
  show ?thesis
  proof (cases "ac_Scope ac = ScopeReadAny")
    case True
    have rc: "ReasonCode_Valid (hr_query r ''reason_code'')"
      using assms ac id True own by (auto simp: get_profile_op_def Let_def split: if_splits)
    obtain s1 s2 st where *: "d_allow d (hr_ctx r) (ac_Sub ac) ScopeReadAny readRateLimit s = (Inr True, s1)"
      "ti_Reserve (d_touch d) (hr_ctx r) (ac_Sub ac) 1 s1 = (Inr True, s2)"
      "get_body d (hr_ctx r) ac (hr_path r ''id'') (hr_query r ''reason_code'')
         (s2, Some \<lparr>tr_sub = ac_Sub ac, tr_reserved = 1, tr_done = False\<rparr>) = (Inr resp, st)"
      "s' = tr_release (d_touch d) (snd st) (fst st)"
      using assms ac id True rc own
      by (fastforce simp: get_profile_op_def Let_def inv_simps deferred_Inr reserve_Inr split: if_splits prod.splits)
    show ?thesis
      by (rule that [OF ac id, of "hr_query r ''reason_code''"]) (use * True rc in simp_all)
  next
    case False
    then have o: "ac_Scope ac = ScopeReadOwn" using sc by simp
    obtain s1 st where *: "d_allow d (hr_ctx r) (ac_Sub ac) ScopeReadOwn readRateLimit s = (Inr True, s1)"
      "get_body d (hr_ctx r) ac (hr_path r ''id'') [] (s1, None) = (Inr resp, st)"
      "s' = tr_release (d_touch d) (snd st) (fst st)"
      using assms ac id o own
      by (fastforce simp: get_profile_op_def Let_def inv_simps deferred_Inr split: if_splits prod.splits)
    show ?thesis
      by (rule that [OF ac id, of "[]"]) (use * o own in simp_all)
  qed
qed


lemma get_op_Inr: "get_profile_op d r s = (Inr resp, s') \<Longrightarrow> rs_status resp = 200"
proof (erule get_op_200)
  fix ac rc s1 s2 st tr
  assume t: "if ac_Scope ac = ScopeReadAny
      then ti_Reserve (d_touch d) (hr_ctx r) (ac_Sub ac) 1 s1 = (Inr True, s2)
        \<and> tr = Some \<lparr>tr_sub = ac_Sub ac, tr_reserved = 1, tr_done = False\<rparr>
      else s2 = s1 \<and> tr = None"
    and b: "get_body d (hr_ctx r) ac (hr_path r ''id'') rc (s2, tr) = (Inr resp, st)"
  have "tr = None \<or> tr = Some \<lparr>tr_sub = ac_Sub ac, tr_reserved = 1, tr_done = False\<rparr>"
    using t by (auto split: if_splits)
  from get_body_200 [OF b this] show "rs_status resp = 200" by (auto simp: json_response_def)
qed

lemma run_handler_403:
  assumes "exits refusal m" and "\<And>x t. m s = (Inr x, t) \<Longrightarrow> rs_status x = 200"
    and "rs_status (fst (run_handler m s)) = 403"
  shows "fst (run_handler m s) = writeForbidden"
proof -
  obtain x t where xt: "run_handler m s = (x, t)" by (metis prod.exhaust)
  with run_handler_exits [OF assms(1) xt] assms(2) [of x t] assms(3) refusal_403 show ?thesis by auto
qed

subsection \<open>A reservation is settled exactly once\<close>

datatype touch_event = Booked string int | Settled ctx string "string list" int

definition log_op :: "('w, 'e, 'a) op \<Rightarrow> ('w \<times> touch_event list, 'e, 'a) op" where
  "log_op m st = (case m (fst st) of (r, w) \<Rightarrow> (r, (w, snd st)))"

definition log_touch :: "'w touch_iface \<Rightarrow> ('w \<times> touch_event list) touch_iface" where
  "log_touch ti = \<lparr>
     ti_Reserve = (\<lambda>cx sub n st. case ti_Reserve ti cx sub n (fst st) of
       (r, w) \<Rightarrow> (r, (w, if r = Inr True then snd st @ [Booked sub n] else snd st))),
     ti_Settle = (\<lambda>cx sub ids n st. case ti_Settle ti cx sub ids n (fst st) of
       (r, w) \<Rightarrow> (r, (w, snd st @ [Settled cx sub ids n])))\<rparr>"

definition log_deps :: "'w deps \<Rightarrow> ('w \<times> touch_event list) deps" where
  "log_deps d = \<lparr>d_search = (\<lambda>cx q. log_op (d_search d cx q)), d_get = (\<lambda>cx i. log_op (d_get d cx i)),
     d_authorize = (\<lambda>cx sub sc t. log_op (d_authorize d cx sub sc t)),
     d_allow = (\<lambda>cx sub sc n. log_op (d_allow d cx sub sc n)), d_touch = log_touch (d_touch d),
     d_log = (\<lambda>e. apfst (d_log d e)), d_clock = (\<lambda>st. d_clock d (fst st))\<rparr>"

definition keeps_log :: "('w \<times> touch_event list, 'e, 'a) op \<Rightarrow> bool" where
  "keeps_log m \<longleftrightarrow> (\<forall>st. snd (snd (m st)) = snd st)"

lemma keeps_log_op [simp]: "snd (snd (log_op m st)) = snd st"
  by (simp add: log_op_def split: prod.splits)

lemma audit_log [simp]: "snd (audit (log_deps d) sub sc k ids rc st) = snd st"
  by (simp add: audit_def log_deps_def)

lemma log_deps_sel [simp]:
  "snd (snd (d_search (log_deps d) cx q st)) = snd st"
  "snd (snd (d_get (log_deps d) cx i st)) = snd st"
  "snd (snd (d_authorize (log_deps d) cx sub sc t st)) = snd st"
  "snd (snd (d_allow (log_deps d) cx sub sc n st)) = snd st"
  "d_touch (log_deps d) = log_touch (d_touch d)"
  by (simp_all add: log_deps_def)

abbreviation fresh_tr where "fresh_tr sub n \<equiv> Some \<lparr>tr_sub = sub, tr_reserved = n, tr_done = False\<rparr>"

text \<open>Under the deferred release: nothing was settled yet, or one settle happened.\<close>

definition at_most_settled :: "ctx \<Rightarrow> touch_reservation option \<Rightarrow> touch_event list \<Rightarrow>
    ('w \<times> touch_event list) \<times> touch_reservation option \<Rightarrow> bool" where
  "at_most_settled cx tr l st \<longleftrightarrow>
     (snd st = tr \<and> snd (fst st) = l) \<or>
     (\<exists>t ids. tr = Some t \<and> snd st = Some (t\<lparr>tr_done := True\<rparr>) \<and>
        snd (fst st) = l @ [Settled cx (tr_sub t) ids (tr_reserved t)])"

lemma snd_or_write [simp]: "snd (or_write f m st) = snd (m st)"
  by (simp add: or_write_def map_errS_def split: prod.splits sum.splits)

lemma snd_lift_tr [simp]: "snd (lift_tr m st) = (snd (m (fst st)), snd st)"
  by (simp add: lift_tr_def split: prod.splits)

lemma keeps_lift_log:
  "(\<And>st. snd (snd (m st)) = snd st) \<Longrightarrow> keeps (at_most_settled cx tr l) (or_write f (lift_tr m))"
  "(\<And>st. snd (snd (m st)) = snd st) \<Longrightarrow> keeps (at_most_settled cx tr l) (lift_tr m)"
  by (simp_all add: keeps_def at_most_settled_def)

lemma keeps_settle_log:
  "keeps (at_most_settled cx tr l) (or_write f (tr_settle cx (log_touch ti) ids))"
  by (fastforce simp: keeps_def or_write_def map_errS_def tr_settle_def log_touch_def at_most_settled_def
      Let_def split: prod.splits sum.splits option.splits)

lemma keeps_audit_log:
  "keeps (at_most_settled cx tr l) (denyS (apfst (audit (log_deps d) a b c e f)) resp)"
  "keeps (at_most_settled cx tr l) (execS (apfst (audit (log_deps d) a b c e f)))"
  by (auto simp: keeps_def at_most_settled_def)

lemma keeps_pair: "(\<And>x y. keeps P (k x y)) \<Longrightarrow> keeps P (case p of (x, y) \<Rightarrow> k x y)"
  by (cases p) simp

lemmas keeps_log_rules = keeps_lift_log keeps_settle_log keeps_audit_log keeps_bindS
  keeps_catchS keeps_if keeps_pair keeps_retS

lemma search_body_settles: "keeps (at_most_settled cx tr l) (search_body (log_deps d) cx ac q off)"
  unfolding search_body_def Let_def log_deps_sel by (intro keeps_log_rules) simp_all

lemma get_body_settles: "keeps (at_most_settled cx tr l) (get_body (log_deps d) cx ac i rc)"
  unfolding get_body_def Let_def log_deps_sel by (intro keeps_log_rules) simp_all

lemma deferred_settles:
  assumes "keeps (at_most_settled cx tr l) m"
  shows "tr = None \<Longrightarrow> snd (snd (deferred (log_touch ti) tr m (w, l))) = l"
    and "tr = fresh_tr sub n \<Longrightarrow>
      \<exists>c ids. snd (snd (deferred (log_touch ti) tr m (w, l))) = l @ [Settled c sub ids n]
        \<and> (c = cx \<or> c = None \<and> ids = [])"
proof -
  obtain x s tr' where m: "m ((w, l), tr) = (x, (s, tr'))" by (metis prod.exhaust)
  have "at_most_settled cx tr l ((w, l), tr)" by (simp add: at_most_settled_def)
  from keepsD [OF assms this] have *: "at_most_settled cx tr l (s, tr')" by (simp add: m)
  show "tr = None \<Longrightarrow> snd (snd (deferred (log_touch ti) tr m (w, l))) = l"
    using * m by (auto simp: deferred_def at_most_settled_def tr_release_def)
  show "tr = fresh_tr sub n \<Longrightarrow>
      \<exists>c ids. snd (snd (deferred (log_touch ti) tr m (w, l))) = l @ [Settled c sub ids n]
        \<and> (c = cx \<or> c = None \<and> ids = [])"
    using * m by (auto simp: deferred_def at_most_settled_def tr_release_def log_touch_def split: prod.splits)
qed

definition one_settlement :: "ctx \<Rightarrow> string \<Rightarrow> touch_event list \<Rightarrow> bool" where
  "one_settlement cx sub l \<longleftrightarrow> l = [] \<or>
     (\<exists>n c ids. l = [Booked sub n, Settled c sub ids n] \<and> (c = cx \<or> c = None \<and> ids = []))"

text \<open>The log of a handler part that starts with an empty log.\<close>

definition settles :: "ctx \<Rightarrow> string \<Rightarrow> ('w \<times> touch_event list, 'e, 'a) op \<Rightarrow> bool" where
  "settles cx sub m \<longleftrightarrow> (\<forall>w. one_settlement cx sub (snd (snd (m (w, [])))))"

named_theorems settles_rules

lemma settles_if [settles_rules]: "(b \<Longrightarrow> settles cx sub m) \<Longrightarrow> (\<not> b \<Longrightarrow> settles cx sub n) \<Longrightarrow> settles cx sub (if b then m else n)"
  by simp

lemma settles_pair [settles_rules]: "(\<And>x y. settles cx sub (k x y)) \<Longrightarrow> settles cx sub (case p of (x, y) \<Rightarrow> k x y)"
  by (cases p) simp

lemma settles_quiet: "(\<And>st. snd (snd (m st)) = snd st) \<Longrightarrow> settles cx sub m"
  by (simp add: settles_def one_settlement_def)

lemma settles_basic [settles_rules]:
  "settles cx sub (denyS (audit (log_deps d) a b c e f) resp)" "settles cx sub (failS x)"
  by (rule settles_quiet, simp)+

lemma settles_bind:
  assumes "\<And>st. snd (snd (m st)) = snd st" and "\<And>x. settles cx sub (k x)"
  shows "settles cx sub (bindS m k)"
  unfolding settles_def
proof
  fix w
  obtain x w' where m: "m (w, []) = (x, (w', []))"
    using assms(1) [of "(w, [])"] by (metis prod.exhaust snd_conv)
  then show "one_settlement cx sub (snd (snd (bindS m k (w, []))))"
    using assms(2) by (auto simp: bindS_def settles_def one_settlement_def split: sum.splits)
qed

lemma settles_bind_dep [settles_rules]:
  "settles cx sub (k r) \<Longrightarrow> settles cx sub (bindS (liftS (Inr r)) k)"
  by (simp add: settles_def bindS_def)

lemma reserve_log:
  "reserveTouches cx (log_touch ti) sub n (w, l) = (x, st) \<Longrightarrow>
     (\<exists>w'. x = Inr (fresh_tr sub n, True) \<and> st = (w', l @ [Booked sub n])) \<or>
     ((\<exists>e. x = Inl e) \<or> x = Inr (None, False)) \<and> snd st = l"
  by (auto simp: reserveTouches_def bindS_def log_touch_def split: prod.splits sum.splits if_splits)

lemma settles_reserved:
  assumes "\<And>tr l. keeps (at_most_settled cx tr l) body" and "\<And>st. snd (snd (refuse st)) = snd st"
  shows "settles cx sub (bindS (or_write f (reserveTouches cx (log_touch ti) sub n)) (\<lambda>(tr, reserved).
     if \<not> reserved then refuse else deferred (log_touch ti) tr body))"
  unfolding settles_def
proof
  fix w
  obtain x st where r: "reserveTouches cx (log_touch ti) sub n (w, []) = (x, st)" by (metis prod.exhaust)
  from reserve_log [OF r] consider
    (ok) w' where "x = Inr (fresh_tr sub n, True)" "st = (w', [] @ [Booked sub n])"
  | (err) e where "x = Inl e" "snd st = []" | (no) "x = Inr (None, False)" "snd st = []" by auto
  then show "one_settlement cx sub (snd (snd (bindS (or_write f (reserveTouches cx (log_touch ti) sub n)) (\<lambda>(tr, reserved).
     if \<not> reserved then refuse else deferred (log_touch ti) tr body) (w, []))))"
  proof cases
    case ok
    then show ?thesis
      using deferred_settles(2) [OF assms(1) [of "fresh_tr sub n" "[Booked sub n]"] refl, of ti w'] r
      by (auto simp: bindS_def or_write_def map_errS_def one_settlement_def)
  qed (use r assms(2) in \<open>auto simp: bindS_def or_write_def map_errS_def one_settlement_def\<close>)
qed

lemma settles_unreserved:
  assumes "\<And>tr l. keeps (at_most_settled cx tr l) body"
  shows "settles cx sub (deferred (log_touch ti) None body)"
  using deferred_settles(1) [OF assms refl] by (simp add: settles_def one_settlement_def)

definition caller :: "request \<Rightarrow> string" where
  "caller r = (case hr_auth r of None \<Rightarrow> [] | Some ac \<Rightarrow> ac_Sub ac)"

lemma settles_search:
  assumes "hr_auth r = Some ac"
  shows "settles (hr_ctx r) (ac_Sub ac) (search_op (log_deps d) r)"
  unfolding search_op_def Let_def log_deps_sel assms option.case
  by (rule settles_if, rule settles_basic, rule settles_bind, simp, rule settles_pair, rule settles_pair,
      rule settles_bind, simp, rule settles_if, rule settles_basic, rule settles_reserved,
      rule search_body_settles, simp)

lemma settles_get:
  assumes "hr_auth r = Some ac"
  shows "settles (hr_ctx r) (ac_Sub ac) (get_profile_op (log_deps d) r)"
proof (cases "ac_Scope ac = ScopeReadAny")
  case True
  show ?thesis
    unfolding get_profile_op_def Let_def log_deps_sel assms option.case if_P [OF True]
    by (rule settles_if, rule settles_basic, rule settles_if, rule settles_basic, rule settles_if,
      rule settles_basic, rule settles_bind, simp, rule settles_if, rule settles_basic,
      rule settles_reserved, rule get_body_settles, simp)
next
  case False
  show ?thesis
    unfolding get_profile_op_def Let_def log_deps_sel assms option.case if_not_P [OF False] bindS_retS
    by (rule settles_if, rule settles_basic, rule settles_if, rule settles_basic, rule settles_if,
      rule settles_basic, rule settles_bind, simp, rule settles_if, rule settles_basic)
     (simp, rule settles_unreserved, rule get_body_settles)
qed

lemma run_handler_snd [simp]: "snd (run_handler m s) = snd (m s)"
  by (simp add: run_handler_def split: prod.splits sum.splits)

subsection \<open>The in-process collaborators\<close>

text \<open>The deps of the verifying service with the in-process limiter, counter, stopgap policy and audit
  log; the repository's \<open>search\<close> and \<open>get\<close> are parameters.\<close>

record api_world =
  aw_clock :: time
  aw_rate :: rate_limiter
  aw_touch :: touch_counter
  aw_audit :: "audit_event list"

definition in_process_deps ::
  "(ctx \<Rightarrow> profile_query \<Rightarrow> ('z api_world_scheme, goerr, user_profile list \<times> int) op) \<Rightarrow>
   (ctx \<Rightarrow> string \<Rightarrow> ('z api_world_scheme, goerr, user_profile) op) \<Rightarrow>
   (string \<rightharpoonup> (string \<rightharpoonup> bool)) \<Rightarrow> ('z api_world_scheme) deps" where
  "in_process_deps search get readOwnAllow =
     \<lparr>d_search = search, d_get = get,
      d_authorize = (\<lambda>_ sub sc t. retS (StopgapAuthorizer_Authorize readOwnAllow sub sc t)),
      d_allow = (\<lambda>_ sub sc n w. case rl_allow (aw_clock w) sub sc n (aw_rate w) of
        (ok, m) \<Rightarrow> (Inr ok, w\<lparr>aw_rate := m\<rparr>)),
      d_touch = in_process_touch aw_clock aw_touch (\<lambda>c w. w\<lparr>aw_touch := c\<rparr>),
      d_log = (\<lambda>e w. w\<lparr>aw_audit := aw_audit w @ [e]\<rparr>),
      d_clock = aw_clock\<rparr>"

definition fresh_world :: "time \<Rightarrow> api_world" where
  "fresh_world t = \<lparr>aw_clock = t, aw_rate = NewInProcessRateLimiter,
     aw_touch = NewInProcessTouchCounter TouchCapPerWindow TouchCapWindow, aw_audit = []\<rparr>"

definition example_profile :: user_profile where
  "example_profile = \<lparr>up_ID = ''0b8f5a5e-0000-4000-8000-000000000001'', up_Name = ''Ada'',
     up_Phone = Some ''+15551234567'', up_StreetAddress = None, up_Locality = None, up_Region = Some ''NY'',
     up_PostalCode = None, up_Country = Some ''US'', up_Source = ''direct'', up_CreatedAt = 1, up_UpdatedAt = 1\<rparr>"

definition example_deps :: "api_world deps" where
  "example_deps = in_process_deps (\<lambda>_ _. retS ([example_profile], 1)) (\<lambda>_ _. retS example_profile)
     [''qa'' \<mapsto> [up_ID example_profile \<mapsto> True]]"

definition example_request :: "scope \<Rightarrow> request" where
  "example_request sc = \<lparr>hr_ctx = None, hr_auth = Some \<lparr>ac_Sub = ''qa'', ac_Scope = sc\<rparr>,
     hr_body = Some (Doc (JObj [(''name'', JStr ''ad''), (''page_size'', JNum ''5'')])),
     hr_path = (\<lambda>_. up_ID example_profile), hr_query = (\<lambda>_. ''fraud_review''), hr_header = (\<lambda>_. []),
     hr_remote = ''10.0.0.1:1''\<rparr>"

lemma example_request_sel [simp]:
  "hr_ctx (example_request sc) = None" "hr_auth (example_request sc) = Some \<lparr>ac_Sub = ''qa'', ac_Scope = sc\<rparr>"
  "hr_path (example_request sc) k = up_ID example_profile" "hr_query (example_request sc) k = ''fraud_review''"
  by (simp_all add: example_request_def)

lemma example_parse: "parse_search (example_request sc) =
    Inr (\<lparr>pq_Name = Some ''ad'', pq_Phone = None, pq_Region = None, pq_Country = None, pq_Limit = 5, pq_Offset = 0\<rparr>, 5, 0)"
  by (simp add: parse_search_def example_request_def decode_struct_def find_field_def search_request_fields_def
     zero_search_request_def dec_ptr_def dec_int_def decodeCursor_def maxPageSize_def atoi_def Let_def
     parse_nat_def is_digit_def digits_val_def digit_val_def byte_def)

lemma fresh_limits:
  "rl_allow 7 sub sc n NewInProcessRateLimiter =
     (0 < n, NewInProcessRateLimiter (rl_key sub sc \<mapsto> \<lparr>window_start = 7, bucket_count = if 0 < n then 1 else 0\<rparr>))"
  "\<exists>c. Reserve 7 sub n (NewInProcessTouchCounter TouchCapPerWindow TouchCapWindow) = (True, c)"
  by (auto simp: rl_allow_def NewInProcessRateLimiter_def Let_def Reserve_def currentWindow_def tc_sweep_def
      NewInProcessTouchCounter_def time_sub_def TouchCapWindow_def TouchCapPerWindow_def hour_def
      max_duration_def min_duration_def fcard_fempty)

lemma example_search_200: "rs_status (fst (search_handler example_deps (example_request ScopeSearch) (fresh_world 7))) = 200"
proof -
  obtain c where c: "Reserve 7 ''qa'' 5 (NewInProcessTouchCounter TouchCapPerWindow TouchCapWindow) = (True, c)"
    using fresh_limits(2) by blast
  have sc: "ScopeSearch \<noteq> ScopeReadOwn" by (simp add: scope_defs)
  show ?thesis
    using sc
    by (simp add: search_handler_def search_op_def Let_def example_parse fresh_limits(1) bindS_def or_write_def map_errS_def reserveTouches_def
      deferred_def search_body_def lift_tr_def catchS_def tr_settle_def run_handler_def json_response_def
      example_deps_def in_process_deps_def in_process_touch_def fresh_world_def c StopgapAuthorizer_Authorize_def searchRateLimit_def)
qed

lemma example_get_200: "rs_status (fst (get_profile_handler example_deps (example_request ScopeReadAny) (fresh_world 7))) = 200"
proof -
  obtain c where c: "Reserve 7 ''qa'' 1 (NewInProcessTouchCounter TouchCapPerWindow TouchCapWindow) = (True, c)"
    using fresh_limits(2) by blast
  have sc: "ScopeReadAny \<noteq> ScopeReadOwn" by (simp add: scope_defs)
  have "trim_space (up_ID example_profile) = up_ID example_profile"
    by (rule trim_space_visible) (simp add: example_profile_def visible_def byte_def)
  then have i: "trim_space (up_ID example_profile) \<noteq> []" by (simp add: example_profile_def)
  have rc: "ReasonCode_Valid ''fraud_review''" by (simp add: ReasonCode_Valid_def reason_codes_def)
  show ?thesis
    using sc
    by (simp add: get_profile_handler_def get_profile_op_def Let_def i rc fresh_limits(1) bindS_def or_write_def map_errS_def reserveTouches_def
      deferred_def get_body_def lift_tr_def catchS_def tr_settle_def run_handler_def json_response_def
      example_deps_def in_process_deps_def in_process_touch_def fresh_world_def c StopgapAuthorizer_Authorize_def readRateLimit_def)
qed
lemma search_200:
  assumes "search_handler d r s = (resp, s')" "rs_status resp = 200"
  shows "\<exists>ac. hr_auth r = Some ac \<and> ac_Scope ac = ScopeSearch"
proof -
  have "search_op d r s = (Inr resp, s')"
    using assms exits_search by (intro run_handler_200) (simp_all add: search_handler_def)
  then show ?thesis by (rule search_op_200) blast
qed

lemma get_200:
  assumes "get_profile_handler d r s = (resp, s')" "rs_status resp = 200"
  shows "\<exists>ac s2 s3. hr_auth r = Some ac \<and> (ac_Scope ac = ScopeReadOwn \<or> ac_Scope ac = ScopeReadAny) \<and>
    d_authorize d (hr_ctx r) (ac_Sub ac) (ac_Scope ac) (hr_path r ''id'') s2 = (Inr True, s3)"
proof -
  have "get_profile_op d r s = (Inr resp, s')"
    using assms exits_get by (intro run_handler_200) (simp_all add: get_profile_handler_def)
  then obtain ac rc s2 st tr where ac: "hr_auth r = Some ac"
      "ac_Scope ac = ScopeReadOwn \<and> rc = [] \<or> ac_Scope ac = ScopeReadAny \<and> rc = hr_query r ''reason_code'' \<and> ReasonCode_Valid rc"
    and s2: "if ac_Scope ac = ScopeReadAny
      then \<exists>s1. ti_Reserve (d_touch d) (hr_ctx r) (ac_Sub ac) 1 s1 = (Inr True, s2)
        \<and> tr = Some \<lparr>tr_sub = ac_Sub ac, tr_reserved = 1, tr_done = False\<rparr>
      else tr = None"
    and body: "get_body d (hr_ctx r) ac (hr_path r ''id'') rc (s2, tr) = (Inr resp, st)"
    by (rule get_op_200) (fastforce split: if_splits)
  have tr: "tr = None \<or> tr = Some \<lparr>tr_sub = ac_Sub ac, tr_reserved = 1, tr_done = False\<rparr>"
    using s2 by (auto split: if_splits)
  show ?thesis using get_body_200 [OF body tr] ac by blast
qed

subsection \<open>Properties\<close>

text \<open>
  C32. A search is answered 200 only when the token's scope is \<open>profile:search\<close>, the request parses
  to a page of at most 50, and then, in this order, the rate limiter admits it, the touch counter
  books the page, the policy allows it and the repository answers; the books are settled with
  exactly the ids returned, one success event is logged for them, and the body is the masked page.
\<close>
theorem search_ok_checked:
  assumes "search_handler d r s = (resp, s')" and "rs_status resp = 200"
  shows "\<exists>ac q n off s1 s2 s3 s4 s5 results n_total.
    hr_auth r = Some ac \<and> ac_Scope ac = ScopeSearch \<and> parse_search r = Inr (q, n, off) \<and> 1 \<le> n \<and> n \<le> 50
   \<and> d_allow d (hr_ctx r) (ac_Sub ac) ScopeSearch searchRateLimit s = (Inr True, s1)
   \<and> ti_Reserve (d_touch d) (hr_ctx r) (ac_Sub ac) n s1 = (Inr True, s2)
   \<and> d_authorize d (hr_ctx r) (ac_Sub ac) ScopeSearch [] s2 = (Inr True, s3)
   \<and> d_search d (hr_ctx r) q s3 = (Inr (results, n_total), s4)
   \<and> ti_Settle (d_touch d) (hr_ctx r) (ac_Sub ac) (map up_ID results) n s4 = (Inr (), s5)
   \<and> s' = audit d (ac_Sub ac) ScopeSearch AuditSuccess (map up_ID results) [] s5
   \<and> rs_body resp = Json (search_response_json (map toSearchResult results) n_total
       (if off + int (length results) < n_total then encodeCursor (off + int (length results)) else []))"
proof -
  have "search_op d r s = (Inr resp, s')"
    using assms exits_search by (intro run_handler_200) (simp_all add: search_handler_def)
  then obtain ac q n off s1 s2 st where
    ac: "hr_auth r = Some ac" "ac_Scope ac = ScopeSearch" and q: "parse_search r = Inr (q, n, off)"
    and s1: "d_allow d (hr_ctx r) (ac_Sub ac) ScopeSearch searchRateLimit s = (Inr True, s1)"
    and s2: "ti_Reserve (d_touch d) (hr_ctx r) (ac_Sub ac) n s1 = (Inr True, s2)"
    and body: "search_body d (hr_ctx r) ac q off
       (s2, Some \<lparr>tr_sub = ac_Sub ac, tr_reserved = n, tr_done = False\<rparr>) = (Inr resp, st)"
    and s': "s' = tr_release (d_touch d) (snd st) (fst st)"
    by (rule search_op_200)
  show ?thesis
    using search_body_200 [OF body] ac q s1 s2 s' parse_search_page [OF q]
    by (auto simp: release_done maxPageSize_def json_response_def split del: if_split)
qed

theorem search_ok_checked_witness:
  "\<exists>ac s1. hr_auth (example_request ScopeSearch) = Some ac \<and>
     d_allow example_deps None (ac_Sub ac) ScopeSearch searchRateLimit (fresh_world 7) = (Inr True, s1)"
proof -
  let ?r = "search_handler example_deps (example_request ScopeSearch) (fresh_world 7)"
  have "rs_status (fst ?r) = 200" by (rule example_search_200)
  then show ?thesis
    using search_ok_checked [of example_deps "example_request ScopeSearch" "fresh_world 7" "fst ?r" "snd ?r"]
    by (auto simp: example_request_def)
qed

text \<open>
  C33. A profile is returned only to a caller with a read scope (with a valid reason code for
  \<open>profile:read:any\<close>), after the rate limiter, the touch counter (for \<open>read:any\<close>) and the policy
  for exactly that id agreed, in this order, with one success event for the record returned.
\<close>
theorem get_ok_checked:
  assumes "get_profile_handler d r s = (resp, s')" and "rs_status resp = 200"
  shows "\<exists>ac i rc s1 s2 s3 s4 s5 p.
    hr_auth r = Some ac \<and> i = hr_path r ''id'' \<and> trim_space i \<noteq> []
   \<and> (ac_Scope ac = ScopeReadOwn \<and> rc = [] \<or>
      ac_Scope ac = ScopeReadAny \<and> rc = hr_query r ''reason_code'' \<and> ReasonCode_Valid rc)
   \<and> d_allow d (hr_ctx r) (ac_Sub ac) (ac_Scope ac) readRateLimit s = (Inr True, s1)
   \<and> (if ac_Scope ac = ScopeReadAny
      then ti_Reserve (d_touch d) (hr_ctx r) (ac_Sub ac) 1 s1 = (Inr True, s2) else s2 = s1)
   \<and> d_authorize d (hr_ctx r) (ac_Sub ac) (ac_Scope ac) i s2 = (Inr True, s3)
   \<and> d_get d (hr_ctx r) i s3 = (Inr p, s4)
   \<and> (if ac_Scope ac = ScopeReadAny
      then ti_Settle (d_touch d) (hr_ctx r) (ac_Sub ac) [up_ID p] 1 s4 = (Inr (), s5) else s5 = s4)
   \<and> s' = audit d (ac_Sub ac) (ac_Scope ac) AuditSuccess [up_ID p] rc s5
   \<and> rs_body resp = Json (profile_response_json p)"
proof -
  have "get_profile_op d r s = (Inr resp, s')"
    using assms exits_get by (intro run_handler_200) (simp_all add: get_profile_handler_def)
  then obtain ac rc s1 s2 st tr where
    ac: "hr_auth r = Some ac" "trim_space (hr_path r ''id'') \<noteq> []"
      "ac_Scope ac = ScopeReadOwn \<and> rc = [] \<or>
       ac_Scope ac = ScopeReadAny \<and> rc = hr_query r ''reason_code'' \<and> ReasonCode_Valid rc"
    and s1: "d_allow d (hr_ctx r) (ac_Sub ac) (ac_Scope ac) readRateLimit s = (Inr True, s1)"
    and s2: "if ac_Scope ac = ScopeReadAny
      then ti_Reserve (d_touch d) (hr_ctx r) (ac_Sub ac) 1 s1 = (Inr True, s2)
        \<and> tr = Some \<lparr>tr_sub = ac_Sub ac, tr_reserved = 1, tr_done = False\<rparr>
      else s2 = s1 \<and> tr = None"
    and body: "get_body d (hr_ctx r) ac (hr_path r ''id'') rc (s2, tr) = (Inr resp, st)"
    and s': "s' = tr_release (d_touch d) (snd st) (fst st)"
    by (rule get_op_200)
  have tr: "tr = None \<or> tr = Some \<lparr>tr_sub = ac_Sub ac, tr_reserved = 1, tr_done = False\<rparr>"
    and trn: "tr = None \<longleftrightarrow> ac_Scope ac \<noteq> ScopeReadAny"
    using s2 by (auto split: if_splits)
  show ?thesis
    using get_body_200 [OF body tr] ac s1 s2 s' tr trn
    by (cases tr) (auto simp: release_done json_response_def)
qed

theorem get_ok_checked_witness:
  "\<exists>ac s1. hr_auth (example_request ScopeReadAny) = Some ac \<and>
     d_allow example_deps None (ac_Sub ac) ScopeReadAny readRateLimit (fresh_world 7) = (Inr True, s1)"
proof -
  let ?r = "get_profile_handler example_deps (example_request ScopeReadAny) (fresh_world 7)"
  have "rs_status (fst ?r) = 200" by (rule example_get_200)
  then show ?thesis
    using get_ok_checked [of example_deps "example_request ScopeReadAny" "fresh_world 7" "fst ?r" "snd ?r"]
    by (auto simp: example_request_def)
qed

text \<open>
  C34. On every path through both handlers, whatever the collaborators answer, a reservation that was
  booked is settled exactly once, for the amount booked; a settlement that is not the successful
  one reports no records and runs with a context that the request's cancellation cannot reach.
\<close>
theorem touches_settled_once:
  "one_settlement (hr_ctx r) (caller r) (snd (snd (search_handler (log_deps d) r (w, [])))) \<and>
   one_settlement (hr_ctx r) (caller r) (snd (snd (get_profile_handler (log_deps d) r (w, []))))"
proof (cases "hr_auth r")
  case None
  then show ?thesis
    by (simp add: search_handler_def get_profile_handler_def search_op_def get_profile_op_def
        one_settlement_def Let_def)
next
  case (Some ac)
  then show ?thesis
    using settles_search [OF Some, of d] settles_get [OF Some, of d]
    by (simp add: settles_def search_handler_def get_profile_handler_def caller_def)
qed

text \<open>
  A scope failure and a policy denial are one response: every 403 of either handler is
  \<open>writeForbidden\<close>, a wrong scope is refused before any other collaborator is called, and only the
  audit event tells which of the two it was.
\<close>
theorem forbidden_uniform:
  "(rs_status (fst (search_handler d r s)) = 403 \<longrightarrow> fst (search_handler d r s) = writeForbidden) \<and>
   (rs_status (fst (get_profile_handler d r s)) = 403 \<longrightarrow> fst (get_profile_handler d r s) = writeForbidden) \<and>
   (hr_auth r = Some ac \<and> ac_Scope ac \<noteq> ScopeSearch \<longrightarrow> search_handler d r s =
      (writeForbidden, audit d (ac_Sub ac) (ac_Scope ac) AuditScopeFailure [] [] s)) \<and>
   (hr_auth r = Some ac \<and> ac_Scope ac \<notin> {ScopeReadOwn, ScopeReadAny} \<longrightarrow> get_profile_handler d r s =
      (writeForbidden, audit d (ac_Sub ac) (ac_Scope ac) AuditScopeFailure [] [] s))"
proof (intro conjI impI)
  show "rs_status (fst (search_handler d r s)) = 403 \<Longrightarrow> fst (search_handler d r s) = writeForbidden"
    unfolding search_handler_def by (rule run_handler_403 [OF exits_search search_op_Inr])
  show "rs_status (fst (get_profile_handler d r s)) = 403 \<Longrightarrow> fst (get_profile_handler d r s) = writeForbidden"
    unfolding get_profile_handler_def by (rule run_handler_403 [OF exits_get get_op_Inr])
qed (simp_all add: search_handler_def search_op_def get_profile_handler_def get_profile_op_def
      run_handler_def Let_def)

theorem forbidden_uniform_witness:
  "search_handler example_deps (example_request ScopeReadOwn) (fresh_world 7) =
     (writeForbidden, audit example_deps ''qa'' ScopeReadOwn AuditScopeFailure [] [] (fresh_world 7))"
  using forbidden_uniform [of example_deps "example_request ScopeReadOwn" "fresh_world 7"
      "\<lparr>ac_Sub = ''qa'', ac_Scope = ScopeReadOwn\<rparr>"]
  by (simp add: example_request_def scope_defs)

end
