(* ===== verification/Http.thy ===== *)
theory Http
  imports Json Base64 GoErrors
begin

section \<open>HTTP replies, JSON slices and \<open>%q\<close>\<close>

text \<open>
  What the outbound clients see of a reply: its status and its body, which is read with
  \<open>io.ReadAll\<close> or decoded as JSON. A body that cannot be read is an error value; a body that is not a
  JSON document is \<open>BadJson\<close>. The text of an \<open>encoding/json\<close> error is not kept.
\<close>

record http_reply =
  hp_status :: int
  hp_body :: "goerr + req_body"

definition json_error :: goerr where "json_error = ErrText ''json: cannot unmarshal''"

text \<open>A slice of structs: \<open>null\<close> is the nil slice; an element starts from the zero value, and a
  \<open>null\<close> element stays there.\<close>

fun dec_structs :: "'a field_decoder list \<Rightarrow> 'a \<Rightarrow> json list \<Rightarrow> 'a list option" where
  "dec_structs fs z [] = Some []"
| "dec_structs fs z (v # vs) =
     (case decode_struct False fs z (Doc v) of
        None \<Rightarrow> None
      | Some x \<Rightarrow> map_option ((#) x) (dec_structs fs z vs))"

definition dec_slice :: "'a field_decoder list \<Rightarrow> 'a \<Rightarrow> ('a list \<Rightarrow> 'r \<Rightarrow> 'r) \<Rightarrow> json \<Rightarrow> 'r \<Rightarrow> 'r option" where
  "dec_slice fs z put v r =
     (case v of
        JNull \<Rightarrow> Some (put [] r)
      | JArr vs \<Rightarrow> map_option (\<lambda>xs. put xs r) (dec_structs fs z vs)
      | _ \<Rightarrow> None)"

text \<open>\<open>%q\<close>, for text whose bytes outside ASCII are printable UTF-8.\<close>

definition hex_digit :: "nat \<Rightarrow> char" where
  "hex_digit n = ''0123456789abcdef'' ! n"

definition quote_char :: "char \<Rightarrow> string" where
  "quote_char c =
     (if byte c = 34 then [char_of (92::nat), c]
      else if byte c = 92 then [c, c]
      else if byte c = 7 then [char_of (92::nat), CHR ''a'']
      else if byte c = 8 then [char_of (92::nat), CHR ''b'']
      else if byte c = 12 then [char_of (92::nat), CHR ''f'']
      else if byte c = 10 then [char_of (92::nat), CHR ''n'']
      else if byte c = 13 then [char_of (92::nat), CHR ''r'']
      else if byte c = 9 then [char_of (92::nat), CHR ''t'']
      else if byte c = 11 then [char_of (92::nat), CHR ''v'']
      else if byte c < 32 \<or> byte c = 127
        then [char_of (92::nat), CHR ''x'', hex_digit (byte c div 16), hex_digit (byte c mod 16)]
      else [c])"

definition go_quote :: "string \<Rightarrow> string" where
  "go_quote s = CHR 0x22 # concat (map quote_char s) @ [CHR 0x22]"

text \<open>\<open>big.Int.SetBytes\<close> and \<open>Bytes\<close>: big endian, no leading zero byte.\<close>

definition bytes_val :: "string \<Rightarrow> nat" where
  "bytes_val s = foldl (\<lambda>acc c. 256 * acc + byte c) 0 s"

fun val_bytes :: "nat \<Rightarrow> string" where
  "val_bytes n = (if n = 0 then [] else val_bytes (n div 256) @ [char_of (n mod 256)])"

declare val_bytes.simps [simp del]

lemma bytes_val_snoc: "bytes_val (s @ [c]) = 256 * bytes_val s + byte c"
  by (simp add: bytes_val_def)

lemma bytes_val_bytes [simp]: "bytes_val (val_bytes n) = n"
proof (induction n rule: val_bytes.induct)
  case (1 n)
  show ?case
  proof (cases "n = 0")
    case True
    then show ?thesis by (subst val_bytes.simps) (simp add: bytes_val_def)
  next
    case False
    have "byte (char_of (n mod 256)) = n mod 256" by (simp add: byte_def)
    with 1 [OF False] False show ?thesis by (subst val_bytes.simps) (simp add: bytes_val_snoc)
  qed
qed

end
