(* ===== verification/Rely.thy ===== *)
theory Rely
  imports Prelude
begin

section \<open>Operations that only move the state along a relation\<close>

text \<open>
  \<open>moves R m\<close>: whatever \<open>m\<close> answers, the state it leaves is related by \<open>R\<close> to the state it found. The
  locale \<open>rely\<close> asks of \<open>R\<close> that it can be chained, and gives the rules that carry \<open>moves\<close> through the
  combinators; a component whose critical sections interleave with other goroutines interprets it with
  the relation those goroutines keep to.
\<close>

definition moves :: "('s \<Rightarrow> 's \<Rightarrow> bool) \<Rightarrow> ('s, 'e, 'a) op \<Rightarrow> bool" where
  "moves R m \<longleftrightarrow> (\<forall>s. R s (snd (m s)))"

lemma movesI: "(\<And>s r s'. m s = (r, s') \<Longrightarrow> R s s') \<Longrightarrow> moves R m"
  by (simp add: moves_def) (metis prod.collapse)

lemma movesD: "moves R m \<Longrightarrow> m s = (r, s') \<Longrightarrow> R s s'"
  by (metis moves_def snd_conv)

locale rely =
  fixes R :: "'s \<Rightarrow> 's \<Rightarrow> bool"
  assumes R_refl: "R s s"
    and R_trans: "R s t \<Longrightarrow> R t u \<Longrightarrow> R s u"
begin

lemma moves_basic [intro, simp]:
  "moves R (retS x)" "moves R (failS err)" "moves R (liftS r)" "moves R (guardS b err)"
  by (simp_all add: moves_def R_refl)

lemma moves_bindS [intro]:
  assumes "moves R m" "\<And>x. moves R (k x)" shows "moves R (bindS m k)"
proof (rule movesI)
  fix s r s'
  assume b: "bindS m k s = (r, s')"
  obtain a t where m: "m s = (a, t)" by fastforce
  have st: "R s t" by (rule movesD [OF assms(1) m])
  show "R s s'"
  proof (cases a)
    case (Inl err)
    then show ?thesis using b m st by (simp add: bindS_def)
  next
    case (Inr x)
    then have "k x t = (r, s')" using b m by (simp add: bindS_def)
    then show ?thesis using R_trans [OF st] movesD [OF assms(2)] by blast
  qed
qed

lemma moves_catchS [intro]:
  assumes "moves R m" "\<And>err. moves R (h err)" "\<And>x. moves R (k x)" shows "moves R (catchS m h k)"
proof (rule movesI)
  fix s r s'
  assume b: "catchS m h k s = (r, s')"
  obtain a t where m: "m s = (a, t)" by fastforce
  have st: "R s t" by (rule movesD [OF assms(1) m])
  show "R s s'"
  proof (cases a)
    case (Inl err)
    then have "h err t = (r, s')" using b m by (simp add: catchS_def)
    then show ?thesis using R_trans [OF st] movesD [OF assms(2)] by blast
  next
    case (Inr x)
    then have "k x t = (r, s')" using b m by (simp add: catchS_def)
    then show ?thesis using R_trans [OF st] movesD [OF assms(3)] by blast
  qed
qed

lemma moves_map_errS [intro]: "moves R m \<Longrightarrow> moves R (map_errS f m)"
  by (auto simp: moves_def map_errS_def split: prod.splits sum.splits) (metis snd_conv)+

lemma moves_if [intro]: "moves R m \<Longrightarrow> moves R n \<Longrightarrow> moves R (if b then m else n)"
  by simp

lemmas moves_rules = moves_basic moves_bindS moves_catchS moves_map_errS moves_if

end

end
