(* ===== verification/Jwks.thy ===== *)
theory Jwks
  imports Http Rely
begin

section \<open>internal/api/jwks.go: the verifier's key cache\<close>

text \<open>
  The key set is parsed from the issuer's JWKS document and cached. \<open>KeyForKid\<close> never holds the mutex
  across the network call, so the model is a sequence of critical sections on \<open>jwks_cache \<times> 'w\<close>, \<open>'w\<close>
  being the rest of the process. Between two sections \<open>je_yield\<close>, and during the HTTP call
  \<open>je_do\<close>, may change the cache too: they stand for the other goroutines. \<open>je_now\<close> is \<open>c.now()\<close>, read
  as often as the code reads it. What other goroutines may do is the relation \<open>advances\<close>, which every
  operation here satisfies itself. Log lines are left out; \<open>je_show\<close> is \<open>time.Duration.String\<close>.
\<close>

subsection \<open>The key set\<close>

record jwk =
  jwk_Kty :: string
  jwk_Kid :: string
  jwk_Alg :: string
  jwk_Use :: string
  jwk_N :: string
  jwk_E :: string

definition zero_jwk :: jwk where
  "zero_jwk = \<lparr>jwk_Kty = [], jwk_Kid = [], jwk_Alg = [], jwk_Use = [], jwk_N = [], jwk_E = []\<rparr>"

definition jwk_fields :: "jwk field_decoder list" where
  "jwk_fields =
     [(''kty'', dec_str (\<lambda>v r. r\<lparr>jwk_Kty := v\<rparr>)), (''kid'', dec_str (\<lambda>v r. r\<lparr>jwk_Kid := v\<rparr>)),
      (''alg'', dec_str (\<lambda>v r. r\<lparr>jwk_Alg := v\<rparr>)), (''use'', dec_str (\<lambda>v r. r\<lparr>jwk_Use := v\<rparr>)),
      (''n'', dec_str (\<lambda>v r. r\<lparr>jwk_N := v\<rparr>)), (''e'', dec_str (\<lambda>v r. r\<lparr>jwk_E := v\<rparr>))]"

definition jwks_response_fields :: "jwk list field_decoder list" where
  "jwks_response_fields = [(''keys'', dec_slice jwk_fields zero_jwk (\<lambda>ks _. ks))]"

record rsa_public_key =
  pk_N :: nat
  pk_E :: int

type_synonym key_set = "string \<rightharpoonup> rsa_public_key"

definition corrupt_input :: goerr where "corrupt_input = ErrText ''illegal base64 data''"

definition rsaPublicKeyFromJWK :: "jwk \<Rightarrow> goerr + rsa_public_key" where
  "rsaPublicKeyFromJWK k =
     (case b64_decode url_alphabet (jwk_N k) of
        None \<Rightarrow> Inl (Wrap ''decoding n: '' corrupt_input)
      | Some nBytes \<Rightarrow>
          (case b64_decode url_alphabet (jwk_E k) of
             None \<Rightarrow> Inl (Wrap ''decoding e: '' corrupt_input)
           | Some eBytes \<Rightarrow>
               if 2 ^ 63 \<le> bytes_val eBytes then Inl (ErrText ''exponent out of range'')
               else Inr \<lparr>pk_N = bytes_val nBytes, pk_E = int (bytes_val eBytes)\<rparr>))"

fun jwks_keys :: "jwk list \<Rightarrow> key_set \<Rightarrow> goerr + key_set" where
  "jwks_keys [] keys = Inr keys"
| "jwks_keys (k # ks) keys =
     (if jwk_Kty k \<noteq> ''RSA'' then jwks_keys ks keys
      else if jwk_Kid k = [] then Inl (ErrText ''api: JWKS RSA key missing kid'')
      else (case rsaPublicKeyFromJWK k of
          Inl err \<Rightarrow> Inl (Wrap (''api: JWKS key '' @ go_quote (jwk_Kid k) @ '': '') err)
        | Inr pub \<Rightarrow> jwks_keys ks (keys(jwk_Kid k \<mapsto> pub))))"

definition parseJWKS :: "req_body \<Rightarrow> goerr + key_set" where
  "parseJWKS data =
     (case decode_struct False jwks_response_fields [] data of
        None \<Rightarrow> Inl (Wrap ''api: parsing JWKS: '' json_error)
      | Some ks \<Rightarrow> jwks_keys ks Map.empty)"

subsection \<open>The cache\<close>

definition jwksMaxStalenessMultiple :: int where "jwksMaxStalenessMultiple = 3"
definition jwksUnknownKidRefetchInterval :: duration where "jwksUnknownKidRefetchInterval = 30 * second"
definition jwksMinRefreshRetryInterval :: duration where "jwksMinRefreshRetryInterval = 5 * second"
definition jwksMaxTrackedUnknownKids :: nat where "jwksMaxTrackedUnknownKids = 64"

record jwks_cache =
  jc_url :: string
  jc_ttl :: duration
  jc_maxStaleness :: duration
  jc_keys :: "key_set option" \<comment> \<open>\<open>None\<close> is the nil map\<close>
  jc_fetchedAt :: time
  jc_lastAttempt :: time
  jc_consecutiveFailures :: int
  jc_staleAlerted :: bool
  jc_unknownKidRetryAt :: "(string, time) alist"

definition NewJWKSCache :: "string \<Rightarrow> duration \<Rightarrow> jwks_cache" where
  "NewJWKSCache url ttl = \<lparr>jc_url = url, jc_ttl = ttl, jc_maxStaleness = wrap64 (jwksMaxStalenessMultiple * ttl),
     jc_keys = None, jc_fetchedAt = 0, jc_lastAttempt = 0, jc_consecutiveFailures = 0, jc_staleAlerted = False,
     jc_unknownKidRetryAt = []\<rparr>"

type_synonym 'w jstate = "jwks_cache \<times> 'w"

record 'w jwks_env =
  je_now :: "'w \<Rightarrow> time \<times> 'w"
  je_yield :: "'w jstate \<Rightarrow> 'w jstate"
  je_newRequest :: "string \<Rightarrow> goerr option"
  je_do :: "ctx \<Rightarrow> string \<Rightarrow> ('w jstate, goerr, http_reply) op"
  je_show :: "duration \<Rightarrow> string"

definition jwks_now :: "'w jwks_env \<Rightarrow> ('w jstate, goerr, time) op" where
  "jwks_now e s = (case je_now e (snd s) of (t, w) \<Rightarrow> (Inr t, (fst s, w)))"

definition get_cache :: "('w jstate, goerr, jwks_cache) op" where
  "get_cache s = (Inr (fst s), s)"

definition put_cache :: "(jwks_cache \<Rightarrow> jwks_cache) \<Rightarrow> ('w jstate, goerr, unit) op" where
  "put_cache f s = (Inr (), (f (fst s), snd s))"

definition unlock :: "'w jwks_env \<Rightarrow> ('w jstate, goerr, unit) op" where
  "unlock e s = (Inr (), je_yield e s)"

definition jwks_fetch :: "'w jwks_env \<Rightarrow> ctx \<Rightarrow> string \<Rightarrow> ('w jstate, goerr, key_set) op" where
  "jwks_fetch e cx url =
     (case je_newRequest e url of
        Some err \<Rightarrow> failS (Wrap (''api: building JWKS request for '' @ url @ '': '') err)
      | None \<Rightarrow>
          bindS (map_errS (Wrap (''api: fetching JWKS from '' @ url @ '': '')) (je_do e cx url)) (\<lambda>resp.
          if hp_status resp \<noteq> 200
          then failS (ErrText (''api: fetching JWKS from '' @ url @ '': status '' @ itoa (hp_status resp)))
          else case hp_body resp of
            Inl err \<Rightarrow> failS (Wrap ''api: reading JWKS response: '' err)
          | Inr body \<Rightarrow> liftS (parseJWKS body)))"

definition enforceStaleness :: "'w jwks_env \<Rightarrow> ('w jstate, goerr, unit) op" where
  "enforceStaleness e =
     bindS get_cache (\<lambda>c.
     if jc_keys c = None then failS (ErrText ''api: JWKS cache not yet populated'')
     else bindS (jwks_now e) (\<lambda>t.
       let staleSince = time_sub t (jc_fetchedAt c) in
       if jc_maxStaleness c < staleSince
       then bindS (put_cache (\<lambda>c. c\<lparr>jc_staleAlerted := True\<rparr>)) (\<lambda>_.
         failS (Wrap2 ErrJWKSStale (ErrText (''stale for '' @ je_show e staleSince @ '' across '' @
           itoa (jc_consecutiveFailures c) @ '' consecutive failures''))))
       else retS ()))"

definition refresh :: "'w jwks_env \<Rightarrow> ctx \<Rightarrow> ('w jstate, goerr, unit) op" where
  "refresh e cx =
     bindS (jwks_now e) (\<lambda>t.
     bindS (put_cache (\<lambda>c. c\<lparr>jc_lastAttempt := t\<rparr>)) (\<lambda>_.
     bindS (unlock e) (\<lambda>_.
     bindS get_cache (\<lambda>c.
     catchS (jwks_fetch e cx (jc_url c))
       (\<lambda>err.
          bindS (put_cache (\<lambda>c. c\<lparr>jc_consecutiveFailures := wrap64 (jc_consecutiveFailures c + 1)\<rparr>)) (\<lambda>_.
          bindS get_cache (\<lambda>c.
          let noCache = (jc_keys c = None) in
          bindS (unlock e) (\<lambda>_.
          if noCache then failS (Wrap2 ErrJWKSUnreachable err)
          else enforceStaleness e))))
       (\<lambda>fresh.
          bindS (jwks_now e) (\<lambda>t.
          bindS (put_cache (\<lambda>c. c\<lparr>jc_keys := Some fresh, jc_fetchedAt := t, jc_consecutiveFailures := 0,
                                  jc_staleAlerted := False\<rparr>)) (\<lambda>_.
          unlock e)))))))"

definition lookupKey :: "string \<Rightarrow> ('w jstate, goerr, rsa_public_key option) op" where
  "lookupKey kid = bindS get_cache (\<lambda>c.
     retS (case jc_keys c of None \<Rightarrow> None | Some keys \<Rightarrow> keys kid))"

text \<open>The loop that drops expired reservations, reading the clock for each.\<close>

fun sweep_kids :: "'w jwks_env \<Rightarrow> (string, time) alist \<Rightarrow> ('w jstate, goerr, (string, time) alist) op" where
  "sweep_kids e [] = retS []"
| "sweep_kids e ((k, t) # al) =
     bindS (jwks_now e) (\<lambda>now.
     bindS (sweep_kids e al) (\<lambda>rest.
     retS (if jwksUnknownKidRefetchInterval \<le> time_sub now t then rest else (k, t) # rest)))"

definition reserveUnknownKidRetry :: "'w jwks_env \<Rightarrow> string \<Rightarrow> ('w jstate, goerr, bool) op" where
  "reserveUnknownKidRetry e kid =
     bindS get_cache (\<lambda>c.
     bindS (case map_of (jc_unknownKidRetryAt c) kid of
              None \<Rightarrow> retS False
            | Some t0 \<Rightarrow> bindS (jwks_now e) (\<lambda>t. retS (time_sub t t0 < jwksUnknownKidRefetchInterval))) (\<lambda>held.
     if held then retS False
     else bindS (sweep_kids e (jc_unknownKidRetryAt c)) (\<lambda>al.
       bindS (put_cache (\<lambda>c. c\<lparr>jc_unknownKidRetryAt := al\<rparr>)) (\<lambda>_.
       if jwksMaxTrackedUnknownKids \<le> length al then retS False
       else bindS (jwks_now e) (\<lambda>t.
         bindS (put_cache (\<lambda>c. c\<lparr>jc_unknownKidRetryAt := AList.update kid t al\<rparr>)) (\<lambda>_.
         retS True))))))"

definition refresh_due :: "'w jwks_env \<Rightarrow> ('w jstate, goerr, bool \<times> bool) op" where
  "refresh_due e =
     bindS get_cache (\<lambda>c.
     bindS (if jc_keys c = None then retS True
            else bindS (jwks_now e) (\<lambda>t. retS (jc_ttl c \<le> time_sub t (jc_fetchedAt c)))) (\<lambda>needsRefresh.
     bindS (jwks_now e) (\<lambda>t.
     retS (needsRefresh, jwksMinRefreshRetryInterval \<le> time_sub t (jc_lastAttempt c)))))"

definition no_key_error :: "string \<Rightarrow> goerr" where
  "no_key_error kid = ErrText (''api: no key found for kid '' @ go_quote kid)"

text \<open>\<open>_ = c.refresh(ctx)\<close>.\<close>

definition refresh_best_effort :: "'w jwks_env \<Rightarrow> ctx \<Rightarrow> ('w jstate, goerr, unit) op" where
  "refresh_best_effort e cx = catchS (refresh e cx) (\<lambda>_. retS ()) (\<lambda>_. retS ())"

definition KeyForKid :: "'w jwks_env \<Rightarrow> ctx \<Rightarrow> string \<Rightarrow> ('w jstate, goerr, rsa_public_key) op" where
  "KeyForKid e cx kid =
     bindS (refresh_due e) (\<lambda>(needsRefresh, canAttempt).
     bindS (unlock e) (\<lambda>_.
     bindS (if needsRefresh then (if canAttempt then refresh e cx else enforceStaleness e) else retS ()) (\<lambda>_.
     bindS (unlock e) (\<lambda>_.
     bindS (lookupKey kid) (\<lambda>found.
     case found of
       Some key \<Rightarrow> retS key
     | None \<Rightarrow>
         bindS (unlock e) (\<lambda>_.
         bindS (reserveUnknownKidRetry e kid) (\<lambda>reserved.
         if \<not> reserved then failS (no_key_error kid)
         else
           bindS (unlock e) (\<lambda>_.
           bindS (refresh_best_effort e cx) (\<lambda>_.
           bindS (unlock e) (\<lambda>_.
           bindS (lookupKey kid) (\<lambda>found.
           case found of
             Some key \<Rightarrow> retS key
           | None \<Rightarrow> failS (no_key_error kid))))))))))))"

text \<open>\<open>classifyJWKSFetchError\<close>, on the error's text.\<close>

definition classifyJWKSFetchError :: "goerr \<Rightarrow> string" where
  "classifyJWKSFetchError err =
     (let msg = err_msg err in
      if contains_str msg ''building JWKS request'' then ''request_build_error''
      else if contains_str msg ''status '' then ''http_status_error''
      else if contains_str msg ''reading JWKS response'' then ''response_read_error''
      else if contains_str msg ''parsing JWKS'' then ''response_parse_error''
      else if contains_str msg ''fetching JWKS from'' then ''network_error''
      else ''unknown'')"

subsection \<open>Interference, and failing closed\<close>

text \<open>
  \<open>advances clk\<close>: time does not run backwards, the configuration is fixed, the table of reservations
  stays within its bound, and the key set is either untouched or replaced by one fetched after the
  earlier state. \<open>jwks_env_ok\<close> asks this of the other goroutines and of the clock.
\<close>

definition advances :: "('w \<Rightarrow> time) \<Rightarrow> 'w jstate \<Rightarrow> 'w jstate \<Rightarrow> bool" where
  "advances clk s s' \<longleftrightarrow>
     clk (snd s) \<le> clk (snd s') \<and> jc_ttl (fst s') = jc_ttl (fst s) \<and>
     jc_maxStaleness (fst s') = jc_maxStaleness (fst s) \<and>
     (length (jc_unknownKidRetryAt (fst s)) \<le> jwksMaxTrackedUnknownKids \<longrightarrow>
      length (jc_unknownKidRetryAt (fst s')) \<le> jwksMaxTrackedUnknownKids) \<and>
     (jc_keys (fst s') = jc_keys (fst s) \<and> jc_fetchedAt (fst s') = jc_fetchedAt (fst s) \<or>
      jc_keys (fst s') \<noteq> None \<and> clk (snd s) \<le> jc_fetchedAt (fst s'))"

definition jwks_env_ok :: "('w \<Rightarrow> time) \<Rightarrow> 'w jwks_env \<Rightarrow> bool" where
  "jwks_env_ok clk e \<longleftrightarrow>
     (\<forall>w. clk w \<le> fst (je_now e w) \<and> fst (je_now e w) \<le> clk (snd (je_now e w))) \<and>
     (\<forall>s. advances clk s (je_yield e s)) \<and> (\<forall>cx url. moves (advances clk) (je_do e cx url))"

lemma advances_refl: "advances clk s s" by (simp add: advances_def)

lemma advances_trans: "advances clk s t \<Longrightarrow> advances clk t u \<Longrightarrow> advances clk s u"
  unfolding advances_def by fastforce

interpretation jwks: rely "advances clk" for clk :: "'w \<Rightarrow> time"
  by unfold_locales (fact advances_refl, fact advances_trans)

lemma env_okD:
  assumes "jwks_env_ok clk e"
  shows "je_now e w = (t, w') \<Longrightarrow> clk w \<le> t \<and> t \<le> clk w'" "advances clk s (je_yield e s)"
    "moves (advances clk) (je_do e cx url)"
  using assms unfolding jwks_env_ok_def by (metis fst_conv snd_conv)+

lemma moves_jwks_now: "jwks_env_ok clk e \<Longrightarrow> moves (advances clk) (jwks_now e)"
  by (auto simp: jwks_now_def moves_def advances_def split: prod.split dest!: env_okD(1))

lemma moves_get_cache: "moves (advances clk) get_cache"
  by (simp add: get_cache_def moves_def advances_refl)

lemma moves_unlock: "jwks_env_ok clk e \<Longrightarrow> moves (advances clk) (unlock e)"
  by (simp add: unlock_def moves_def env_okD(2))

definition keeps_keys :: "(jwks_cache \<Rightarrow> jwks_cache) \<Rightarrow> bool" where
  "keeps_keys f \<longleftrightarrow> (\<forall>c. jc_ttl (f c) = jc_ttl c \<and> jc_maxStaleness (f c) = jc_maxStaleness c \<and>
     jc_keys (f c) = jc_keys c \<and> jc_fetchedAt (f c) = jc_fetchedAt c \<and>
     (length (jc_unknownKidRetryAt c) \<le> jwksMaxTrackedUnknownKids \<longrightarrow>
      length (jc_unknownKidRetryAt (f c)) \<le> jwksMaxTrackedUnknownKids))"

lemma moves_put_cache: "keeps_keys f \<Longrightarrow> moves (advances clk) (put_cache f)"
  by (auto simp: put_cache_def moves_def advances_def keeps_keys_def)

lemmas jwks_moves = jwks.moves_rules moves_jwks_now moves_get_cache moves_unlock moves_put_cache env_okD(3)

lemma moves_fetch: "jwks_env_ok clk e \<Longrightarrow> moves (advances clk) (jwks_fetch e cx url)"
  unfolding jwks_fetch_def by (auto intro!: jwks_moves split: option.split sum.split)

lemma moves_enforce: "jwks_env_ok clk e \<Longrightarrow> moves (advances clk) (enforceStaleness e)"
  unfolding enforceStaleness_def Let_def by (auto intro!: jwks_moves simp: keeps_keys_def)

text \<open>The critical section of a successful fetch: the key set with the time it was read.\<close>

definition store_keys :: "'w jwks_env \<Rightarrow> key_set \<Rightarrow> ('w jstate, goerr, unit) op" where
  "store_keys e fresh = bindS (jwks_now e) (\<lambda>t. put_cache (\<lambda>c. c\<lparr>jc_keys := Some fresh, jc_fetchedAt := t,
     jc_consecutiveFailures := 0, jc_staleAlerted := False\<rparr>))"

lemma store_keys_step:
  assumes "jwks_env_ok clk e" "store_keys e fresh s = (r, s')"
  shows "advances clk s s' \<and> jc_keys (fst s') = Some fresh \<and> clk (snd s) \<le> jc_fetchedAt (fst s')"
proof -
  obtain t w where n: "je_now e (snd s) = (t, w)" by fastforce
  have "s' = ((fst s)\<lparr>jc_keys := Some fresh, jc_fetchedAt := t, jc_consecutiveFailures := 0,
      jc_staleAlerted := False\<rparr>, w)"
    using assms(2) by (simp add: store_keys_def bindS_def jwks_now_def n put_cache_def)
  then show ?thesis using env_okD(1) [OF assms(1) n] by (auto simp: advances_def)
qed

lemma refresh_alt:
  "refresh e cx =
     bindS (jwks_now e) (\<lambda>t.
     bindS (put_cache (\<lambda>c. c\<lparr>jc_lastAttempt := t\<rparr>)) (\<lambda>_.
     bindS (unlock e) (\<lambda>_.
     bindS get_cache (\<lambda>c.
     catchS (jwks_fetch e cx (jc_url c))
       (\<lambda>err.
          bindS (put_cache (\<lambda>c. c\<lparr>jc_consecutiveFailures := wrap64 (jc_consecutiveFailures c + 1)\<rparr>)) (\<lambda>_.
          bindS get_cache (\<lambda>c.
          bindS (unlock e) (\<lambda>_.
          if jc_keys c = None then failS (Wrap2 ErrJWKSUnreachable err)
          else enforceStaleness e))))
       (\<lambda>fresh. bindS (store_keys e fresh) (\<lambda>_. unlock e))))))"
  unfolding refresh_def store_keys_def Let_def bindS_assoc ..

lemma moves_refresh:
  assumes "jwks_env_ok clk e" shows "moves (advances clk) (refresh e cx)"
proof -
  have "moves (advances clk) (store_keys e fresh)" for fresh
    using store_keys_step [OF assms] by (blast intro: movesI)
  then show ?thesis
    unfolding refresh_alt
    by (auto intro!: jwks_moves moves_fetch moves_enforce assms simp: keeps_keys_def)
qed

lemma jwks_now_Inr:
  obtains t w where "jwks_now e s = (Inr t, (fst s, w))"
  by (cases "je_now e (snd s)") (simp add: jwks_now_def)

lemma moves_best_effort: "jwks_env_ok clk e \<Longrightarrow> moves (advances clk) (refresh_best_effort e cx)"
  unfolding refresh_best_effort_def by (auto intro!: jwks_moves moves_refresh)

lemma sweep_kids_step:
  assumes "jwks_env_ok clk e" "sweep_kids e al s = (r, s')"
  shows "advances clk s s' \<and> (\<exists>al'. r = Inr al' \<and> length al' \<le> length al \<and> set al' \<subseteq> set al) \<and> fst s' = fst s"
  using assms(2)
proof (induction al arbitrary: s r s')
  case Nil
  then show ?case by (simp add: advances_refl)
next
  case (Cons x al)
  obtain k t where x: "x = (k, t)" by fastforce
  obtain now s1 where n: "jwks_now e s = (Inr now, s1)" "fst s1 = fst s"
    by (metis jwks_now_Inr fst_conv)
  have a1: "advances clk s s1" by (rule movesD [OF moves_jwks_now [OF assms(1)] n(1)])
  obtain r2 s2 where sw: "sweep_kids e al s1 = (r2, s2)" by (cases "sweep_kids e al s1")
  obtain al' where al': "r2 = Inr al'" "length al' \<le> length al" "set al' \<subseteq> set al" "advances clk s1 s2" "fst s2 = fst s1"
    using Cons.IH [OF sw] by blast
  have "s' = s2" "r = Inr (if jwksUnknownKidRefetchInterval \<le> time_sub now t then al' else (k, t) # al')"
    using Cons.prems n sw al'(1) by (simp_all add: x bindS_def)
  then show ?case using al' n(2) advances_trans [OF a1 al'(4)] x by auto
qed

lemma length_update_le: "length (AList.update k v al) \<le> Suc (length al)"
  by (induction al) auto

text \<open>The reservation: its answer and what it does to the table.\<close>

lemma reserve_eq:
  assumes "jwks_env_ok clk e"
  obtains held s1 al s2 t w4 where
    "advances clk s s1" "fst s1 = fst s"
    "\<not> held \<longrightarrow> (\<forall>t0. map_of (jc_unknownKidRetryAt (fst s)) kid = Some t0 \<longrightarrow>
       (\<exists>now \<le> clk (snd s1). jwksUnknownKidRefetchInterval \<le> time_sub now t0))"
    "sweep_kids e (jc_unknownKidRetryAt (fst s)) s1 = (Inr al, s2)"
    "je_now e (snd s2) = (t, w4)"
    "reserveUnknownKidRetry e kid s =
      (if held then (Inr False, s1)
       else if jwksMaxTrackedUnknownKids \<le> length al
         then (Inr False, ((fst s)\<lparr>jc_unknownKidRetryAt := al\<rparr>, snd s2))
       else (Inr True, ((fst s)\<lparr>jc_unknownKidRetryAt := AList.update kid t al\<rparr>, w4)))"
proof -
  let ?held = "case map_of (jc_unknownKidRetryAt (fst s)) kid of None \<Rightarrow> retS False
      | Some t0 \<Rightarrow> bindS (jwks_now e) (\<lambda>t. retS (time_sub t t0 < jwksUnknownKidRefetchInterval))"
  obtain held s1 where h: "?held s = (Inr held, s1)" "fst s1 = fst s" "advances clk s s1"
      "\<not> held \<longrightarrow> (\<forall>t0. map_of (jc_unknownKidRetryAt (fst s)) kid = Some t0 \<longrightarrow>
         (\<exists>now \<le> clk (snd s1). jwksUnknownKidRefetchInterval \<le> time_sub now t0))"
  proof (cases "map_of (jc_unknownKidRetryAt (fst s)) kid")
    case (Some t0)
    obtain t w where n: "je_now e (snd s) = (t, w)" by fastforce
    have "clk (snd s) \<le> t \<and> t \<le> clk w" by (rule env_okD(1) [OF assms n])
    then show thesis
      by (intro that [of "time_sub t t0 < jwksUnknownKidRefetchInterval" "(fst s, w)"])
        (use Some n in \<open>auto simp: bindS_def jwks_now_def advances_def\<close>)
  next
    case None
    then show thesis by (intro that [of False s]) (simp_all add: advances_refl)
  qed
  obtain al s2 where sw: "sweep_kids e (jc_unknownKidRetryAt (fst s)) s1 = (Inr al, s2)" "fst s2 = fst s1"
    using sweep_kids_step [OF assms] by (metis (no_types, lifting) surj_pair)
  obtain t w4 where n: "je_now e (snd s2) = (t, w4)" by fastforce
  show thesis
    by (rule that [OF h(3,2,4) sw(1) n])
      (use h sw n in \<open>auto simp: reserveUnknownKidRetry_def bindS_def get_cache_def put_cache_def jwks_now_def\<close>)
qed

lemma reserve_step:
  assumes "jwks_env_ok clk e" "reserveUnknownKidRetry e kid s = (r, s')"
  shows "advances clk s s' \<and> jc_keys (fst s') = jc_keys (fst s) \<and> jc_fetchedAt (fst s') = jc_fetchedAt (fst s)"
proof -
  obtain held s1 al s2 t w4 where h: "advances clk s s1" "fst s1 = fst s"
    "sweep_kids e (jc_unknownKidRetryAt (fst s)) s1 = (Inr al, s2)"
    "je_now e (snd s2) = (t, w4)"
    "reserveUnknownKidRetry e kid s =
      (if held then (Inr False, s1)
       else if jwksMaxTrackedUnknownKids \<le> length al
         then (Inr False, ((fst s)\<lparr>jc_unknownKidRetryAt := al\<rparr>, snd s2))
       else (Inr True, ((fst s)\<lparr>jc_unknownKidRetryAt := AList.update kid t al\<rparr>, w4)))"
    by (rule reserve_eq [OF assms(1), of s kid])
  have sw: "advances clk s1 s2" "length al \<le> length (jc_unknownKidRetryAt (fst s))"
    using sweep_kids_step [OF assms(1) h(3)] by auto
  show ?thesis
    using assms(2) unfolding h(5)
    using advances_trans [OF h(1) sw(1)] sw(2) h(1,2) env_okD(1) [OF assms(1) h(4)] length_update_le [of kid t al]
    by (auto simp: advances_def split: if_splits)
qed

lemma moves_KeyForKid:
  assumes "jwks_env_ok clk e" shows "moves (advances clk) (KeyForKid e cx kid)"
proof -
  have r: "moves (advances clk) (reserveUnknownKidRetry e kid)"
    using reserve_step [OF assms] by (blast intro: movesI)
  show ?thesis
    unfolding KeyForKid_def refresh_due_def lookupKey_def
    by (auto intro!: jwks_moves moves_refresh moves_best_effort moves_enforce r assms split: option.split)
qed

text \<open>\<open>usable clk T s\<close>: the cached keys were fetched no longer than the staleness bound before \<open>T\<close>.\<close>

definition usable :: "('w \<Rightarrow> time) \<Rightarrow> time \<Rightarrow> 'w jstate \<Rightarrow> bool" where
  "usable clk T s \<longleftrightarrow> T \<le> clk (snd s) \<and> jc_keys (fst s) \<noteq> None \<and>
     T - jc_maxStaleness (fst s) \<le> jc_fetchedAt (fst s) \<and> 0 \<le> jc_maxStaleness (fst s)"

lemma usable_advances: "usable clk T s \<Longrightarrow> advances clk s s' \<Longrightarrow> usable clk T s'"
  by (auto simp: usable_def advances_def)

lemma enforce_ok:
  assumes "jwks_env_ok clk e" "enforceStaleness e s = (Inr (), s')"
    and "T \<le> clk (snd s)" "0 \<le> jc_maxStaleness (fst s)" "jc_maxStaleness (fst s) < max_duration"
  shows "usable clk T s'"
proof -
  obtain t w where n: "je_now e (snd s) = (t, w)" by fastforce
  have k: "jc_keys (fst s) \<noteq> None" "\<not> jc_maxStaleness (fst s) < time_sub t (jc_fetchedAt (fst s))" "s' = (fst s, w)"
    using assms(2) by (auto simp: enforceStaleness_def bindS_def get_cache_def jwks_now_def n put_cache_def Let_def
        split: if_splits)
  have "t \<le> jc_fetchedAt (fst s) + jc_maxStaleness (fst s)"
    using k(2) assms(4,5) time_sub_gt_iff [of "jc_maxStaleness (fst s)" t "jc_fetchedAt (fst s)"]
    by (simp add: min_duration_def)
  then show ?thesis using k(1,3) env_okD(1) [OF assms(1) n] assms(3,4) by (auto simp: usable_def)
qed

lemma refresh_ok:
  assumes "jwks_env_ok clk e" "refresh e cx s = (Inr (), s')"
    and "T \<le> clk (snd s)" "0 \<le> jc_maxStaleness (fst s)" "jc_maxStaleness (fst s) < max_duration"
  shows "usable clk T s'"
proof -
  have stay: "T \<le> clk (snd u) \<and> 0 \<le> jc_maxStaleness (fst u) \<and> jc_maxStaleness (fst u) < max_duration"
    if "advances clk s u" for u using that assms(3-5) by (auto simp: advances_def)
  let ?pre = "bindS (jwks_now e) (\<lambda>t. bindS (put_cache (\<lambda>c. c\<lparr>jc_lastAttempt := t\<rparr>)) (\<lambda>_. bindS (unlock e) (\<lambda>_. get_cache)))"
  have mpre: "moves (advances clk) ?pre" by (auto intro!: jwks_moves assms(1) simp: keeps_keys_def)
  obtain c s1 where pre: "?pre s = (Inr c, s1)" and
    rest: "catchS (jwks_fetch e cx (jc_url c))
       (\<lambda>err.
          bindS (put_cache (\<lambda>c. c\<lparr>jc_consecutiveFailures := wrap64 (jc_consecutiveFailures c + 1)\<rparr>)) (\<lambda>_.
          bindS get_cache (\<lambda>c.
          bindS (unlock e) (\<lambda>_.
          if jc_keys c = None then failS (Wrap2 ErrJWKSUnreachable err)
          else enforceStaleness e))))
       (\<lambda>fresh. bindS (store_keys e fresh) (\<lambda>_. unlock e)) s1 = (Inr (), s')"
    using assms(2) by (simp add: refresh_alt bindS_eq_Inr bindS_assoc) blast
  have a1: "advances clk s s1" by (rule movesD [OF mpre pre])
  obtain f s2 where f: "jwks_fetch e cx (jc_url c) s1 = (f, s2)" by (cases "jwks_fetch e cx (jc_url c) s1")
  have a2: "advances clk s s2" using advances_trans [OF a1 movesD [OF moves_fetch [OF assms(1)] f]] .
  show ?thesis
  proof (cases f)
    case (Inl err)
    define f where "f = (\<lambda>c :: jwks_cache. c\<lparr>jc_consecutiveFailures := wrap64 (jc_consecutiveFailures c + 1)\<rparr>)"
    define s3 where "s3 = je_yield e (f (fst s2), snd s2)"
    have "enforceStaleness e s3 = (Inr (), s')"
      using rest \<open>jwks_fetch e cx (jc_url c) s1 = (_, s2)\<close> Inl
      by (simp add: catchS_def put_cache_def get_cache_def unlock_def bindS_def s3_def f_def split: if_splits)
    moreover have "advances clk s2 (f (fst s2), snd s2)" by (simp add: advances_def f_def)
    then have "advances clk s s3"
      using advances_trans [OF a2 advances_trans] env_okD(2) [OF assms(1)] by (simp add: s3_def)
    ultimately show ?thesis using enforce_ok [OF assms(1)] stay by blast
  next
    case (Inr fresh)
    obtain s3 where st: "store_keys e fresh s2 = (Inr (), s3)" "unlock e s3 = (Inr (), s')"
      using rest f Inr by (auto simp: catchS_def bindS_eq_Inr)
    have "usable clk T s3"
      using store_keys_step [OF assms(1) st(1)] stay [OF a2] by (auto simp: usable_def advances_def)
    then show ?thesis using usable_advances movesD [OF moves_unlock [OF assms(1)] st(2)] by blast
  qed
qed

lemma refresh_due_no:
  assumes "jwks_env_ok clk e" "refresh_due e s = (Inr (False, a), s')"
    and "jc_ttl (fst s) \<le> jc_maxStaleness (fst s)" "0 < jc_ttl (fst s)" "jc_maxStaleness (fst s) < max_duration"
  shows "usable clk (clk (snd s)) s'"
proof -
  obtain t w where n: "je_now e (snd s) = (t, w)" by fastforce
  obtain t2 w2 where n2: "je_now e w = (t2, w2)" by fastforce
  have k: "jc_keys (fst s) \<noteq> None" "\<not> jc_ttl (fst s) \<le> time_sub t (jc_fetchedAt (fst s))" "s' = (fst s, w2)"
    using assms(2) by (auto simp: refresh_due_def bindS_def get_cache_def jwks_now_def n n2 split: if_splits)
  have "t < jc_fetchedAt (fst s) + jc_ttl (fst s)"
    using k(2) assms(3-5) time_sub_ge_iff [of "jc_ttl (fst s)" t "jc_fetchedAt (fst s)"]
    by (simp add: min_duration_def)
  then show ?thesis
    using k(1,3) env_okD(1) [OF assms(1) n] env_okD(1) [OF assms(1) n2] assms(3,4) by (simp add: usable_def)
qed

lemma KeyForKid_fresh:
  assumes "jwks_env_ok clk e" "KeyForKid e cx kid (c, w) = (Inr key, (c', w'))"
    and "0 < jc_ttl c" "jc_ttl c \<le> jc_maxStaleness c" "jc_maxStaleness c < max_duration"
  shows "\<exists>keys. jc_keys c' = Some keys \<and> keys kid = Some key \<and> clk w - jc_maxStaleness c \<le> jc_fetchedAt c'"
proof -
  let ?T = "clk w" and ?s = "(c, w)"
  note ok = assms(1)
  obtain nr ca s1 s2 u s3 s4 found s5 where
    st: "refresh_due e ?s = (Inr (nr, ca), s1)" "unlock e s1 = (Inr (), s2)"
      "(if nr then (if ca then refresh e cx else enforceStaleness e) else retS ()) s2 = (Inr u, s3)"
      "unlock e s3 = (Inr (), s4)" "lookupKey kid s4 = (Inr found, s5)" and
    rest: "(case found of Some key \<Rightarrow> retS key | None \<Rightarrow>
         bindS (unlock e) (\<lambda>_.
         bindS (reserveUnknownKidRetry e kid) (\<lambda>reserved.
         if \<not> reserved then failS (no_key_error kid)
         else
           bindS (unlock e) (\<lambda>_.
           bindS (refresh_best_effort e cx) (\<lambda>_.
           bindS (unlock e) (\<lambda>_.
           bindS (lookupKey kid) (\<lambda>found.
           case found of
             Some key \<Rightarrow> retS key
           | None \<Rightarrow> failS (no_key_error kid)))))))) s5 = (Inr key, (c', w'))"
    using assms(2) unfolding KeyForKid_def by (auto simp: bindS_eq_Inr)
  have mdue: "moves (advances clk) (refresh_due e)"
    unfolding refresh_due_def by (auto intro!: jwks_moves ok)
  have a1: "advances clk ?s s1" by (rule movesD [OF mdue st(1)])
  have a2: "advances clk s1 s2" by (rule movesD [OF moves_unlock [OF ok] st(2)])
  have a4: "advances clk s3 s4" by (rule movesD [OF moves_unlock [OF ok] st(4)])
  have cfg: "?T \<le> clk (snd s2)" "0 \<le> jc_maxStaleness (fst s2)" "jc_maxStaleness (fst s2) < max_duration"
    using advances_trans [OF a1 a2] assms(3-5) by (auto simp: advances_def)
  have "usable clk ?T s3"
  proof (cases nr)
    case True
    then show ?thesis using st(3) refresh_ok [OF ok _ cfg] enforce_ok [OF ok _ cfg] by (cases ca) auto
  next
    case False
    then have "usable clk ?T s1" using refresh_due_no [OF ok, of ?s ca s1] st(1) assms(3-5) by simp
    then show ?thesis using st(3) False usable_advances [OF _ a2] by simp
  qed
  then have u4: "usable clk ?T s4" by (rule usable_advances [OF _ a4])
  have lk: "s' = s \<and> (r = Inr (Some k) \<longrightarrow> (\<exists>keys. jc_keys (fst s) = Some keys \<and> keys kid = Some k))"
    if "lookupKey kid s = (r, s')" for s s' :: "'w jstate" and r k
    using that by (auto simp: lookupKey_def bindS_def get_cache_def split: option.splits)
  have fin: ?thesis if "usable clk ?T s" "lookupKey kid s = (Inr (Some key), (c', w'))" for s
  proof -
    have s: "s = (c', w')" using lk [OF that(2)] by simp
    have "jc_maxStaleness c' = jc_maxStaleness c"
      using movesD [OF moves_KeyForKid [OF ok] assms(2)] by (simp add: advances_def)
    then show ?thesis using lk [OF that(2)] that(1) by (auto simp: s usable_def)
  qed
  show ?thesis
  proof (cases found)
    case (Some k)
    then show ?thesis using rest st(5) fin [OF u4] by simp
  next
    case None
    obtain s6 got s7 where st2: "unlock e s5 = (Inr (), s6)" "reserveUnknownKidRetry e kid s6 = (Inr got, s7)" and
      rest2: "(if \<not> got then failS (no_key_error kid) else
           bindS (unlock e) (\<lambda>_.
           bindS (refresh_best_effort e cx) (\<lambda>_.
           bindS (unlock e) (\<lambda>_.
           bindS (lookupKey kid) (\<lambda>found.
           case found of
             Some key \<Rightarrow> retS key
           | None \<Rightarrow> failS (no_key_error kid)))))) s7 = (Inr key, (c', w'))"
      using rest None by (simp add: bindS_eq_Inr) blast
    have got: got using rest2 by (cases got) simp_all
    obtain s8 s9 s10 k s11 where st3: "unlock e s7 = (Inr (), s8)" "refresh_best_effort e cx s8 = (Inr (), s9)"
        "unlock e s9 = (Inr (), s10)" "lookupKey kid s10 = (Inr k, s11)"
        "(case k of Some key \<Rightarrow> retS key | None \<Rightarrow> failS (no_key_error kid)) s11 = (Inr key, (c', w'))"
      using rest2 got by (simp add: bindS_eq_Inr) blast
    have lk3: "lookupKey kid s10 = (Inr (Some key), (c', w'))" using st3(4,5) by (cases k) simp_all
    have "advances clk s8 s9" by (rule movesD [OF moves_best_effort [OF ok] st3(2)])
    moreover have "advances clk s6 s7" using reserve_step [OF ok st2(2)] by simp
    ultimately have "usable clk ?T s10"
      using u4 lk [OF st(5)] movesD [OF moves_unlock [OF ok]] st2(1) st3(1,3) usable_advances by metis
    then show ?thesis by (rule fin) (rule lk3)
  qed
qed

end
