(* ===== verification/SigningKey.thy ===== *)
theory SigningKey
  imports Jwks
begin

section \<open>internal/api/signingkey.go and jwksendpoint.go: the issuer's side of the key set\<close>

text \<open>
  Reading the file, PEM, the two DER parsers, the PKIX encoder and SHA-256 are the standard library's and
  are fields of \<open>key_io\<close>. \<open>jwks_json\<close> is what \<open>encoding/json\<close> writes for a \<open>jwksResponse\<close>, as a
  syntax tree. An RSA private key is its public part and an opaque private part \<open>'k\<close>.
\<close>

record 'k rsa_private_key =
  rk_Public :: rsa_public_key
  rk_Private :: 'k

record 'k key_io =
  ki_ReadFile :: "string \<Rightarrow> goerr + string"
  ki_pem_Decode :: "string \<Rightarrow> string option"
  ki_ParsePKCS1 :: "string \<Rightarrow> goerr + 'k rsa_private_key"
  ki_ParsePKCS8 :: "string \<Rightarrow> goerr + 'k rsa_private_key option" \<comment> \<open>\<open>None\<close>: a key that is not RSA\<close>
  ki_MarshalPKIX :: "rsa_public_key \<Rightarrow> goerr + string"
  ki_sha256 :: "string \<Rightarrow> string"

record 'k signing_key =
  sk_Private :: "'k rsa_private_key"
  sk_Kid :: string

definition parseRSAPrivateKey :: "'k key_io \<Rightarrow> string \<Rightarrow> goerr + 'k rsa_private_key" where
  "parseRSAPrivateKey io der =
     (case ki_ParsePKCS1 io der of
        Inr key \<Rightarrow> Inr key
      | Inl _ \<Rightarrow> (case ki_ParsePKCS8 io der of
          Inl err \<Rightarrow> Inl (Wrap ''not a PKCS#1 or PKCS#8 RSA private key: '' err)
        | Inr None \<Rightarrow> Inl (ErrText ''PKCS#8 key is not an RSA private key'')
        | Inr (Some key) \<Rightarrow> Inr key))"

definition LoadSigningKey :: "'k key_io \<Rightarrow> string \<Rightarrow> goerr + 'k signing_key" where
  "LoadSigningKey io path =
     (case ki_ReadFile io path of
        Inl err \<Rightarrow> Inl (Wrap (''api: reading signing key '' @ go_quote path @ '': '') err)
      | Inr contents \<Rightarrow> (case ki_pem_Decode io contents of
          None \<Rightarrow> Inl (ErrText (''api: signing key '' @ go_quote path @ '' is not valid PEM''))
        | Some block \<Rightarrow> (case parseRSAPrivateKey io block of
            Inl err \<Rightarrow> Inl (Wrap (''api: parsing signing key '' @ go_quote path @ '': '') err)
          | Inr priv \<Rightarrow> (case ki_MarshalPKIX io (rk_Public priv) of
              Inl err \<Rightarrow> Inl (Wrap ''api: marshaling public key for kid derivation: '' err)
            | Inr pubDER \<Rightarrow>
                Inr \<lparr>sk_Private = priv, sk_Kid = take 16 (b64_encode url_alphabet (ki_sha256 io pubDER))\<rparr>))))"

text \<open>The loop that drops leading zero bytes, down to one byte.\<close>

fun drop_zeros :: "string \<Rightarrow> string" where
  "drop_zeros (a # b # s) = (if byte a = 0 then drop_zeros (b # s) else a # b # s)"
| "drop_zeros s = s"

definition byte_of_int :: "int \<Rightarrow> char" where
  "byte_of_int n = char_of (nat (n mod 256))"

definition bigEndianExponentBytes :: "int \<Rightarrow> string" where
  "bigEndianExponentBytes e =
     drop_zeros [byte_of_int (e div 65536), byte_of_int (e div 256), byte_of_int e]"

definition jwtAlgorithm :: string where "jwtAlgorithm = ''RS256''"

definition SigningKey_JWKS :: "'k signing_key \<Rightarrow> jwk list" where
  "SigningKey_JWKS k =
     (let pub = rk_Public (sk_Private k) in
      [\<lparr>jwk_Kty = ''RSA'', jwk_Kid = sk_Kid k, jwk_Alg = jwtAlgorithm, jwk_Use = ''sig'',
        jwk_N = b64_encode url_alphabet (val_bytes (pk_N pub)),
        jwk_E = b64_encode url_alphabet (bigEndianExponentBytes (pk_E pub))\<rparr>])"

definition jwk_json :: "jwk \<Rightarrow> json" where
  "jwk_json k = JObj [(''kty'', JStr (jwk_Kty k)), (''kid'', JStr (jwk_Kid k)), (''alg'', JStr (jwk_Alg k)),
     (''use'', JStr (jwk_Use k)), (''n'', JStr (jwk_N k)), (''e'', JStr (jwk_E k))]"

definition jwks_json :: "jwk list \<Rightarrow> json" where
  "jwks_json ks = JObj [(''keys'', JArr (map jwk_json ks))]"

definition jwksCacheControlMaxAge :: string where "jwksCacheControlMaxAge = ''max-age=300''"

subsection \<open>What the issuer publishes is what the verifier reads\<close>

lemma decode_jwk: "decode_struct False jwk_fields zero_jwk (Doc (jwk_json k)) = Some k"
  by (cases k) (simp add: decode_struct_def jwk_json_def find_field_def jwk_fields_def dec_str_def zero_jwk_def)

lemma dec_structs_jwk: "dec_structs jwk_fields zero_jwk (map jwk_json ks) = Some ks"
  by (induction ks) (simp_all add: decode_jwk)

lemma parse_jwks_json: "parseJWKS (Doc (jwks_json ks)) = jwks_keys ks Map.empty"
  by (simp add: parseJWKS_def jwks_json_def decode_struct_def find_field_def jwks_response_fields_def
      dec_slice_def dec_structs_jwk)

lemma bytes_val_Cons0: "byte c = 0 \<Longrightarrow> bytes_val (c # s) = bytes_val s"
  by (simp add: bytes_val_def)

lemma bytes_val_drop_zeros: "bytes_val (drop_zeros s) = bytes_val s"
  by (induction s rule: drop_zeros.induct) (auto simp: bytes_val_Cons0)

lemma byte_of_int [simp]: "byte (byte_of_int n) = nat (n mod 256)"
  by (simp add: byte_of_int_def nat_less_iff)

text \<open>The exponent survives exactly when it fits the three bytes the encoder writes.\<close>

lemma exponent_bytes_val:
  assumes "0 \<le> n"
  shows "bytes_val (bigEndianExponentBytes n) = nat (n mod 16777216)"
proof -
  define q where "q = n div 256"
  have d: "n div 65536 = q div 256"
  proof -
    have "n div (256 * 256) = n div 256 div 256" by (rule zdiv_zmult2_eq) simp
    then show ?thesis by (simp add: q_def)
  qed
  have "n mod (256 * 65536) = 256 * (q mod 65536) + n mod 256" unfolding q_def by (rule zmod_zmult2_eq) simp
  moreover have "q mod (256 * 256) = 256 * (q div 256 mod 256) + q mod 256" by (rule zmod_zmult2_eq) simp
  ultimately have m: "n mod 16777216 = 65536 * (q div 256 mod 256) + 256 * (q mod 256) + n mod 256" by simp
  have "bytes_val (bigEndianExponentBytes n) =
      256 * (256 * nat (q div 256 mod 256) + nat (q mod 256)) + nat (n mod 256)"
    unfolding bigEndianExponentBytes_def bytes_val_drop_zeros d
    by (simp add: bytes_val_def q_def [symmetric])
  also have "\<dots> = nat (n mod 16777216)" unfolding m
    by (simp add: nat_add_distrib nat_mult_distrib)
  finally show ?thesis .
qed

lemma publish_parse:
  assumes "sk_Kid k \<noteq> []" "0 \<le> pk_E (rk_Public (sk_Private k))" "pk_E (rk_Public (sk_Private k)) < 2 ^ 24"
  shows "parseJWKS (Doc (jwks_json (SigningKey_JWKS k))) = Inr [sk_Kid k \<mapsto> rk_Public (sk_Private k)]"
proof -
  have "\<not> 9223372036854775808 \<le> nat (pk_E (rk_Public (sk_Private k)))" using assms(3) by simp
  then show ?thesis
    using assms
    by (cases "rk_Public (sk_Private k)")
      (simp add: parse_jwks_json SigningKey_JWKS_def Let_def rsaPublicKeyFromJWK_def b64_decode_encode exponent_bytes_val)
qed

text \<open>
  C40. The verifier reads back the very key the issuer publishes: for a signing key with a non-empty kid and a
  public exponent below \<open>2^24\<close>, parsing the published document gives exactly one key, under that kid, equal to
  the issuer's public key.
\<close>
theorem jwks_publish_parse:
  assumes "sk_Kid k \<noteq> []" "0 \<le> pk_E (rk_Public (sk_Private k))" "pk_E (rk_Public (sk_Private k)) < 2 ^ 24"
  shows "parseJWKS (Doc (jwks_json (SigningKey_JWKS k))) = Inr [sk_Kid k \<mapsto> rk_Public (sk_Private k)]"
  using assms by (rule publish_parse)

text \<open>An exponent of \<open>2^24\<close> or more is published truncated.\<close>

lemma exponent_truncated:
  "bytes_val (bigEndianExponentBytes (2 ^ 24 + 1)) = 1"
  by (simp add: exponent_bytes_val)

definition demo_signing_key :: "unit signing_key" where
  "demo_signing_key = \<lparr>sk_Private = \<lparr>rk_Public = \<lparr>pk_N = 3233, pk_E = 65537\<rparr>, rk_Private = ()\<rparr>, sk_Kid = ''k1''\<rparr>"

theorem jwks_publish_parse_witness:
  "parseJWKS (Doc (jwks_json (SigningKey_JWKS demo_signing_key))) = Inr [''k1'' \<mapsto> \<lparr>pk_N = 3233, pk_E = 65537\<rparr>]"
  using jwks_publish_parse [of demo_signing_key] by (simp add: demo_signing_key_def)

end
