(* ===== verification/JwtMiddleware.thy ===== *)
theory JwtMiddleware
  imports Handlers SigningKey "HOL-Library.FSet"
begin

section \<open>internal/api/jwtmiddleware.go: bearer-token verification\<close>

text \<open>
  The JWT library is a parameter: \<open>jl_parse\<close> is \<open>jwt.ParseWithClaims\<close> with the two options the code sets,
  the allowed algorithms and the required issuer, and the key function as an operation it may call.
  \<open>jwt_lib_ok\<close> states what is documented of it: a token accepted as valid has an allowed algorithm, names
  the required issuer, is not expired, and its signature verifies under the key that its key function returned for its
  header. The middleware itself, the key function, the audience, subject and scope checks and the
  deadline are the program's and are modelled.
\<close>

record jwt_header =
  jh_alg :: string
  jh_kid :: "string option" \<comment> \<open>\<open>None\<close>: absent or not a string\<close>

record jwt_claims =
  cl_Scope :: string
  cl_Subject :: string
  cl_Issuer :: string
  cl_Audience :: "string list"
  cl_IssuedAt :: "time option"
  cl_ExpiresAt :: "time option"
  cl_ID :: string

type_synonym 's keyfunc = "jwt_header \<Rightarrow> ('s, goerr, rsa_public_key) op"

type_synonym 's jwt_parse =
  "string list \<Rightarrow> string \<Rightarrow> 's keyfunc \<Rightarrow> string \<Rightarrow> ('s, goerr, jwt_claims \<times> bool) op"

type_synonym 's key_source = "ctx \<Rightarrow> string \<Rightarrow> ('s, goerr, rsa_public_key) op"

record 's jwt_verifier =
  jv_parse :: "'s jwt_parse"
  jv_keys :: "'s key_source"
  jv_issuer :: string
  jv_audience :: string

definition hasAudience :: "string list \<Rightarrow> string \<Rightarrow> bool" where
  "hasAudience aud want \<longleftrightarrow> list_ex (\<lambda>a. a = want) aud"

definition recognized_scopes :: "scope list" where
  "recognized_scopes = [ScopeReadOwn, ScopeReadAny, ScopeSearch, ScopeConnectorIdentityLookup]"

text \<open>The loop over the fields fills a set; its size decides.\<close>

fun scopes_found :: "string list \<Rightarrow> scope fset \<Rightarrow> scope fset" where
  "scopes_found [] found = found"
| "scopes_found (f # fs) found = scopes_found fs (if f \<in> set recognized_scopes then finsert f found else found)"

definition singleScope :: "string \<Rightarrow> goerr + scope" where
  "singleScope raw =
     (let found = scopes_found (GoStrings.fields raw) {||} in
      if fcard found = 0 then Inl (ErrText ''token scope claim names no recognized scope'')
      else if fcard found = 1 then Inr (fthe_elem found)
      else Inl (ErrText ''token scope claim names more than one distinct recognized scope, which this verifier does not disambiguate per request''))"

definition kid_keyfunc :: "'s key_source \<Rightarrow> ctx \<Rightarrow> 's keyfunc" where
  "kid_keyfunc keys cx h =
     (case jh_kid h of
        None \<Rightarrow> failS (ErrText ''token header has no kid'')
      | Some kid \<Rightarrow> if kid = [] then failS (ErrText ''token header has no kid'') else keys cx kid)"

definition jwt_verify :: "'s jwt_verifier \<Rightarrow> ctx \<Rightarrow> string \<Rightarrow> ('s, goerr, auth_context) op" where
  "jwt_verify v cx tokenString =
     bindS (jv_parse v [jwtAlgorithm] (jv_issuer v) (kid_keyfunc (jv_keys v) cx) tokenString) (\<lambda>(c, valid).
     if \<not> valid then failS (ErrText ''token invalid'')
     else if \<not> hasAudience (cl_Audience c) (jv_audience v) then failS (ErrText ''token audience mismatch'')
     else if cl_Subject c = [] then failS (ErrText ''token has no sub claim'')
     else bindS (liftS (singleScope (cl_Scope c))) (\<lambda>scope.
       retS \<lparr>ac_Sub = cl_Subject c, ac_Scope = scope\<rparr>))"

definition bearerToken :: "request \<Rightarrow> string option" where
  "bearerToken r =
     (let h = hr_header r ''Authorization''; prefixLen = length ''Bearer '' in
      if length h \<le> prefixLen \<or> \<not> equal_fold (take prefixLen h) ''Bearer '' then None
      else let tok = trim_space (drop prefixLen h) in if tok = [] then None else Some tok)"

record 's audit_log =
  al_log :: "audit_event \<Rightarrow> 's \<Rightarrow> 's"
  al_now :: "'s \<Rightarrow> time"

definition logAuthnFailure :: "'s audit_log option \<Rightarrow> goerr option \<Rightarrow> 's \<Rightarrow> 's" where
  "logAuthnFailure aud err s =
     (case aud of
        None \<Rightarrow> s
      | Some a \<Rightarrow>
          (let kind = (case err of
               None \<Rightarrow> AuditAuthnFailure
             | Some e \<Rightarrow> if errors_is e ErrJWKSStale \<or> errors_is e ErrJWKSUnreachable then AuditJWKSUnavailable
                         else AuditAuthnFailure)
           in al_log a \<lparr>ae_Sub = [], ae_Scope = [], ae_Kind = kind, ae_RecordIDs = [], ae_ReasonCode = [],
                ae_Timestamp = al_now a s\<rparr> s))"

type_synonym 's http_handler = "request \<Rightarrow> 's \<Rightarrow> response \<times> 's"

definition NewJWTMiddleware :: "'s jwt_verifier \<Rightarrow> 's audit_log option \<Rightarrow> 's http_handler \<Rightarrow> 's http_handler" where
  "NewJWTMiddleware v aud next r s =
     (case bearerToken r of
        None \<Rightarrow> (writeUnauthorized, logAuthnFailure aud None s)
      | Some tokenString \<Rightarrow>
          (case jwt_verify v (hr_ctx r) tokenString s of
             (Inl err, s1) \<Rightarrow> (writeUnauthorized, logAuthnFailure aud (Some err) s1)
           | (Inr ac, s1) \<Rightarrow> next (r\<lparr>hr_auth := Some ac\<rparr>) s1))"

definition deadlineBudget :: duration where "deadlineBudget = 5 * second"

text \<open>\<open>with_timeout d cx\<close> is the context \<open>context.WithTimeout(cx, d)\<close> gives.\<close>

definition NewDeadlineMiddleware :: "(duration \<Rightarrow> ctx \<Rightarrow> ctx) \<Rightarrow> 's http_handler \<Rightarrow> 's http_handler" where
  "NewDeadlineMiddleware with_timeout next r s =
     next (r\<lparr>hr_ctx := with_timeout deadlineBudget (hr_ctx r)\<rparr>) s"

subsection \<open>Scopes\<close>

lemma scopes_found_set: "fset (scopes_found fs found) = fset found \<union> (set fs \<inter> set recognized_scopes)"
  by (induction fs found rule: scopes_found.induct) auto

lemma singleScope_iff:
  "singleScope raw = Inr s \<longleftrightarrow> set (GoStrings.fields raw) \<inter> set recognized_scopes = {s}"
proof -
  define found where "found = scopes_found (GoStrings.fields raw) {||}"
  have f: "fset found = set (GoStrings.fields raw) \<inter> set recognized_scopes"
    by (simp add: found_def scopes_found_set)
  have one: "fcard found = 1 \<longleftrightarrow> (\<exists>x. found = {|x|})"
  proof
    assume "fcard found = 1"
    then obtain x where "fset found = {x}" by (auto simp: fcard.rep_eq card_1_singleton_iff)
    then have "found = {|x|}" by (metis fset_inject bot_fset.rep_eq finsert.rep_eq)
    then show "\<exists>x. found = {|x|}" ..
  qed (auto simp: fcard.rep_eq)
  show ?thesis
  proof (cases "\<exists>x. found = {|x|}")
    case True
    then obtain x where x: "found = {|x|}" by blast
    then have "set (GoStrings.fields raw) \<inter> set recognized_scopes = {x}" using f by simp
    moreover have "singleScope raw = Inr x" using x by (simp add: singleScope_def fcard.rep_eq flip: found_def)
    ultimately show ?thesis by auto
  next
    case False
    then have "fset found \<noteq> {s}" using fset_inject [of found "{|s|}"] by auto
    moreover have "singleScope raw \<noteq> Inr s" using one False by (simp add: singleScope_def flip: found_def)
    ultimately show ?thesis using f by simp
  qed
qed

text \<open>
  The scope of a token is decided by the set of recognised scopes its claim names, whatever else the
  claim contains and however often it repeats them: exactly one gives that scope; none and several are
  refused.
\<close>
theorem single_scope_exact:
  "singleScope raw = Inr s \<longleftrightarrow> set (GoStrings.fields raw) \<inter> set recognized_scopes = {s}"
  by (rule singleScope_iff)

subsection \<open>What a verified token is\<close>

text \<open>What the library knows of a token: its header, its claims, whether a key verifies its signature; and the
clock it reads.\<close>

record 's jwt_lib =
  jl_header :: "string \<Rightarrow> jwt_header option"
  jl_claims :: "string \<Rightarrow> jwt_claims option"
  jl_verifies :: "rsa_public_key \<Rightarrow> string \<Rightarrow> bool"
  jl_now :: "'s \<Rightarrow> time"

definition unexpired :: "jwt_claims \<Rightarrow> time \<Rightarrow> bool" where
  "unexpired c now \<longleftrightarrow> (case cl_ExpiresAt c of None \<Rightarrow> True | Some e \<Rightarrow> now < e)"

definition jwks_outage :: "goerr \<Rightarrow> bool" where
  "jwks_outage e \<longleftrightarrow> errors_is e ErrJWKSStale \<or> errors_is e ErrJWKSUnreachable"

text \<open>
  The library's contract. Accepting: the key function was called once, on the token's own header, whose algorithm is
  allowed; the key it returned verifies the signature; the issuer is the required one and the token has
  not expired. Refusing: the key function was called at most once, and its error, if any, is in the chain
  of the library's, which otherwise reports no outage of the key source.
\<close>

definition jwt_lib_ok :: "'s jwt_lib \<Rightarrow> 's jwt_parse \<Rightarrow> bool" where
  "jwt_lib_ok L parse \<longleftrightarrow> (\<forall>algs iss kf tok s. case parse algs iss kf tok s of
     (Inr (c, valid), s1) \<Rightarrow> valid \<longrightarrow>
       (\<exists>h key. jl_header L tok = Some h \<and> jh_alg h \<in> set algs \<and> kf h s = (Inr key, s1) \<and>
          jl_verifies L key tok \<and> jl_claims L tok = Some c \<and> (iss \<noteq> [] \<longrightarrow> cl_Issuer c = iss) \<and>
          unexpired c (jl_now L s1))
   | (Inl err, s1) \<Rightarrow>
       (s1 = s \<and> \<not> jwks_outage err) \<or>
       (\<exists>h. jl_header L tok = Some h \<and> jh_alg h \<in> set algs \<and>
          ((\<exists>key. kf h s = (Inr key, s1)) \<and> \<not> jwks_outage err \<or>
           (\<exists>e. kf h s = (Inl e, s1) \<and> (jwks_outage err \<longleftrightarrow> jwks_outage e)))))"

text \<open>\<open>token_accepted L v cx tok s s1 ac\<close>: everything the verifier insists on, with \<open>s1\<close> the state after the
one key lookup.\<close>

definition token_accepted ::
  "'s jwt_lib \<Rightarrow> 's jwt_verifier \<Rightarrow> ctx \<Rightarrow> string \<Rightarrow> 's \<Rightarrow> 's \<Rightarrow> auth_context \<Rightarrow> bool" where
  "token_accepted L v cx tok s s1 ac \<longleftrightarrow>
     (\<exists>h kid key c. jl_header L tok = Some h \<and> jh_alg h = ''RS256'' \<and> jh_kid h = Some kid \<and> kid \<noteq> [] \<and>
        jv_keys v cx kid s = (Inr key, s1) \<and> jl_verifies L key tok \<and> jl_claims L tok = Some c \<and>
        (jv_issuer v \<noteq> [] \<longrightarrow> cl_Issuer c = jv_issuer v) \<and> unexpired c (jl_now L s1) \<and>
        jv_audience v \<in> set (cl_Audience c) \<and> cl_Subject c \<noteq> [] \<and> ac_Sub ac = cl_Subject c \<and>
        set (GoStrings.fields (cl_Scope c)) \<inter> set recognized_scopes = {ac_Scope ac})"

lemma kid_keyfunc_Inr:
  "kid_keyfunc keys cx h s = (Inr key, s1) \<longleftrightarrow> (\<exists>kid. jh_kid h = Some kid \<and> kid \<noteq> [] \<and> keys cx kid s = (Inr key, s1))"
  by (auto simp: kid_keyfunc_def failS_def split: option.splits)

lemma jwt_lib_accepts:
  assumes "jwt_lib_ok L parse" "parse algs iss kf tok s = (Inr (c, True), s1)"
  shows "\<exists>h key. jl_header L tok = Some h \<and> jh_alg h \<in> set algs \<and> kf h s = (Inr key, s1) \<and>
    jl_verifies L key tok \<and> jl_claims L tok = Some c \<and> (iss \<noteq> [] \<longrightarrow> cl_Issuer c = iss) \<and>
    unexpired c (jl_now L s1)"
  using assms(1) [unfolded jwt_lib_ok_def, THEN spec, of algs, THEN spec, of iss, THEN spec, of kf, THEN spec,
      of tok, THEN spec, of s] by (simp add: assms(2))

lemma jwt_lib_refuses:
  assumes "jwt_lib_ok L parse" "parse algs iss kf tok s = (Inl err, s1)" "jwks_outage err"
  shows "\<exists>h e. jl_header L tok = Some h \<and> kf h s = (Inl e, s1) \<and> jwks_outage e"
  using assms(1) [unfolded jwt_lib_ok_def, THEN spec, of algs, THEN spec, of iss, THEN spec, of kf, THEN spec,
      of tok, THEN spec, of s] assms(3) by (auto simp: assms(2))

lemma jwt_verify_Inr:
  assumes "jwt_lib_ok L (jv_parse v)" "jwt_verify v cx tok s = (Inr ac, s1)"
  shows "token_accepted L v cx tok s s1 ac"
proof -
  obtain c where p: "jv_parse v [jwtAlgorithm] (jv_issuer v) (kid_keyfunc (jv_keys v) cx) tok s = (Inr (c, True), s1)"
    and a: "hasAudience (cl_Audience c) (jv_audience v)" "cl_Subject c \<noteq> []"
    and sc: "singleScope (cl_Scope c) = Inr (ac_Scope ac)" and sub: "ac_Sub ac = cl_Subject c"
    using assms(2)
    by (auto simp: jwt_verify_def bindS_def retS_def failS_def liftS_def split: prod.splits sum.splits if_splits)
  show ?thesis
    using jwt_lib_accepts [OF assms(1) p] a sc sub
    unfolding token_accepted_def by (fastforce simp: kid_keyfunc_Inr hasAudience_def list_ex_iff singleScope_iff jwtAlgorithm_def)
qed

text \<open>
  Nothing behind the middleware runs on an unverified request. Either the answer is the one 401
  response and the only effects are the key lookup and one audit event, or the next handler runs once, with the
  authorization context of a token whose signature a key of the key set verifies under RS256, from the
  configured issuer, unexpired, naming this audience, a subject and exactly one recognised scope.
\<close>
theorem jwt_next_only_verified:
  assumes "jwt_lib_ok L (jv_parse v)"
  shows "(\<exists>err s1. NewJWTMiddleware v aud next r s = (writeUnauthorized, logAuthnFailure aud err s1)) \<or>
    (\<exists>tok s1 ac. bearerToken r = Some tok \<and> token_accepted L v (hr_ctx r) tok s s1 ac \<and>
       NewJWTMiddleware v aud next r s = next (r\<lparr>hr_auth := Some ac\<rparr>) s1)"
proof (cases "bearerToken r")
  case None
  then show ?thesis by (auto simp: NewJWTMiddleware_def)
next
  case (Some tok)
  obtain x s1 where v: "jwt_verify v (hr_ctx r) tok s = (x, s1)" by (cases "jwt_verify v (hr_ctx r) tok s")
  show ?thesis
  proof (cases x)
    case (Inl err)
    then show ?thesis using Some v by (auto simp: NewJWTMiddleware_def)
  next
    case (Inr ac)
    with v have "token_accepted L v (hr_ctx r) tok s s1 ac" using jwt_verify_Inr [OF assms] by simp
    with Some v Inr show ?thesis by (intro disjI2 exI [of _ tok] exI [of _ s1] exI [of _ ac]) (simp add: NewJWTMiddleware_def)
  qed
qed

end
