(* ===== verification/ClientStore.thy ===== *)
theory ClientStore
  imports Http "HOL-Library.Word"
begin

section \<open>internal/api/clientstore.go: client secrets and the client store\<close>

text \<open>
  The PHC string of an Argon2id hash, its parser, \<open>verifySecret\<close> and \<open>needsRehash\<close>; the
  PostgreSQL client store over the table of migrations/issuer. Argon2id is a parameter with a state, so that a
  call of it can be counted; a decoded cost parameter has the width the code casts it to. The text of a
  \<open>strconv\<close> or \<open>base64\<close> error is not kept. \<open>oc_granted_scopes\<close> is the column's text form, and the timeout of a
  query is a fault of the environment.
\<close>

subsection \<open>PHC strings\<close>

definition argon2Time :: int where "argon2Time = 1"
definition argon2Memory :: int where "argon2Memory = 64 * 1024"
definition argon2Threads :: int where "argon2Threads = 4"
definition argon2KeyLen :: nat where "argon2KeyLen = 32"
definition argon2SaltLen :: nat where "argon2SaltLen = 16"
definition phcVersion :: int where "phcVersion = 19"

lemmas argon2_consts = argon2Time_def argon2Memory_def argon2Threads_def argon2KeyLen_def argon2SaltLen_def phcVersion_def

definition encodePHC :: "int \<Rightarrow> int \<Rightarrow> int \<Rightarrow> string \<Rightarrow> string \<Rightarrow> string" where
  "encodePHC memory time threads salt hash =
     ''$argon2id$v='' @ itoa phcVersion @ ''$m='' @ itoa memory @ '',t='' @ itoa time @ '',p='' @ itoa threads @ ''$'' @
     b64_encode std_alphabet salt @ ''$'' @ b64_encode std_alphabet hash"

record parsed_phc =
  ph_memory :: "32 word"
  ph_time :: "32 word"
  ph_threads :: "8 word"
  ph_salt :: string
  ph_hash :: string

definition strconv_error :: goerr where "strconv_error = ErrText ''strconv.ParseUint: parsing: invalid syntax''"
definition base64_error :: goerr where "base64_error = ErrText ''illegal base64 data''"

definition parsePHCParam :: "string \<Rightarrow> string \<Rightarrow> goerr + nat" where
  "parsePHCParam field wantName =
     (case cut CHR ''='' field of
        None \<Rightarrow> Inl (ErrText (''api: PHC parameter field '' @ go_quote field @ '' is not in the expected '' @ go_quote wantName @ ''= form''))
      | Some (name, digits) \<Rightarrow>
          if name \<noteq> wantName
          then Inl (ErrText (''api: PHC parameter field '' @ go_quote field @ '' is not in the expected '' @ go_quote wantName @ ''= form''))
          else (case parse_uint32 digits of
             None \<Rightarrow> Inl (Wrap (''api: parsing PHC parameter '' @ go_quote field @ '': '') strconv_error)
           | Some v \<Rightarrow> Inr v))"

definition bind_res :: "'e + 'a \<Rightarrow> ('a \<Rightarrow> 'e + 'b) \<Rightarrow> 'e + 'b" where
  "bind_res r k = (case r of Inl e \<Rightarrow> Inl e | Inr x \<Rightarrow> k x)"

lemma bind_res_simps [simp]: "bind_res (Inl e) k = Inl e" "bind_res (Inr x) k = k x"
  by (simp_all add: bind_res_def)

lemma bind_res_Inr: "bind_res r k = Inr y \<longleftrightarrow> (\<exists>x. r = Inr x \<and> k x = Inr y)"
  by (auto simp: bind_res_def split: sum.splits)

definition b64_field :: "string \<Rightarrow> string \<Rightarrow> goerr + string" where
  "b64_field what s = (case b64_decode std_alphabet s of
     None \<Rightarrow> Inl (Wrap (''api: decoding PHC '' @ what @ '': '') base64_error) | Some bytes \<Rightarrow> Inr bytes)"

definition parsePHC :: "string \<Rightarrow> goerr + parsed_phc" where
  "parsePHC encoded =
     (case split_on CHR ''$'' encoded of
        [p0, p1, p2, p3, p4, p5] \<Rightarrow>
          if p0 \<noteq> [] \<or> p1 \<noteq> ''argon2id'' then Inl (ErrText ''api: not a recognized argon2id PHC string'')
          else bind_res (parsePHCParam p2 ''v'') (\<lambda>version.
            if int version \<noteq> phcVersion
            then Inl (ErrText (''api: PHC string names argon2 version '' @ utoa version @
              '', this package verifies version '' @ itoa phcVersion))
            else (case split_on CHR '','' p3 of
              [m, t, p] \<Rightarrow>
                bind_res (parsePHCParam m ''m'') (\<lambda>memory.
                bind_res (parsePHCParam t ''t'') (\<lambda>timeCost.
                bind_res (parsePHCParam p ''p'') (\<lambda>threads.
                bind_res (b64_field ''salt'' p4) (\<lambda>salt.
                bind_res (b64_field ''hash'' p5) (\<lambda>hash.
                Inr \<lparr>ph_memory = of_nat memory, ph_time = of_nat timeCost, ph_threads = of_nat threads,
                     ph_salt = salt, ph_hash = hash\<rparr>)))))
            | _ \<Rightarrow> Inl (ErrText (''api: PHC parameter field '' @ go_quote p3 @
                '' does not have exactly 3 comma-separated parameters''))))
      | _ \<Rightarrow> Inl (ErrText ''api: not a recognized argon2id PHC string''))"

subsection \<open>Secrets\<close>

text \<open>\<open>argon2.IDKey(password, salt, time, memory, threads, keyLen)\<close> and \<open>rand.Read\<close>.\<close>

record 's crypto =
  cr_IDKey :: "string \<Rightarrow> string \<Rightarrow> 32 word \<Rightarrow> 32 word \<Rightarrow> 8 word \<Rightarrow> 32 word \<Rightarrow> 's \<Rightarrow> string \<times> 's"
  cr_rand :: "nat \<Rightarrow> ('s, goerr, string) op"

definition hashSecret :: "'s crypto \<Rightarrow> string \<Rightarrow> ('s, goerr, string) op" where
  "hashSecret cr secret =
     bindS (map_errS (Wrap ''api: generating salt: '') (cr_rand cr argon2SaltLen)) (\<lambda>salt s.
       case cr_IDKey cr secret salt (of_int argon2Time) (of_int argon2Memory) (of_int argon2Threads) (of_nat argon2KeyLen) s of
         (hash, s1) \<Rightarrow> (Inr (encodePHC argon2Memory argon2Time argon2Threads salt hash), s1))"

definition verifySecret :: "'s crypto \<Rightarrow> string \<Rightarrow> string \<Rightarrow> 's \<Rightarrow> bool \<times> 's" where
  "verifySecret cr secret encodedHash s =
     (case parsePHC encodedHash of
        Inl err \<Rightarrow> (False, s)
      | Inr p \<Rightarrow>
          (case cr_IDKey cr secret (ph_salt p) (ph_time p) (ph_memory p) (ph_threads p) (of_nat (length (ph_hash p))) s of
             (got, s1) \<Rightarrow> (got = ph_hash p, s1)))"

definition needsRehash :: "string \<Rightarrow> bool" where
  "needsRehash encodedHash =
     (case parsePHC encodedHash of
        Inl err \<Rightarrow> False
      | Inr p \<Rightarrow> ph_memory p \<noteq> of_int argon2Memory \<or> ph_time p \<noteq> of_int argon2Time \<or> ph_threads p \<noteq> of_int argon2Threads)"

text \<open>The hash of a fixed secret that unknown clients are compared with; \<open>None\<close> is the panic at start.\<close>

definition mustHashSecret :: "'s crypto \<Rightarrow> string \<Rightarrow> 's \<Rightarrow> string option \<times> 's" where
  "mustHashSecret cr secret s = (case hashSecret cr secret s of (Inl err, s1) \<Rightarrow> (None, s1) | (Inr h, s1) \<Rightarrow> (Some h, s1))"

definition dummyHash :: "'s crypto \<Rightarrow> 's \<Rightarrow> string option \<times> 's" where
  "dummyHash cr = mustHashSecret cr ''dummy-fixed-secret-never-issued-to-any-real-client''"

subsection \<open>The store\<close>

record client_record =
  cl_ClientID :: string
  cl_Name :: string
  cl_SecretHash :: string
  cl_GrantedScope :: string
  cl_ClientAudience :: string
  cl_Active :: bool

record 's client_store =
  cs_Get :: "string \<Rightarrow> ('s, goerr, client_record option) op"
  cs_UpdateSecretHash :: "string \<Rightarrow> string \<Rightarrow> ('s, goerr, unit) op"

definition parsePostgresTextArray :: "string \<Rightarrow> goerr + string list" where
  "parsePostgresTextArray raw =
     (if length raw < 2 \<or> hd raw \<noteq> CHR ''{'' \<or> List.last raw \<noteq> CHR ''}''
      then Inl (ErrText (''not a Postgres array literal: '' @ go_quote raw))
      else let inner = butlast (tl raw) in
        if inner = [] then Inr []
        else let elems = split_on CHR '','' inner in
          case find (\<lambda>e. e = [] \<or> contains_any e [CHR ''{'', CHR ''}'', CHR 0x22, CHR 0x5C]) elems of
            Some e \<Rightarrow> Inl (ErrText (''unsupported array element '' @ go_quote e @ '' in '' @ go_quote raw @
              '' '' @ [CHR 0xE2, CHR 0x80, CHR 0x94] @ '' only plain unquoted values are supported''))
          | None \<Rightarrow> Inr elems)"

record oauth_client =
  oc_client_id :: string
  oc_name :: string
  oc_secret_hash :: "string option"
  oc_secret_state :: string
  oc_granted_scopes :: string
  oc_audience :: string
  oc_status :: string

record issuer_store =
  is_rows :: "oauth_client list"
  is_tick :: nat

text \<open>One query: a fault of the connection, or the answer.\<close>

definition issuer_exec :: "(nat \<Rightarrow> goerr option) \<Rightarrow> (oauth_client list \<Rightarrow> goerr + ('a \<times> oauth_client list)) \<Rightarrow>
    (issuer_store, goerr, 'a) op" where
  "issuer_exec fault f s =
     (let s1 = s\<lparr>is_tick := Suc (is_tick s)\<rparr> in
      case fault (is_tick s) of
        Some err \<Rightarrow> (Inl err, s1)
      | None \<Rightarrow> (case f (is_rows s) of Inl err \<Rightarrow> (Inl err, s1) | Inr (x, rows) \<Rightarrow> (Inr x, s1\<lparr>is_rows := rows\<rparr>)))"

definition client_row :: "string \<Rightarrow> oauth_client list \<Rightarrow> oauth_client option" where
  "client_row cid rows = find (\<lambda>r. oc_client_id r = cid) rows"

definition decode_client :: "string \<Rightarrow> oauth_client \<Rightarrow> goerr + client_record" where
  "decode_client clientID r =
     (case parsePostgresTextArray (oc_granted_scopes r) of
        Inl err \<Rightarrow> Inl (Wrap (''api: parsing granted_scopes for '' @ go_quote clientID @ '': '') err)
      | Inr [scope] \<Rightarrow> Inr \<lparr>cl_ClientID = oc_client_id r, cl_Name = oc_name r,
          cl_SecretHash = (case oc_secret_hash r of None \<Rightarrow> [] | Some h \<Rightarrow> h), cl_GrantedScope = scope,
          cl_ClientAudience = oc_audience r, cl_Active = (oc_status r = ''active'')\<rparr>
      | Inr scopes \<Rightarrow> Inl (ErrText (''api: oauth_client row '' @ go_quote clientID @ '' has '' @ utoa (length scopes) @
          '' granted scopes, want exactly 1'')))"

definition pcs_Get :: "(nat \<Rightarrow> goerr option) \<Rightarrow> string \<Rightarrow> (issuer_store, goerr, client_record option) op" where
  "pcs_Get fault clientID s =
     (case issuer_exec fault (\<lambda>rows. case client_row clientID rows of None \<Rightarrow> Inl ErrNoRows | Some r \<Rightarrow> Inr (r, rows)) s of
        (Inl err, s1) \<Rightarrow> if errors_is err ErrNoRows then (Inr None, s1) else (Inl (Wrap ''api: querying oauth_client: '' err), s1)
      | (Inr r, s1) \<Rightarrow> (case decode_client clientID r of Inl err \<Rightarrow> (Inl err, s1) | Inr rec \<Rightarrow> (Inr (Some rec), s1)))"

definition set_hash :: "string \<Rightarrow> string \<Rightarrow> oauth_client \<Rightarrow> oauth_client" where
  "set_hash cid h r = (if oc_client_id r = cid \<and> oc_secret_state r = ''set'' then r\<lparr>oc_secret_hash := Some h\<rparr> else r)"

definition pcs_UpdateSecretHash :: "(nat \<Rightarrow> goerr option) \<Rightarrow> string \<Rightarrow> string \<Rightarrow> (issuer_store, goerr, unit) op" where
  "pcs_UpdateSecretHash fault clientID newHash =
     bindS (map_errS (Wrap ''api: updating oauth_client secret hash: '') (issuer_exec fault (\<lambda>rows.
       Inr (list_ex (\<lambda>r. oc_client_id r = clientID \<and> oc_secret_state r = ''set'') rows, map (set_hash clientID newHash) rows))))
     (\<lambda>hit. if \<not> hit then failS (ErrText (''api: oauth_client row '' @ go_quote clientID @ '' no longer has secret_state='' @
         [CHR 0x27] @ ''set'' @ [CHR 0x27]))
       else retS ())"

definition PostgresClientStore :: "(nat \<Rightarrow> goerr option) \<Rightarrow> issuer_store client_store" where
  "PostgresClientStore fault = \<lparr>cs_Get = pcs_Get fault, cs_UpdateSecretHash = pcs_UpdateSecretHash fault\<rparr>"

end
