(* ===== verification/TokenHandler.thy ===== *)
theory TokenHandler
  imports JwtMiddleware ClientStore
begin

section \<open>internal/api/tokenhandler.go and jwksendpoint.go: the token issuer\<close>

text \<open>
  POST /auth/token step by step over its dependencies \<open>token_deps\<close>: the client store, the grant limiter, Argon2id
  and the random source, the clock, the UUID generator and the JWT library's signing. \<open>r.ParseForm\<close> and
  \<open>r.BasicAuth\<close> are fields of the request. An early return of the handler is \<open>Inl\<close> its response; log lines
  are left out.
\<close>

definition tokenTTL :: duration where "tokenTTL = 10 * minute"

definition writeTokenError :: "int \<Rightarrow> string \<Rightarrow> response" where
  "writeTokenError status errCode =
     \<lparr>rs_status = status,
      rs_headers = (if status = 401 then [(''WWW-Authenticate'', ''Basic realm='' @ go_quote ''token'')] else []) @
        [(''Content-Type'', ''application/json'')],
      rs_body = Json (JObj [(''error'', JStr errCode)])\<rparr>"

definition token_response :: "string \<Rightarrow> string \<Rightarrow> response" where
  "token_response token scope =
     \<lparr>rs_status = 200, rs_headers = [(''Content-Type'', ''application/json''), (''Cache-Control'', ''no-store'')],
      rs_body = Json (JObj [(''access_token'', JStr token), (''token_type'', JStr ''Bearer''),
        (''expires_in'', JNum (itoa (tokenTTL div second))), (''scope'', JStr scope)])\<rparr>"

text \<open>\<open>net.SplitHostPort\<close>: the host, or \<open>None\<close> for its error.\<close>

definition SplitHostPort :: "string \<Rightarrow> string option" where
  "SplitHostPort s =
     (case cut CHR '':'' (rev s) of
        None \<Rightarrow> None
      | Some (_, before) \<Rightarrow>
          let front = rev before in
          (case s of
             [] \<Rightarrow> None
           | c # t \<Rightarrow>
               if c = CHR ''['' then
                 (case cut CHR '']'' s of
                    None \<Rightarrow> None
                  | Some (head, after) \<Rightarrow>
                      if front \<noteq> head @ '']'' then None
                      else if CHR ''['' \<in> set (tl s) \<or> CHR '']'' \<in> set after then None
                      else Some (tl head))
               else if CHR '':'' \<in> set front then None
               else if CHR ''['' \<in> set s \<or> CHR '']'' \<in> set s then None
               else Some front))"

definition sourceIPFrom :: "string \<Rightarrow> string" where
  "sourceIPFrom remoteAddr = (case SplitHostPort remoteAddr of None \<Rightarrow> remoteAddr | Some host \<Rightarrow> host)"

record token_request =
  tq_form :: "goerr + (string \<Rightarrow> string)" \<comment> \<open>\<open>r.ParseForm\<close> and \<open>r.PostForm.Get\<close>\<close>
  tq_basic :: "(string \<times> string) option" \<comment> \<open>\<open>r.BasicAuth\<close>\<close>
  tq_remote :: string

record 's grant_iface =
  gi_Allow :: "string \<Rightarrow> string \<Rightarrow> ('s, goerr, bool) op"
  gi_RecordFailure :: "string \<Rightarrow> string \<Rightarrow> 's \<Rightarrow> 's"
  gi_RecordSuccess :: "string \<Rightarrow> string \<Rightarrow> 's \<Rightarrow> 's"

record ('s, 'k) token_deps =
  td_store :: "'s client_store option"
  td_limiter :: "'s grant_iface"
  td_key :: "'k signing_key"
  td_issuer :: string
  td_crypto :: "'s crypto"
  td_dummyHash :: string
  td_now :: "'s \<Rightarrow> time"
  td_newUUID :: "'s \<Rightarrow> string \<times> 's"
  td_NumericDate :: "time \<Rightarrow> time"
  td_SignedString :: "'k rsa_private_key \<Rightarrow> jwt_header \<Rightarrow> jwt_claims \<Rightarrow> ('s, goerr, string) op"

definition invalid_client :: response where "invalid_client = writeTokenError 401 ''invalid_client''"
definition server_error :: response where "server_error = writeTokenError 500 ''server_error''"

text \<open>One \<open>verifySecret\<close> on every path: against the client's own hash, or against the dummy.\<close>

definition check_secret :: "('s, 'k) token_deps \<Rightarrow> client_record option \<Rightarrow> string \<Rightarrow> ('s, response, bool) op" where
  "check_secret d found clientSecret s =
     (case found of
        Some rec \<Rightarrow>
          if cl_SecretHash rec \<noteq> []
          then (case verifySecret (td_crypto d) clientSecret (cl_SecretHash rec) s of (ok, s1) \<Rightarrow> (Inr ok, s1))
          else (Inr False, snd (verifySecret (td_crypto d) clientSecret (td_dummyHash d) s))
      | None \<Rightarrow> (Inr False, snd (verifySecret (td_crypto d) clientSecret (td_dummyHash d) s)))"

definition rehash :: "('s, 'k) token_deps \<Rightarrow> 's client_store \<Rightarrow> string \<Rightarrow> string \<Rightarrow> client_record \<Rightarrow> ('s, response, unit) op" where
  "rehash d st clientID clientSecret rec =
     (if needsRehash (cl_SecretHash rec)
      then catchS (bindS (hashSecret (td_crypto d) clientSecret) (cs_UpdateSecretHash st clientID)) (\<lambda>_. retS ()) (\<lambda>_. retS ())
      else retS ())"

definition token_claims :: "('s, 'k) token_deps \<Rightarrow> string \<Rightarrow> client_record \<Rightarrow> time \<Rightarrow> string \<Rightarrow> jwt_claims" where
  "token_claims d clientID rec now jti =
     \<lparr>cl_Scope = cl_GrantedScope rec, cl_Subject = clientID, cl_Issuer = td_issuer d,
      cl_Audience = [cl_ClientAudience rec], cl_IssuedAt = Some (td_NumericDate d now),
      cl_ExpiresAt = Some (td_NumericDate d (now + tokenTTL)), cl_ID = jti\<rparr>"

definition token_header :: "('s, 'k) token_deps \<Rightarrow> jwt_header" where
  "token_header d = \<lparr>jh_alg = jwtAlgorithm, jh_kid = Some (sk_Kid (td_key d))\<rparr>"

definition mint :: "('s, 'k) token_deps \<Rightarrow> string \<Rightarrow> client_record \<Rightarrow> ('s, response, response) op" where
  "mint d clientID rec s =
     (let now = td_now d s in
      case td_newUUID d s of
        (jti, s1) \<Rightarrow>
          (case td_SignedString d (sk_Private (td_key d)) (token_header d) (token_claims d clientID rec now jti) s1 of
             (Inl err, s2) \<Rightarrow> (Inl server_error, s2)
           | (Inr token, s2) \<Rightarrow> (Inr (token_response token (cl_GrantedScope rec)), s2)))"

definition token_op :: "('s, 'k) token_deps \<Rightarrow> token_request \<Rightarrow> ('s, response, response) op" where
  "token_op d r =
     (case td_store d of
        None \<Rightarrow> failS server_error
      | Some st \<Rightarrow> (case tq_form r of
          Inl _ \<Rightarrow> failS (writeTokenError 400 ''invalid_request'')
        | Inr form \<Rightarrow>
            if form ''grant_type'' \<noteq> ''client_credentials'' then failS (writeTokenError 400 ''unsupported_grant_type'')
            else
              let (clientID, clientSecret) = (case tq_basic r of None \<Rightarrow> ([], []) | Some p \<Rightarrow> p);
                  sourceIP = sourceIPFrom (tq_remote r);
                  refuse = denyS (gi_RecordFailure (td_limiter d) clientID sourceIP) invalid_client in
              bindS (or_write (\<lambda>_. server_error) (gi_Allow (td_limiter d) clientID sourceIP)) (\<lambda>allowed.
              if \<not> allowed then failS (writeTokenError 429 ''slow_down'')
              else if tq_basic r = None then refuse
              else bindS (or_write (\<lambda>_. server_error) (cs_Get st clientID)) (\<lambda>found.
                bindS (check_secret d found clientSecret) (\<lambda>secretOK.
                case found of
                  None \<Rightarrow> refuse
                | Some rec \<Rightarrow>
                    if \<not> secretOK \<or> \<not> cl_Active rec then refuse
                    else bindS (execS (gi_RecordSuccess (td_limiter d) clientID sourceIP)) (\<lambda>_.
                      bindS (rehash d st clientID clientSecret rec) (\<lambda>_.
                      let requested = trim_space (form ''scope'') in
                      if requested \<noteq> [] \<and> requested \<noteq> cl_GrantedScope rec
                      then failS (writeTokenError 400 ''invalid_scope'')
                      else mint d clientID rec)))))))"

definition NewTokenHandler :: "('s, 'k) token_deps \<Rightarrow> token_request \<Rightarrow> 's \<Rightarrow> response \<times> 's" where
  "NewTokenHandler d r = run_handler (token_op d r)"

definition NewJWKSHandler :: "'k signing_key \<Rightarrow> response" where
  "NewJWKSHandler key =
     \<lparr>rs_status = 200, rs_headers = [(''Content-Type'', ''application/json''),
        (''Cache-Control'', ''public, '' @ jwksCacheControlMaxAge)],
      rs_body = Json (jwks_json (SigningKey_JWKS key))\<rparr>"

end
