(* ===== verification/Mux.thy ===== *)
theory Mux
  imports Handlers TokenHandler "HOL-Library.Multiset"
begin

section \<open>net/http: the ServeMux the routers use\<close>

text \<open>
  The part of \<open>http.ServeMux\<close> that the patterns of this program need: an optional method, literal segments and one-segment
  wildcards. No pattern of the program names a host, ends in a slash or has a rest wildcard. A request is given by its method
  and its escaped path; the rest of it is what the handlers read. The HTML body of a redirect is left out.
\<close>

subsection \<open>Paths\<close>

definition hex_val :: "char \<Rightarrow> nat option" where
  "hex_val c =
     (if 48 \<le> byte c \<and> byte c \<le> 57 then Some (byte c - 48)
      else if 97 \<le> byte c \<and> byte c \<le> 102 then Some (byte c - 87)
      else if 65 \<le> byte c \<and> byte c \<le> 70 then Some (byte c - 55)
      else None)"

text \<open>\<open>url.PathUnescape\<close>; a segment that does not unescape is taken as it is.\<close>

fun path_unescape :: "string \<Rightarrow> string option" where
  "path_unescape [] = Some []"
| "path_unescape (c # cs) =
     (if c = CHR ''%'' then
        (case cs of
           a # b # rest \<Rightarrow> (case (hex_val a, hex_val b) of
               (Some x, Some y) \<Rightarrow> map_option ((#) (char_of (16 * x + y))) (path_unescape rest)
             | _ \<Rightarrow> None)
         | _ \<Rightarrow> None)
      else map_option ((#) c) (path_unescape cs))"

definition pathUnescape :: "string \<Rightarrow> string" where
  "pathUnescape s = (case path_unescape s of None \<Rightarrow> s | Some t \<Rightarrow> t)"

text \<open>\<open>path.Clean\<close> of a rooted path, on its segments, and \<open>cleanPath\<close>.\<close>

fun clean_segments :: "string list \<Rightarrow> string list \<Rightarrow> string list" where
  "clean_segments acc [] = rev acc"
| "clean_segments acc (p # ps) =
     (if p = [] \<or> p = ''.'' then clean_segments acc ps
      else if p = ''..'' then clean_segments (tl acc) ps
      else clean_segments (p # acc) ps)"

definition rooted :: "string list \<Rightarrow> string" where
  "rooted ps = (if ps = [] then ''/'' else concat (map ((#) (CHR ''/'')) ps))"

definition cleanPath :: "string \<Rightarrow> string" where
  "cleanPath p =
     (if p = [] then ''/''
      else
        (let p = (if hd p \<noteq> CHR ''/'' then CHR ''/'' # p else p);
             np = rooted (clean_segments [] (split_on (CHR ''/'') p))
         in if last p = CHR ''/'' \<and> np \<noteq> ''/'' then np @ ''/'' else np))"

text \<open>The first segment of a path and what follows; a trailing slash is the segment \<open>/\<close>.\<close>

definition firstSegment :: "string \<Rightarrow> string \<times> string" where
  "firstSegment path =
     (if path = ''/'' then (''/'', [])
      else let p = tl path; seg = takeWhile (\<lambda>c. c \<noteq> CHR ''/'') p in (pathUnescape seg, drop (length seg) p))"

subsection \<open>Patterns and matching\<close>

datatype segment = Lit string | Wild string

record 'h route =
  rt_method :: string \<comment> \<open>empty: every method\<close>
  rt_path :: "segment list"
  rt_handler :: 'h

definition pattern_segment :: "string \<Rightarrow> segment" where
  "pattern_segment p = (if p \<noteq> [] \<and> hd p = CHR ''{'' \<and> last p = CHR ''}'' then Wild (butlast (tl p)) else Lit p)"

text \<open>\<open>mux.Handle\<close> with a pattern as it is written in the code.\<close>

definition handle :: "string \<Rightarrow> 'h \<Rightarrow> 'h route" where
  "handle pat h =
     (let m = takeWhile (\<lambda>c. c \<noteq> CHR '' '') pat;
          path = (if m = pat then pat else drop (Suc (length m)) pat)
      in \<lparr>rt_method = (if m = pat then [] else m), rt_path = map pattern_segment (tl (split_on (CHR ''/'') path)), rt_handler = h\<rparr>)"

fun match_path :: "segment list \<Rightarrow> string \<Rightarrow> (string \<times> string) list option" where
  "match_path [] path = (if path = [] then Some [] else None)"
| "match_path (s # ss) path =
     (if path = [] then None
      else (case firstSegment path of (seg, rest) \<Rightarrow>
        (case s of
           Lit l \<Rightarrow> if seg = l then match_path ss rest else None
         | Wild n \<Rightarrow> if seg \<noteq> ''/'' then map_option ((#) (n, seg)) (match_path ss rest) else None)))"

definition method_ok :: "string \<Rightarrow> string \<Rightarrow> bool" where
  "method_ok pat m \<longleftrightarrow> pat = [] \<or> pat = m \<or> (pat = ''GET'' \<and> m = ''HEAD'')"

fun find_route :: "'h route list \<Rightarrow> string \<Rightarrow> string \<Rightarrow> ('h \<times> (string \<times> string) list) option" where
  "find_route [] m path = None"
| "find_route (r # rs) m path =
     (case (if method_ok (rt_method r) m then match_path (rt_path r) path else None) of
        Some binds \<Rightarrow> Some (rt_handler r, binds)
      | None \<Rightarrow> find_route rs m path)"

definition allowed_methods :: "'h route list \<Rightarrow> string \<Rightarrow> string list" where
  "allowed_methods rs path =
     sort (remdups (concat (map (\<lambda>r. if match_path (rt_path r) path = None then []
       else if rt_method r = ''GET'' then [''GET'', ''HEAD''] else [rt_method r]) rs)))"

datatype 'h dispatch =
    Serve 'h "(string \<times> string) list"
  | MovedTo string
  | MethodNotAllowed "string list"
  | NotFound

definition findHandler :: "'h route list \<Rightarrow> string \<Rightarrow> string \<Rightarrow> 'h dispatch" where
  "findHandler rs m escapedPath =
     (let path = (if m = ''CONNECT'' then escapedPath else cleanPath escapedPath) in
      if path \<noteq> escapedPath then MovedTo path
      else (case find_route rs m path of
          Some (h, binds) \<Rightarrow> Serve h binds
        | None \<Rightarrow> let ms = allowed_methods rs path in if ms \<noteq> [] then MethodNotAllowed ms else NotFound))"

subsection \<open>Serving\<close>

text \<open>The request body of \<open>POST /auth/token\<close> is a form; a request carries both views of itself.\<close>

record incoming =
  in_method :: string
  in_path :: string
  in_req :: request
  in_form :: token_request

type_synonym 's served = "incoming \<Rightarrow> 's \<Rightarrow> response \<times> 's"

definition http_Error :: "int \<Rightarrow> string \<Rightarrow> response" where
  "http_Error status message =
     \<lparr>rs_status = status,
      rs_headers = [(''Content-Type'', ''text/plain; charset=utf-8''), (''X-Content-Type-Options'', ''nosniff'')],
      rs_body = Text (message @ [char_of (10::nat)])\<rparr>"

fun join_methods :: "string list \<Rightarrow> string" where
  "join_methods [] = []"
| "join_methods [m] = m"
| "join_methods (m # ms) = m @ '', '' @ join_methods ms"

definition with_header :: "string \<Rightarrow> string \<Rightarrow> response \<Rightarrow> response" where
  "with_header k v r = r\<lparr>rs_headers := (k, v) # rs_headers r\<rparr>"

definition moved :: "string \<Rightarrow> response" where
  "moved path = \<lparr>rs_status = 301, rs_headers = [(''Location'', path)], rs_body = NoBody\<rparr>"

definition with_values :: "(string \<times> string) list \<Rightarrow> incoming \<Rightarrow> incoming" where
  "with_values binds x =
     x\<lparr>in_req := (in_req x)\<lparr>hr_path := (\<lambda>n. case map_of binds n of None \<Rightarrow> [] | Some v \<Rightarrow> v)\<rparr>\<rparr>"

definition ServeHTTP :: "'s served route list \<Rightarrow> 's served" where
  "ServeHTTP rs x s =
     (case findHandler rs (in_method x) (in_path x) of
        Serve h binds \<Rightarrow> h (with_values binds x) s
      | MovedTo path \<Rightarrow> (moved path, s)
      | MethodNotAllowed ms \<Rightarrow> (with_header ''Allow'' (join_methods ms) (http_Error 405 ''Method Not Allowed''), s)
      | NotFound \<Rightarrow> (http_Error 404 ''404 page not found'', s))"

subsection \<open>Patterns that do not overlap\<close>

text \<open>The library serves the most specific pattern; among patterns no two of which match one request, the order is irrelevant.\<close>

definition segments_overlap :: "segment \<Rightarrow> segment \<Rightarrow> bool" where
  "segments_overlap a b \<longleftrightarrow> (case (a, b) of (Lit x, Lit y) \<Rightarrow> x = y | (Lit x, Wild n) \<Rightarrow> True | (Wild n, Lit y) \<Rightarrow> True | (Wild n, Wild k) \<Rightarrow> True)"

definition overlap :: "'h route \<Rightarrow> 'h route \<Rightarrow> bool" where
  "overlap r q \<longleftrightarrow> (method_ok (rt_method r) (rt_method q) \<or> method_ok (rt_method q) (rt_method r)) \<and>
     list_all2 segments_overlap (rt_path r) (rt_path q)"

fun unambiguous :: "'h route list \<Rightarrow> bool" where
  "unambiguous [] = True"
| "unambiguous (r # rs) = (list_all (\<lambda>q. \<not> overlap r q) rs \<and> unambiguous rs)"

definition applies :: "'h route \<Rightarrow> string \<Rightarrow> string \<Rightarrow> bool" where
  "applies r m path \<longleftrightarrow> method_ok (rt_method r) m \<and> match_path (rt_path r) path \<noteq> None"

lemma match_overlap:
  "match_path ps path = Some b \<Longrightarrow> match_path qs path = Some c \<Longrightarrow> list_all2 segments_overlap ps qs"
proof (induction ps arbitrary: qs b c path)
  case Nil
  then show ?case by (cases qs) (auto split: if_splits)
next
  case (Cons s ss)
  then obtain t ts where qs: "qs = t # ts" by (cases qs) (auto split: if_splits)
  obtain seg rest where f: "firstSegment path = (seg, rest)" by fastforce
  have "segments_overlap s t" "\<exists>b' c'. match_path ss rest = Some b' \<and> match_path ts rest = Some c'"
    using Cons.prems by (auto simp: qs f segments_overlap_def split: segment.splits if_splits)
  then show ?case using Cons.IH by (auto simp: qs)
qed

lemma method_overlap: "method_ok a m \<Longrightarrow> method_ok b m \<Longrightarrow> method_ok a b \<or> method_ok b a"
  by (auto simp: method_ok_def)

lemma applies_overlap: "applies r m path \<Longrightarrow> applies q m path \<Longrightarrow> overlap r q"
  using method_overlap match_overlap unfolding applies_def overlap_def by blast

lemma find_route_iff:
  assumes "unambiguous rs"
  shows "find_route rs m path = Some (h, binds) \<longleftrightarrow>
    (\<exists>r \<in> set rs. method_ok (rt_method r) m \<and> match_path (rt_path r) path = Some binds \<and> rt_handler r = h)"
  using assms
proof (induction rs)
  case (Cons r rs)
  show ?case
  proof (cases "applies r m path")
    case True
    then have "\<not> applies q m path" if "q \<in> set rs" for q
      using applies_overlap [OF True, of q] Cons.prems that by (auto simp: list_all_iff)
    then show ?thesis using True by (auto simp: applies_def)
  next
    case False
    then show ?thesis using Cons by (auto simp: applies_def split: option.split)
  qed
qed simp

lemma find_route_None: "find_route rs m path = None \<longleftrightarrow> (\<forall>r \<in> set rs. \<not> applies r m path)"
  by (induction rs) (auto simp: applies_def split: option.split)

lemma findHandler_permuted:
  assumes "unambiguous rs" "mset rs' = mset rs"
  shows "findHandler rs' m p = findHandler rs m p"
proof -
  have st: "set rs' = set rs" using assms(2) by (rule mset_eq_setD)
  have one: "b = c \<and> rt_handler r = rt_handler q"
    if "r \<in> set rs" "q \<in> set rs" "method_ok (rt_method r) m" "method_ok (rt_method q) m"
      "match_path (rt_path r) path = Some b" "match_path (rt_path q) path = Some c" for r q b c path
    using find_route_iff [OF assms(1), of m path "rt_handler r" b] find_route_iff [OF assms(1), of m path "rt_handler q" c] that
    by (metis Pair_inject option.inject)
  have sound: "\<exists>r \<in> set rs'. method_ok (rt_method r) m \<and> match_path (rt_path r) path = Some b \<and> rt_handler r = h"
    if "find_route rs' m path = Some (h, b)" for h b path
    using that by (induction rs') (auto split: if_splits option.splits)
  have same: "find_route rs' m path = find_route rs m path" for path
  proof (cases "find_route rs' m path")
    case None
    then have "find_route rs m path = None" by (simp add: find_route_None st)
    with None show ?thesis by simp
  next
    case (Some y)
    then have "find_route rs m path = Some y"
      using sound [of path "fst y" "snd y"] find_route_iff [OF assms(1), of m path "fst y" "snd y"] by (simp add: st)
    with Some show ?thesis by simp
  qed
  have allowed: "allowed_methods rs' path = allowed_methods rs path" for path
    unfolding allowed_methods_def sorted_list_of_set_sort_remdups [symmetric] by (simp add: st)
  show ?thesis unfolding findHandler_def same allowed ..
qed

text \<open>Whatever is served at status 200 comes from a route that applies.\<close>

lemma ServeHTTP_cases:
  assumes "ServeHTTP rs x s = (resp, s')"
  shows "(s' = s \<and> rs_status resp \<in> {301, 404, 405}) \<or>
    (\<exists>r \<in> set rs. \<exists>binds. applies r (in_method x) (in_path x) \<and> match_path (rt_path r) (in_path x) = Some binds \<and>
       rt_handler r (with_values binds x) s = (resp, s'))"
proof -
  have sound: "\<exists>r \<in> set rs. applies r m path \<and> match_path (rt_path r) path = Some b \<and> rt_handler r = h"
    if "find_route rs m path = Some (h, b)" for h b m path
    using that by (induction rs) (auto simp: applies_def split: if_splits option.splits)
  show ?thesis
  proof (cases "findHandler rs (in_method x) (in_path x)")
    case (Serve h binds)
    then have "find_route rs (in_method x) (in_path x) = Some (h, binds)"
      by (auto simp: findHandler_def Let_def split: if_splits option.splits)
    from sound [OF this] Serve assms show ?thesis by (auto simp: ServeHTTP_def)
  qed (use assms in \<open>auto simp: ServeHTTP_def moved_def http_Error_def with_header_def\<close>)
qed

end
