(* ===== verification/Config.thy ===== *)
theory Config
  imports Http
begin

section \<open>internal/config: the environment\<close>

text \<open>
  \<open>os.Getenv\<close> is a function \<open>env\<close>, where an unset variable is the empty string. The file system during
  \<open>Load\<close> is a record of the four \<open>os\<close> calls, and \<open>url.Parse\<close> answers the scheme and the host or nothing.
\<close>

type_synonym environment = "string \<Rightarrow> string"

record file_io =
  fi_ReadFile :: "string \<Rightarrow> goerr + string"
  fi_Stat :: "string \<Rightarrow> goerr + bool" \<comment> \<open>\<open>IsDir\<close> of what \<open>os.Stat\<close> finds\<close>
  fi_Open :: "string \<Rightarrow> goerr option"
  fi_Read1 :: "string \<Rightarrow> goerr option" \<comment> \<open>the error of reading one byte\<close>

type_synonym url_parse = "string \<Rightarrow> (string \<times> string) option"

record config =
  cfg_AppMode :: string
  cfg_HTTPAddr :: string
  cfg_JWTSigningKeyPath :: string
  cfg_DBDriver :: string
  cfg_DBDSN :: string
  cfg_AuthJWTIssuer :: string
  cfg_AuthJWTAudience :: string
  cfg_AuthJWKSURL :: string
  cfg_AuthzQASub :: string
  cfg_AuthzQAAllowedProfileID :: string
  cfg_IssuerDBDSN :: string
  cfg_ConnectorJWTAudience :: string
  cfg_ConnectorClientID :: string
  cfg_ConnectorClientSecret :: string
  cfg_IssuerTokenURL :: string
  cfg_IDPConnectorBaseURL :: string
  cfg_IDPABCBaseURL :: string
  cfg_IDPABCClientID :: string
  cfg_IDPABCClientSecret :: string
  cfg_SweepIntervalSeconds :: string

subsection \<open>Errors as values, without a state\<close>

definition bindE :: "'e + 'a \<Rightarrow> ('a \<Rightarrow> 'e + 'b) \<Rightarrow> 'e + 'b" where
  "bindE m k = (case m of Inl e \<Rightarrow> Inl e | Inr x \<Rightarrow> k x)"

lemma bindE_simps [simp]: "bindE (Inl e) k = Inl e" "bindE (Inr x) k = k x"
  by (simp_all add: bindE_def)

lemma bindE_eq_Inr: "bindE m k = Inr y \<longleftrightarrow> (\<exists>x. m = Inr x \<and> k x = Inr y)"
  by (simp add: bindE_def split: sum.split)

subsection \<open>Load\<close>

definition resolveDSNFrom :: "environment \<Rightarrow> file_io \<Rightarrow> string \<Rightarrow> string \<Rightarrow> goerr + string" where
  "resolveDSNFrom env fi fileEnv plainEnv =
     (let path = env fileEnv in
      if path \<noteq> [] then
        (case fi_ReadFile fi path of
           Inl err \<Rightarrow> Inl (Wrap (''config: reading '' @ fileEnv @ '' '' @ go_quote path @ '': '') err)
         | Inr b \<Rightarrow> Inr (trim_space b))
      else Inr (env plainEnv))"

definition key_path_error :: "string \<Rightarrow> string \<Rightarrow> string" where
  "key_path_error path what =
     ''config: APP_MODE=issuer set but JWT_SIGNING_KEY_FILE '' @ go_quote path @ '' is '' @ what"

definition resolveSigningKeyPath :: "environment \<Rightarrow> file_io \<Rightarrow> string \<Rightarrow> goerr + string" where
  "resolveSigningKeyPath env fi appMode =
     (if appMode \<noteq> ''issuer'' then Inr []
      else
        (let path = env ''JWT_SIGNING_KEY_FILE'' in
         if path = [] then Inl (ErrText ''config: APP_MODE=issuer requires JWT_SIGNING_KEY_FILE to be set'')
         else (case fi_Stat fi path of
             Inl err \<Rightarrow> Inl (Wrap (key_path_error path ''not accessible: '') err)
           | Inr isDir \<Rightarrow>
               if isDir then Inl (ErrText (key_path_error path ''a directory, not a file''))
               else (case fi_Open fi path of
                   Some err \<Rightarrow> Inl (Wrap (key_path_error path ''not readable: '') err)
                 | None \<Rightarrow> (case fi_Read1 fi path of
                     Some err \<Rightarrow> Inl (Wrap (key_path_error path ''empty or unreadable: '') err)
                   | None \<Rightarrow> Inr path)))))"

definition Load :: "environment \<Rightarrow> file_io \<Rightarrow> goerr + config" where
  "Load env fi =
     bindE (resolveDSNFrom env fi ''DB_DSN_FILE'' ''DB_DSN'') (\<lambda>dsn.
     bindE (resolveDSNFrom env fi ''ISSUER_DB_DSN_FILE'' ''ISSUER_DB_DSN'') (\<lambda>issuerDSN.
     bindE (resolveDSNFrom env fi ''CONNECTOR_CLIENT_ID_FILE'' ''CONNECTOR_CLIENT_ID'') (\<lambda>connectorClientID.
     bindE (resolveDSNFrom env fi ''CONNECTOR_CLIENT_SECRET_FILE'' ''CONNECTOR_CLIENT_SECRET'') (\<lambda>connectorClientSecret.
     let appMode = (if env ''APP_MODE'' = [] then ''verifier'' else env ''APP_MODE'') in
     if appMode \<noteq> ''verifier'' \<and> appMode \<noteq> ''issuer'' \<and> appMode \<noteq> ''sweep''
     then Inl (ErrText (''config: APP_MODE '' @ go_quote appMode @ '' is not one of '' @ go_quote ''verifier'' @ '', '' @
       go_quote ''issuer'' @ '', '' @ go_quote ''sweep''))
     else bindE (resolveSigningKeyPath env fi appMode) (\<lambda>signingKeyPath.
       Inr \<lparr>cfg_AppMode = appMode,
         cfg_HTTPAddr = env ''HTTP_ADDR'',
         cfg_JWTSigningKeyPath = signingKeyPath,
         cfg_DBDriver = env ''DB_DRIVER'',
         cfg_DBDSN = dsn,
         cfg_AuthJWTIssuer = env ''AUTH_JWT_ISSUER'',
         cfg_AuthJWTAudience = env ''AUTH_JWT_AUDIENCE'',
         cfg_AuthJWKSURL = env ''AUTH_JWKS_URL'',
         cfg_AuthzQASub = env ''AUTHZ_QA_SUB'',
         cfg_AuthzQAAllowedProfileID = env ''AUTHZ_QA_ALLOWED_PROFILE_ID'',
         cfg_IssuerDBDSN = issuerDSN,
         cfg_ConnectorJWTAudience = env ''CONNECTOR_JWT_AUDIENCE'',
         cfg_ConnectorClientID = connectorClientID,
         cfg_ConnectorClientSecret = connectorClientSecret,
         cfg_IssuerTokenURL = env ''ISSUER_TOKEN_URL'',
         cfg_IDPConnectorBaseURL = env ''IDP_CONNECTOR_BASE_URL'',
         cfg_IDPABCBaseURL = env ''IDP_ABC_BASE_URL'',
         cfg_IDPABCClientID = env ''IDP_ABC_CLIENT_ID'',
         cfg_IDPABCClientSecret = env ''IDP_ABC_CLIENT_SECRET'',
         cfg_SweepIntervalSeconds = env ''SWEEP_INTERVAL_SECONDS''\<rparr>)))))"

subsection \<open>What is required\<close>

definition RequiredAuthEnvVars :: "string \<Rightarrow> string \<Rightarrow> string list \<times> bool" where
  "RequiredAuthEnvVars service mode =
     (if service = ''api-service'' \<and> mode = ''verifier'' then ([''AUTH_JWT_ISSUER'', ''AUTH_JWT_AUDIENCE'', ''AUTH_JWKS_URL''], True)
      else if service = ''api-service'' \<and> mode = ''issuer'' then ([''AUTH_JWT_ISSUER''], True)
      else if service = ''api-service'' \<and> mode = ''sweep'' then ([], True)
      else if service = ''idp-connector'' then ([''AUTH_JWT_ISSUER'', ''AUTH_JWKS_URL'', ''CONNECTOR_JWT_AUDIENCE''], True)
      else ([], False))"

definition urlShapedEnvVars :: "string list" where
  "urlShapedEnvVars = [''AUTH_JWKS_URL'', ''AUTH_JWT_ISSUER'']"

definition ValidateEnvVarValue :: "url_parse \<Rightarrow> string \<Rightarrow> string \<Rightarrow> goerr option" where
  "ValidateEnvVarValue parse name value =
     (if name \<notin> set urlShapedEnvVars then None
      else (case parse value of
          Some (scheme, host) \<Rightarrow>
            if scheme = [] \<or> host = []
            then Some (ErrText (name @ ''='' @ go_quote value @ '' does not look like a valid absolute URL (a scheme and host are required)''))
            else None
        | None \<Rightarrow>
            Some (ErrText (name @ ''='' @ go_quote value @ '' does not look like a valid absolute URL (a scheme and host are required)''))))"

text \<open>The names of \<open>OptionalEnvVars\<close>; the reasons beside them are prose.\<close>

definition OptionalEnvVars :: "string list" where
  "OptionalEnvVars = [''APP_MODE'', ''JWT_SIGNING_KEY_FILE'', ''HTTP_ADDR'', ''DB_DRIVER'', ''DB_DSN'', ''DB_DSN_FILE'',
     ''ISSUER_DB_DSN'', ''ISSUER_DB_DSN_FILE'', ''AUTHZ_QA_SUB'', ''AUTHZ_QA_ALLOWED_PROFILE_ID'', ''CONNECTOR_CLIENT_ID'',
     ''CONNECTOR_CLIENT_ID_FILE'', ''CONNECTOR_CLIENT_SECRET'', ''CONNECTOR_CLIENT_SECRET_FILE'', ''IDP_ABC_BASE_URL'',
     ''IDP_ABC_CLIENT_ID'', ''IDP_ABC_CLIENT_SECRET'', ''ISSUER_TOKEN_URL'', ''IDP_CONNECTOR_BASE_URL'',
     ''SWEEP_INTERVAL_SECONDS'']"

subsection \<open>What Load guarantees\<close>

text \<open>The names some entry of the two tables classifies.\<close>

definition classified :: "string set" where
  "classified = set OptionalEnvVars \<union> (\<Union>m \<in> {''verifier'', ''issuer'', ''sweep''}. set (fst (RequiredAuthEnvVars ''api-service'' m)))
     \<union> set (fst (RequiredAuthEnvVars ''idp-connector'' []))"

lemma resolve_cong: "env f = env' f \<Longrightarrow> env p = env' p \<Longrightarrow> resolveDSNFrom env fi f p = resolveDSNFrom env' fi f p"
  by (simp add: resolveDSNFrom_def Let_def)

text \<open>
  Nothing escapes the classification of the environment: \<open>Load\<close> depends on no variable that is neither required for
  some service and mode nor listed as optional, whatever its mode.
\<close>
theorem load_reads_classified:
  assumes "\<forall>name \<in> classified. env name = env' name"
  shows "Load env fi = Load env' fi"
proof -
  have eqs: "list_all (\<lambda>name. env name = env' name) (OptionalEnvVars @ [''AUTH_JWT_ISSUER'', ''AUTH_JWT_AUDIENCE'', ''AUTH_JWKS_URL'',
      ''CONNECTOR_JWT_AUDIENCE''])"
    using assms by (simp add: list_all_iff classified_def RequiredAuthEnvVars_def ball_Un)
  note e = eqs [unfolded OptionalEnvVars_def append.simps list.pred_inject]
  have k: "resolveSigningKeyPath env fi m = resolveSigningKeyPath env' fi m" for m
    using e by (simp only: resolveSigningKeyPath_def)
  have d: "resolveDSNFrom env fi ''DB_DSN_FILE'' ''DB_DSN'' = resolveDSNFrom env' fi ''DB_DSN_FILE'' ''DB_DSN''"
    "resolveDSNFrom env fi ''ISSUER_DB_DSN_FILE'' ''ISSUER_DB_DSN'' = resolveDSNFrom env' fi ''ISSUER_DB_DSN_FILE'' ''ISSUER_DB_DSN''"
    "resolveDSNFrom env fi ''CONNECTOR_CLIENT_ID_FILE'' ''CONNECTOR_CLIENT_ID'' =
     resolveDSNFrom env' fi ''CONNECTOR_CLIENT_ID_FILE'' ''CONNECTOR_CLIENT_ID''"
    "resolveDSNFrom env fi ''CONNECTOR_CLIENT_SECRET_FILE'' ''CONNECTOR_CLIENT_SECRET'' =
     resolveDSNFrom env' fi ''CONNECTOR_CLIENT_SECRET_FILE'' ''CONNECTOR_CLIENT_SECRET''"
    using e by (intro resolve_cong; simp only:)+
  show ?thesis using e by (simp only: Load_def d k)
qed

text \<open>
  A loaded configuration has one of the three modes, each of which the table of required variables knows; it names a
  signing key exactly in issuer mode, and then \<open>JWT_SIGNING_KEY_FILE\<close> names a file that is no directory and gave a byte
  at startup.
\<close>
theorem load_modes:
  assumes "Load env fi = Inr cfg"
  shows "cfg_AppMode cfg \<in> {''verifier'', ''issuer'', ''sweep''} \<and>
    snd (RequiredAuthEnvVars ''api-service'' (cfg_AppMode cfg)) \<and>
    (cfg_JWTSigningKeyPath cfg \<noteq> [] \<longleftrightarrow> cfg_AppMode cfg = ''issuer'') \<and>
    (cfg_AppMode cfg = ''issuer'' \<longrightarrow> cfg_JWTSigningKeyPath cfg = env ''JWT_SIGNING_KEY_FILE'' \<and>
       fi_Stat fi (cfg_JWTSigningKeyPath cfg) = Inr False \<and> fi_Open fi (cfg_JWTSigningKeyPath cfg) = None \<and>
       fi_Read1 fi (cfg_JWTSigningKeyPath cfg) = None)"
proof -
  have key: "cfg_AppMode cfg \<in> {''verifier'', ''issuer'', ''sweep''} \<and>
    resolveSigningKeyPath env fi (cfg_AppMode cfg) = Inr (cfg_JWTSigningKeyPath cfg)"
    using assms unfolding Load_def Let_def bindE_eq_Inr by (auto simp: bindE_eq_Inr split: if_splits)
  then show ?thesis
    by (auto simp: resolveSigningKeyPath_def Let_def RequiredAuthEnvVars_def split: if_splits sum.splits option.splits)
qed

definition one_file :: "string \<Rightarrow> string \<Rightarrow> file_io" where
  "one_file path b =
     \<lparr>fi_ReadFile = (\<lambda>p. if p = path then Inr b else Inl (ErrText ''no such file or directory'')),
      fi_Stat = (\<lambda>p. if p = path then Inr False else Inl (ErrText ''no such file or directory'')),
      fi_Open = (\<lambda>p. if p = path then None else Some (ErrText ''no such file or directory'')),
      fi_Read1 = (\<lambda>p. if p = path \<and> b \<noteq> [] then None else Some (ErrText ''EOF''))\<rparr>"

definition issuer_env :: environment where
  "issuer_env = (\<lambda>_. [])(''APP_MODE'' := ''issuer'', ''JWT_SIGNING_KEY_FILE'' := ''/etc/key.pem'', ''AUTH_JWT_ISSUER'' := ''https://i'')"

lemma issuer_env_loads: "\<exists>cfg. Load issuer_env (one_file ''/etc/key.pem'' ''key'') = Inr cfg \<and> cfg_AppMode cfg = ''issuer''"
  by (simp add: Load_def resolveDSNFrom_def issuer_env_def resolveSigningKeyPath_def one_file_def Let_def)

theorem load_modes_witness:
  "\<exists>cfg. Load issuer_env (one_file ''/etc/key.pem'' ''key'') = Inr cfg \<and> cfg_JWTSigningKeyPath cfg = ''/etc/key.pem''"
proof -
  obtain cfg where cfg: "Load issuer_env (one_file ''/etc/key.pem'' ''key'') = Inr cfg" "cfg_AppMode cfg = ''issuer''"
    using issuer_env_loads by blast
  from load_modes [OF cfg(1)] cfg(2) have "cfg_JWTSigningKeyPath cfg = ''/etc/key.pem''" by (simp add: issuer_env_def)
  with cfg(1) show ?thesis by blast
qed

theorem load_reads_classified_witness:
  "Load (issuer_env(''LOG_LEVEL'' := ''debug'')) (one_file ''/etc/key.pem'' ''key'') = Load issuer_env (one_file ''/etc/key.pem'' ''key'')"
  by (rule load_reads_classified) (simp add: classified_def OptionalEnvVars_def RequiredAuthEnvVars_def)

end
