(* ===== verification/Calendar.thy ===== *)
theory Calendar
  imports Prelude
begin

section \<open>Go's proleptic Gregorian calendar and \<open>time.Time.AddDate\<close>\<close>

text \<open>
  Instants count nanoseconds from 1 January of year 1, UTC; the services run in UTC. \<open>civil\<close> is
  \<open>Time.Date()\<close>, \<open>date_day\<close> is the day number of \<open>time.Date\<close> before normalisation of the day of
  the month (which is linear), and \<open>add_date\<close> is \<open>AddDate\<close>: same clock, month overflow carried
  into the year, a day that does not exist carried into the next month.
\<close>

definition day_length :: duration where "day_length = 24 * hour"

definition is_leap :: "int \<Rightarrow> bool" where
  "is_leap y \<longleftrightarrow> y mod 4 = 0 \<and> (y mod 100 \<noteq> 0 \<or> y mod 400 = 0)"

definition days_before_year :: "int \<Rightarrow> int" where
  "days_before_year y = 365 * (y - 1) + (y - 1) div 4 - (y - 1) div 100 + (y - 1) div 400"

definition year_of_day :: "int \<Rightarrow> int" where
  "year_of_day n = (let g = 400 * n div 146097 + 1 in if days_before_year (g + 1) \<le> n then g + 1 else g)"

definition month_start :: "bool \<Rightarrow> int \<Rightarrow> int" where
  "month_start leap m =
     [0, 31, 59, 90, 120, 151, 181, 212, 243, 273, 304, 334] ! nat (m - 1) + (if leap \<and> 3 \<le> m then 1 else 0)"

definition month_of :: "bool \<Rightarrow> int \<Rightarrow> int" where
  "month_of leap yd = int (length (filter (\<lambda>m. month_start leap m \<le> yd) [1, 2, 3, 4, 5, 6, 7, 8, 9, 10, 11, 12]))"

definition civil :: "int \<Rightarrow> int \<times> int \<times> int" where
  "civil n = (let y = year_of_day n; yd = n - days_before_year y; m = month_of (is_leap y) yd
     in (y, m, yd - month_start (is_leap y) m + 1))"

definition date_day :: "int \<Rightarrow> int \<Rightarrow> int \<Rightarrow> int" where
  "date_day y m d = days_before_year y + month_start (is_leap y) m + d - 1"

definition add_date :: "time \<Rightarrow> int \<Rightarrow> int \<Rightarrow> int \<Rightarrow> time" where
  "add_date t years months days =
     (case civil (t div day_length) of (y, m, d) \<Rightarrow>
        date_day (y + years + (m - 1 + months) div 12) ((m - 1 + months) mod 12 + 1) (d + days) * day_length
          + t mod day_length)"

lemma div_step:
  assumes "0 < (k::int)"
  shows "y div k = (y - 1) div k + (if y mod k = 0 then 1 else 0)"
proof (cases "y mod k = 0")
  case True
  have "(y - 1) div k = y div k - 1"
    by (rule int_div_pos_eq [of _ _ _ "k - 1"])
      (use assms True mult_div_mod_eq [of k y] in \<open>simp_all add: right_diff_distrib\<close>)
  then show ?thesis using True by simp
next
  case False
  have "0 < y mod k" using False assms pos_mod_sign [of k y] by linarith
  then have "(y - 1) div k = y div k"
    by (intro int_div_pos_eq [of _ _ _ "y mod k - 1"])
      (use assms mult_div_mod_eq [of k y] pos_mod_bound [of k y] in linarith)+
  then show ?thesis using False by simp
qed

lemma century_terms: "y mod 400 = 0 \<Longrightarrow> y mod 100 = 0" "y mod 100 = (0::int) \<Longrightarrow> y mod 4 = 0"
  by (auto simp: mod_eq_0_iff_dvd intro: dvd_trans)

lemma days_before_next_year:
  "days_before_year (y + 1) = days_before_year y + (if is_leap y then 366 else 365)"
proof -
  define a b c where "a \<longleftrightarrow> y mod 4 = 0" and "b \<longleftrightarrow> y mod 100 = 0" and "c \<longleftrightarrow> y mod 400 = 0"
  have "y div 4 = (y - 1) div 4 + (if a then 1 else 0)" "y div 100 = (y - 1) div 100 + (if b then 1 else 0)"
      "y div 400 = (y - 1) div 400 + (if c then 1 else 0)"
    unfolding a_def b_def c_def by (rule div_step, simp)+
  moreover have "c \<longrightarrow> b" "b \<longrightarrow> a" using century_terms [of y] by (auto simp: a_def b_def c_def)
  moreover have "is_leap y \<longleftrightarrow> a \<and> (\<not> b \<or> c)" by (simp add: is_leap_def a_def b_def c_def)
  ultimately show ?thesis by (cases a; cases b; cases c) (simp_all add: days_before_year_def)
qed

lemma leap_gap: "is_leap y \<Longrightarrow> \<not> is_leap (y + 1)" "is_leap y \<Longrightarrow> \<not> is_leap (y + 2)"
proof -
  assume "is_leap y"
  then have "y mod 4 = 0" by (simp add: is_leap_def)
  then have "(y + 1) mod 4 \<noteq> 0" "(y + 2) mod 4 \<noteq> 0" by presburger+
  then show "\<not> is_leap (y + 1)" "\<not> is_leap (y + 2)" by (simp_all add: is_leap_def)
qed

lemma days_before_year_bounds:
  "146097 * (y - 1) - 699 \<le> 400 * days_before_year y" "400 * days_before_year y \<le> 146097 * (y - 1) + 396"
proof -
  define k where "k = y - 1"
  define a b c r s t where "a = k div 4" and "b = k div 100" and "c = k div 400"
    and "r = k mod 4" and "s = k mod 100" and "t = k mod 400"
  have e: "k = 4 * a + r" "k = 100 * b + s" "k = 400 * c + t"
    by (simp_all add: a_def b_def c_def r_def s_def t_def)
  have i: "0 \<le> r" "r \<le> 3" "0 \<le> s" "s \<le> 99" "0 \<le> t" "t \<le> 399"
    using pos_mod_bound [of 4 k] pos_mod_bound [of 100 k] pos_mod_bound [of 400 k]
    by (simp_all add: r_def s_def t_def)
  have d: "days_before_year y = 365 * k + a - b + c" by (simp add: days_before_year_def a_def b_def c_def k_def)
  have y: "y - 1 = k" by (simp add: k_def)
  have m: "400 * a = 100 * k - 100 * r" "400 * b = 4 * k - 4 * s" "400 * c = k - t"
    using e by simp_all
  have "400 * days_before_year y = 146000 * k + 400 * a - 400 * b + 400 * c" by (simp add: d)
  then have x: "400 * days_before_year y = 146097 * k - 100 * r + 4 * s - t" by (simp add: m)
  show "146097 * (y - 1) - 699 \<le> 400 * days_before_year y" unfolding x y using i by linarith
  show "400 * days_before_year y \<le> 146097 * (y - 1) + 396" unfolding x y using i by linarith
qed

lemma year_of_day_ok:
  "days_before_year (year_of_day n) \<le> n" "n < days_before_year (year_of_day n + 1)"
proof -
  define g where "g = 400 * n div 146097 + 1"
  have g: "146097 * (g - 1) \<le> 400 * n" "400 * n < 146097 * g"
    using mult_div_mod_eq [of 146097 "400 * n"] pos_mod_bound [of 146097 "400 * n"] by (simp_all add: g_def)
  have lo: "days_before_year g \<le> n" using days_before_year_bounds(2) [of g] g by linarith
  have hi: "n < days_before_year (g + 2)"
  proof -
    have "days_before_year (g + 2) = days_before_year (g + 1) + (if is_leap (g + 1) then 366 else 365)"
      using days_before_next_year [of "g + 1"] by (simp add: add.assoc)
    then have "days_before_year (g + 2) \<ge> days_before_year (g + 1) + 365" by (simp split: if_splits)
    then show ?thesis using days_before_year_bounds(1) [of "g + 1"] g by simp
  qed
  show "days_before_year (year_of_day n) \<le> n" "n < days_before_year (year_of_day n + 1)"
    using lo hi unfolding year_of_day_def g_def [symmetric] Let_def by (simp_all add: add.assoc)
qed

lemma month_of_range: "0 \<le> yd \<Longrightarrow> 1 \<le> month_of l yd \<and> month_of l yd \<le> 12"
proof
  assume "0 \<le> yd"
  then have "month_start l 1 \<le> yd" by (simp add: month_start_def)
  then show "1 \<le> month_of l yd" by (simp add: month_of_def)
  have "length (filter (\<lambda>m. month_start l m \<le> yd) [1, 2, 3, 4, 5, 6, 7, 8, 9, 10, 11, 12]) \<le>
      length [1, 2, 3, 4, 5, 6, 7, 8, 9, 10, 11, 12 :: int]"
    by (rule length_filter_le)
  then show "month_of l yd \<le> 12" by (simp add: month_of_def)
qed

lemma civil_ok:
  assumes "civil n = (y, m, d)"
  shows "date_day y m d = n" "1 \<le> m" "m \<le> 12"
  using assms month_of_range [of "n - days_before_year (year_of_day n)"] year_of_day_ok(1) [of n]
  by (auto simp: civil_def Let_def date_day_def)

text \<open>Days are exact; months keep the day of the month, so two years back are 730 or 731 days.\<close>

lemma add_days: "add_date t 0 0 k = t + k * day_length"
proof -
  obtain y m d where c: "civil (t div day_length) = (y, m, d)" by (metis prod_cases3)
  have m: "(m - 1) div 12 = 0" "(m - 1) mod 12 = m - 1" using civil_ok(2,3) [OF c] by simp_all
  have "date_day y m (d + k) = t div day_length + k" using civil_ok(1) [OF c] by (simp add: date_day_def)
  then show ?thesis
    using m by (simp add: add_date_def c distrib_right)
qed

lemma two_years_back:
  "t - 731 * day_length \<le> add_date t 0 (- 24) 0 \<and> add_date t 0 (- 24) 0 \<le> t - 730 * day_length"
proof -
  obtain y m d where c: "civil (t div day_length) = (y, m, d)" by (metis prod_cases3)
  have m: "(m - 1 - 24) div 12 = -2" "(m - 1 - 24) mod 12 = m - 1"
    using civil_ok(2,3) [OF c] by presburger+
  define n where "n = t div day_length"
  have n: "date_day y m d = n" using civil_ok(1) [OF c] by (simp add: n_def)
  have "days_before_year y = days_before_year (y - 2) + (if is_leap (y - 2) then 366 else 365)
      + (if is_leap (y - 1) then 366 else 365)"
    using days_before_next_year [of "y - 2"] days_before_next_year [of "y - 1"] by simp
  then have "n - 731 \<le> date_day (y - 2) m d" "date_day (y - 2) m d \<le> n - 730"
    using leap_gap [of "y - 2"] leap_gap(1) [of "y - 1"] n by (auto simp: date_day_def month_start_def split: if_splits)
  moreover have "0 \<le> day_length" by (simp add: day_length_def hour_def)
  ultimately have "(n - 731) * day_length \<le> date_day (y - 2) m d * day_length"
      "date_day (y - 2) m d * day_length \<le> (n - 730) * day_length"
    by (simp_all add: mult_right_mono)
  moreover have "t = n * day_length + t mod day_length" by (simp add: n_def)
  ultimately show ?thesis
    using m by (simp add: add_date_def c left_diff_distrib)
qed

end
