(* ===== verification/TimeText.thy ===== *)
theory TimeText
  imports Calendar GoStrings "HOL-Library.Monad_Syntax"
begin

section \<open>\<open>time.Format\<close> and \<open>time.Parse\<close> for the layout of sweepstore\<close>

text \<open>
  \<open>preciseTimeLayout\<close> (internal/sweepstore/sweepstore.go) prints an instant, which the code always takes to UTC first,
  with a zero-padded fixed-width date, clock and nanosecond part. \<open>format_precise\<close> is \<open>Format\<close> with that layout: a
  year past 9999 or before 0 is wider, as Go's is. \<open>parse_precise\<close> is \<open>time.Parse\<close>, which also takes a one-digit hour,
  a comma before the fraction and a numeric offset.

  Within the years 0 to 9999 parsing inverts formatting, and the lexicographic order of the texts is the order of the instants.
\<close>

subsection \<open>Format\<close>

fun pad :: "nat \<Rightarrow> nat \<Rightarrow> string" where
  "pad 0 n = []"
| "pad (Suc k) n = pad k (n div 10) @ [digit_char (n mod 10)]"

definition append_int :: "nat \<Rightarrow> int \<Rightarrow> string" where
  "append_int width i =
     (let n = nat \<bar>i\<bar> in (if i < 0 then ''-'' else []) @ (if n < 10 ^ width then pad width n else utoa n))"

definition format_precise :: "time \<Rightarrow> string" where
  "format_precise t =
     (case civil (t div day_length) of (y, m, d) \<Rightarrow>
        let clock = t mod day_length in
        append_int 4 y @ ''-'' @ append_int 2 m @ ''-'' @ append_int 2 d @ ''T'' @ append_int 2 (clock div hour) @ '':'' @
        append_int 2 (clock div minute mod 60) @ '':'' @ append_int 2 (clock div second mod 60) @ ''.'' @
        append_int 9 (clock mod second) @ ''Z'')"

subsection \<open>Parse\<close>

definition lit :: "char \<Rightarrow> string \<Rightarrow> string option" where
  "lit c s = (case s of [] \<Rightarrow> None | d # r \<Rightarrow> if c = d then Some r else None)"

definition fixed_num :: "nat \<Rightarrow> string \<Rightarrow> (int \<times> string) option" where
  "fixed_num k s =
     (if k \<le> length s \<and> list_all is_digit (take k s) then Some (int (digits_val (take k s)), drop k s) else None)"

definition one_or_two :: "string \<Rightarrow> (int \<times> string) option" where
  "one_or_two s = (case fixed_num 2 s of Some x \<Rightarrow> Some x | None \<Rightarrow> fixed_num 1 s)"

definition in_range :: "int \<Rightarrow> int \<Rightarrow> int \<times> string \<Rightarrow> (int \<times> string) option" where
  "in_range lo hi x = (if lo \<le> fst x \<and> fst x \<le> hi then Some x else None)"

definition parse_fraction :: "string \<Rightarrow> (int \<times> string) option" where
  "parse_fraction s =
     (if length s < 10 \<or> s ! 0 \<notin> {CHR ''.'', CHR '',''} then None
      else (case atoi (take 9 (tl s)) of
          None \<Rightarrow> None
        | Some n \<Rightarrow> if n < 0 then None else Some (n, drop 10 s)))"

text \<open>The offset in seconds.\<close>

definition parse_zone :: "string \<Rightarrow> int option" where
  "parse_zone s =
     (if s = ''Z'' then Some 0
      else (if length s \<noteq> 6 \<or> s ! 3 \<noteq> CHR '':'' then None
        else (case (fixed_num 2 (take 2 (tl s)), fixed_num 2 (drop 4 s)) of
            (Some (h, _), Some (m, _)) \<Rightarrow>
              if 24 < h \<or> 60 < m then None
              else if s ! 0 = CHR ''+'' then Some (h * 3600 + m * 60)
              else if s ! 0 = CHR ''-'' then Some (- (h * 3600 + m * 60))
              else None
          | _ \<Rightarrow> None)))"

definition month_length :: "int \<Rightarrow> int \<Rightarrow> int" where
  "month_length y m = (if m = 12 then 31 else month_start (is_leap y) (m + 1) - month_start (is_leap y) m)"

definition parse_precise :: "string \<Rightarrow> time option" where
  "parse_precise s0 = do {
     (y, s) \<leftarrow> fixed_num 4 s0;
     s \<leftarrow> lit CHR ''-'' s;
     (m, s) \<leftarrow> fixed_num 2 s \<bind> in_range 1 12;
     s \<leftarrow> lit CHR ''-'' s;
     (d, s) \<leftarrow> fixed_num 2 s;
     s \<leftarrow> lit CHR ''T'' s;
     (hh, s) \<leftarrow> one_or_two s \<bind> in_range 0 23;
     s \<leftarrow> lit CHR '':'' s;
     (mi, s) \<leftarrow> fixed_num 2 s \<bind> in_range 0 59;
     s \<leftarrow> lit CHR '':'' s;
     (ss, s) \<leftarrow> fixed_num 2 s \<bind> in_range 0 59;
     (ns, s) \<leftarrow> parse_fraction s;
     offset \<leftarrow> parse_zone s;
     if d < 1 \<or> month_length y m < d then None
     else Some (date_day y m d * day_length + hh * hour + mi * minute + ss * second + ns - offset * second)
   }"

subsection \<open>Fixed-width decimals\<close>

lemma length_pad [simp]: "length (pad k n) = k"
  by (induction k arbitrary: n) auto

lemma pad_digits [simp]: "list_all is_digit (pad k n)"
  by (induction k arbitrary: n) auto

lemma digits_val_pad: "n < 10 ^ k \<Longrightarrow> digits_val (pad k n) = n"
proof (induction k arbitrary: n)
  case 0
  then show ?case by (simp add: digits_val_def)
next
  case (Suc k)
  then have "n div 10 < 10 ^ k" by (simp add: less_mult_imp_div_less mult.commute)
  with Suc.IH show ?case by (simp add: digits_val_snoc)
qed

lemma append_int_pad: "0 \<le> i \<Longrightarrow> i < 10 ^ k \<Longrightarrow> append_int k i = pad k (nat i)"
  by (simp add: append_int_def Let_def nat_less_iff)

lemma fixed_num_pad [simp]: "n < 10 ^ k \<Longrightarrow> fixed_num k (pad k n @ s) = Some (int n, s)"
  by (simp add: fixed_num_def digits_val_pad)

lemma pad_head_digit: "k \<noteq> 0 \<Longrightarrow> is_digit (pad k n ! 0)"
  using pad_digits [of k n] by (simp add: list_all_length)

lemma atoi_pad:
  assumes "n < 10 ^ k" "0 < k" "k \<le> 18"
  shows "atoi (pad k n) = Some (int n)"
proof -
  obtain c r where c: "pad k n = c # r" using assms(2) length_pad [of k n] by (cases "pad k n") auto
  have "is_digit c" using pad_head_digit [of k n] assms(2) by (simp add: c)
  then have "c \<noteq> CHR ''-''" "c \<noteq> CHR ''+''" by auto
  moreover have "parse_nat (pad k n) = Some n" using assms(1) by (simp add: parse_nat_def digits_val_pad c flip: c) (metis c pad_digits list.distinct(1))
  moreover have "n < 10 ^ 18" using assms(1,3) by (meson less_le_trans one_le_numeral power_increasing)
  ultimately show ?thesis unfolding atoi_def c Let_def by (simp add: c)
qed

lemma lex_append:
  fixes a b :: string
  assumes "length a = length b"
  shows "a @ x < b @ y \<longleftrightarrow> a < b \<or> a = b \<and> x < y"
  using assms by (induction a b rule: list_induct2) auto

lemma digit_char_less: "m < 10 \<Longrightarrow> n < 10 \<Longrightarrow> digit_char m < digit_char n \<longleftrightarrow> m < n"
  by (simp add: digit_char_def less_char_def)

lemma digit_char_eq: "m < 10 \<Longrightarrow> n < 10 \<Longrightarrow> digit_char m = digit_char n \<longleftrightarrow> m = n"
  using digit_val_digit_char by metis

lemma less_div_mod: "m < n \<longleftrightarrow> m div k < n div k \<or> m div k = n div k \<and> m mod k < n mod k" if "0 < k" for k m n :: nat
proof (cases "m div k" "n div k" rule: linorder_cases)
  case less
  have "\<not> n \<le> m" using div_le_mono [of n m k] less by linarith
  then show ?thesis using less by simp
next
  case equal
  have "m = n div k * k + m mod k" "n = n div k * k + n mod k" using equal by (metis div_mult_mod_eq)+
  then have "m < n \<longleftrightarrow> m mod k < n mod k" by linarith
  with equal show ?thesis by simp
next
  case greater
  have "\<not> m < n" using div_le_mono [of m n k] greater by linarith
  then show ?thesis using greater by simp
qed

lemma pad_less: "m < 10 ^ k \<Longrightarrow> n < 10 ^ k \<Longrightarrow> pad k m < pad k n \<longleftrightarrow> m < n"
proof (induction k arbitrary: m n)
  case (Suc k)
  have "m div 10 < 10 ^ k" "n div 10 < 10 ^ k" using Suc.prems by (simp_all add: less_mult_imp_div_less mult.commute)
  note d = this
  have "pad k (m div 10) = pad k (n div 10) \<longleftrightarrow> m div 10 = n div 10" using digits_val_pad [OF d(1)] digits_val_pad [OF d(2)] by metis
  moreover have "m < n \<longleftrightarrow> m div 10 < n div 10 \<or> m div 10 = n div 10 \<and> m mod 10 < n mod 10"
    by (rule less_div_mod) simp
  ultimately show ?case using Suc.IH [OF d] by (simp add: lex_append digit_char_less)
qed simp

lemma pad_inject: "m < 10 ^ k \<Longrightarrow> n < 10 ^ k \<Longrightarrow> pad k m = pad k n \<longleftrightarrow> m = n"
  using digits_val_pad by metis

subsection \<open>Valid dates\<close>

lemma sorted_filter_nth:
  fixes v :: int
  assumes "sorted_wrt (<) xs"
  defines "k \<equiv> length (filter (\<lambda>x. x \<le> v) xs)"
  shows "0 < k \<Longrightarrow> xs ! (k - 1) \<le> v" and "k < length xs \<Longrightarrow> v < xs ! k"
proof -
  have "(0 < k \<longrightarrow> xs ! (k - 1) \<le> v) \<and> (k < length xs \<longrightarrow> v < xs ! k)"
    using assms(1) unfolding k_def
  proof (induction xs)
    case (Cons x xs)
    show ?case
    proof (cases "x \<le> v")
      case True
      with Cons show ?thesis by (cases "length (filter (\<lambda>x. x \<le> v) xs)") auto
    next
      case False
      then have "filter (\<lambda>x. x \<le> v) xs = []" using Cons.prems by (auto simp: filter_empty_conv)
      with False show ?thesis by simp
    qed
  qed simp
  then show "0 < k \<Longrightarrow> xs ! (k - 1) \<le> v" "k < length xs \<Longrightarrow> v < xs ! k" by simp_all
qed

definition month_starts :: "bool \<Rightarrow> int list" where
  "month_starts l = map (month_start l) [1, 2, 3, 4, 5, 6, 7, 8, 9, 10, 11, 12]"

lemma month_starts: "sorted_wrt (<) (month_starts l)" "length (month_starts l) = 12"
  "month_of l yd = int (length (filter (\<lambda>x. x \<le> yd) (month_starts l)))"
  by (simp_all add: month_starts_def month_start_def month_of_def)

lemma month_starts_nth: "k < 12 \<Longrightarrow> month_starts l ! k = month_start l (int k + 1)"
proof -
  assume "k < 12"
  moreover have "[1, 2, 3, 4, 5, 6, 7, 8, 9, 10, 11, 12] = map (\<lambda>i. int i + 1) [0..<12]" by (simp add: upt_rec numeral_2_eq_2)
  ultimately show ?thesis unfolding month_starts_def by (simp del: upt_rec_numeral)
qed

lemma month_of_ok:
  assumes "0 \<le> yd"
  shows "month_start l (month_of l yd) \<le> yd" "month_of l yd < 12 \<Longrightarrow> yd < month_start l (month_of l yd + 1)"
proof -
  define k where "k = length (filter (\<lambda>x. x \<le> yd) (month_starts l))"
  have k: "month_of l yd = int k" "0 < k" "k \<le> 12"
    using month_starts(3) [of l yd] month_of_range [OF assms, THEN conjunct1, of l] month_of_range [OF assms, THEN conjunct2, of l]
    unfolding k_def [symmetric] by linarith+
  note s = sorted_filter_nth [OF month_starts(1) [of l], where v = yd, folded k_def]
  show "month_start l (month_of l yd) \<le> yd" using s(1) k(2,3) month_starts_nth [of "k - 1" l] by (simp add: k(1) of_nat_diff)
  show "yd < month_start l (month_of l yd + 1)" if "month_of l yd < 12"
    using s(2) k(3) that month_starts_nth [of k l] month_starts(2) [of l] by (simp add: k(1) add.commute)
qed

lemma civil_valid:
  assumes "civil n = (y, m, d)"
  shows "1 \<le> d" "d \<le> month_length y m" "days_before_year y \<le> n" "n < days_before_year (y + 1)"
proof -
  have y: "y = year_of_day n" and m: "m = month_of (is_leap y) (n - days_before_year y)"
    and d: "d = n - days_before_year y - month_start (is_leap y) m + 1"
    using assms by (auto simp: civil_def Let_def)
  show 1: "days_before_year y \<le> n" and 2: "n < days_before_year (y + 1)" using year_of_day_ok [of n] by (simp_all add: y)
  then have yd: "0 \<le> n - days_before_year y" by simp
  show "1 \<le> d" using month_of_ok(1) [OF yd, of "is_leap y"] by (simp add: d m)
  show "d \<le> month_length y m"
  proof (cases "m = 12")
    case True
    then show ?thesis using 2 days_before_next_year [of y] by (auto simp: month_length_def d month_start_def split: if_splits)
  next
    case False
    then have "m < 12" using month_of_range [OF yd, of "is_leap y"] by (simp add: m)
    then show ?thesis using month_of_ok(2) [OF yd, of "is_leap y"] False by (simp add: month_length_def d m)
  qed
qed

subsection \<open>The date of a day grows with the day\<close>

lemma month_start_step: "1 \<le> m \<Longrightarrow> m < m' \<Longrightarrow> m' \<le> 12 \<Longrightarrow> month_start l m + 28 \<le> month_start l m'"
proof -
  assume m: "1 \<le> m" "m < m'" "m' \<le> 12"
  then have "sorted_wrt (\<lambda>a b. a + 28 \<le> b) (month_starts l)" by (simp add: month_starts_def month_start_def)
  from sorted_wrt_nth_less [OF this, of "nat (m - 1)" "nat (m' - 1)"] m
  show ?thesis by (simp add: month_starts month_starts_nth)
qed

lemma month_end:
  assumes "1 \<le> m" "m < m'" "m' \<le> 12"
  shows "month_start (is_leap y) m + month_length y m \<le> month_start (is_leap y) m'"
proof (cases "m' = m + 1")
  case True
  then show ?thesis using assms by (simp add: month_length_def)
next
  case False
  then show ?thesis using assms month_start_step [of "m + 1" m' "is_leap y"] by (simp add: month_length_def)
qed

lemma days_before_year_mono: "u \<le> v \<Longrightarrow> days_before_year u \<le> days_before_year v"
proof (induction v rule: int_ge_induct)
  case (step v)
  then show ?case using days_before_next_year [of v] by simp
qed simp

lemma date_day_less:
  assumes "civil a = (y, m, d)" "civil b = (y', m', d')" "a < b"
  shows "y < y' \<or> y = y' \<and> (m < m' \<or> m = m' \<and> d < d')"
proof (rule ccontr)
  assume n: "\<not> ?thesis"
  note A = civil_valid [OF assms(1)] civil_ok [OF assms(1)] and B = civil_valid [OF assms(2)] civil_ok [OF assms(2)]
  have "y' \<le> y" using n by auto
  moreover have "\<not> y' < y"
  proof
    assume "y' < y"
    then have "days_before_year (y' + 1) \<le> days_before_year y" by (intro days_before_year_mono) simp
    with A(3) B(4) assms(3) show False by linarith
  qed
  ultimately have y: "y' = y" by simp
  with n have "m' < m \<or> m' = m \<and> d' \<le> d" by auto
  then have "b \<le> a"
  proof
    assume "m' < m"
    from month_end [OF B(6) this A(7), of y] have "month_start (is_leap y) m' + d' \<le> month_start (is_leap y) m + d"
      using A(1) B(2) y by simp
    then show ?thesis using A(5) B(5) y by (simp add: date_day_def)
  next
    assume "m' = m \<and> d' \<le> d"
    then show ?thesis using A(5) B(5) y by (simp add: date_day_def)
  qed
  with assms(3) show False by simp
qed

subsection \<open>Order and round trip\<close>

lemma append_int_less:
  assumes "0 \<le> i" "i < 10 ^ k" "0 \<le> j" "j < 10 ^ k"
  shows "append_int k i @ x < append_int k j @ y \<longleftrightarrow> i < j \<or> i = j \<and> x < y"
proof -
  have "nat i < 10 ^ k" "nat j < 10 ^ k" using assms by (simp_all add: nat_less_iff)
  then show ?thesis using assms by (simp add: append_int_pad lex_append pad_less pad_inject) linarith
qed

lemma append_int_lessI:
  "i < j \<or> i = j \<and> P \<Longrightarrow> 0 \<le> i \<Longrightarrow> i < 10 ^ k \<Longrightarrow> 0 \<le> j \<Longrightarrow> j < 10 ^ k \<Longrightarrow> (P \<Longrightarrow> x < y) \<Longrightarrow>
    append_int k i @ [c] @ x < append_int k j @ [c] @ y"
  by (auto simp: append_int_less)

lemma fields_less:
  assumes "y < y' \<or> y = y' \<and> (m < m' \<or> m = m' \<and> (d < d' \<or> d = d' \<and> (h < h' \<or> h = h' \<and>
      (mi < mi' \<or> mi = mi' \<and> (ss < ss' \<or> ss = ss' \<and> ns < ns')))))"
    and "0 \<le> y" "y < 10 ^ 4" "0 \<le> y'" "y' < 10 ^ 4" "0 \<le> m" "m < 10 ^ 2" "0 \<le> m'" "m' < 10 ^ 2"
    and "0 \<le> d" "d < 10 ^ 2" "0 \<le> d'" "d' < 10 ^ 2" "0 \<le> h" "h < 10 ^ 2" "0 \<le> h'" "h' < 10 ^ 2"
    and "0 \<le> mi" "mi < 10 ^ 2" "0 \<le> mi'" "mi' < 10 ^ 2" "0 \<le> ss" "ss < 10 ^ 2" "0 \<le> ss'" "ss' < 10 ^ 2"
    and "0 \<le> ns" "ns < 10 ^ 9" "0 \<le> ns'" "ns' < 10 ^ 9"
  shows "append_int 4 y @ ''-'' @ append_int 2 m @ ''-'' @ append_int 2 d @ ''T'' @ append_int 2 h @ '':'' @
      append_int 2 mi @ '':'' @ append_int 2 ss @ ''.'' @ append_int 9 ns @ ''Z'' <
    append_int 4 y' @ ''-'' @ append_int 2 m' @ ''-'' @ append_int 2 d' @ ''T'' @ append_int 2 h' @ '':'' @
      append_int 2 mi' @ '':'' @ append_int 2 ss' @ ''.'' @ append_int 9 ns' @ ''Z''"
proof -
  have 7: "append_int 9 ns @ ''Z'' < append_int 9 ns' @ ''Z''" if "ns < ns'"
    using that append_int_less [OF assms(26-29)] by blast
  note 6 = append_int_lessI [OF _ assms(22-25) 7]
  note 5 = append_int_lessI [OF _ assms(18-21) 6]
  note 4 = append_int_lessI [OF _ assms(14-17) 5]
  note 3 = append_int_lessI [OF _ assms(10-13) 4]
  note 2 = append_int_lessI [OF _ assms(6-9) 3]
  show ?thesis by (rule append_int_lessI [OF assms(1-5) 2])
qed

lemma fixed_num_append_int: "0 \<le> i \<Longrightarrow> i < 10 ^ k \<Longrightarrow> fixed_num k (append_int k i @ s) = Some (i, s)"
  by (simp add: append_int_pad nat_less_iff)

text \<open>The instants whose year, in UTC, is one of 0 to 9999.\<close>

definition four_digit_year :: "time \<Rightarrow> bool" where
  "four_digit_year t \<longleftrightarrow> - 366 * day_length \<le> t \<and> t < 3652059 * day_length"

lemma four_digit_civil:
  assumes "four_digit_year t" "civil (t div day_length) = (y, m, d)"
  shows "0 \<le> y" "y < 10 ^ 4"
proof -
  have day: "- 366 \<le> t div day_length" "t div day_length < 3652059"
    using assms(1) mult_div_mod_eq [of "24 * 3600000000000" t] pos_mod_bound [of "24 * 3600000000000" t]
      pos_mod_sign [of "24 * 3600000000000" t]
    unfolding four_digit_year_def day_length_def hour_def by linarith+
  have ends: "days_before_year 0 = - 366" "days_before_year 10000 = 3652059" by (simp_all add: days_before_year_def)
  show "0 \<le> y"
  proof (rule ccontr)
    assume "\<not> 0 \<le> y"
    then have "days_before_year (y + 1) \<le> days_before_year 0" by (intro days_before_year_mono) simp
    then show False using civil_valid(4) [OF assms(2)] day(1) ends by simp
  qed
  show "y < 10 ^ 4"
  proof (rule ccontr)
    assume "\<not> y < 10 ^ 4"
    then have "days_before_year 10000 \<le> days_before_year y" by (intro days_before_year_mono) simp
    then show False using civil_valid(3) [OF assms(2)] day(2) ends by simp
  qed
qed

lemma clock_parts:
  defines "h \<equiv> \<lambda>t. t mod day_length div hour" and "mi \<equiv> \<lambda>t. t mod day_length div minute mod 60"
    and "ss \<equiv> \<lambda>t. t mod day_length div second mod 60" and "ns \<equiv> \<lambda>t. t mod day_length mod second"
  shows "0 \<le> h t" "h t \<le> 23" "0 \<le> mi t" "mi t \<le> 59" "0 \<le> ss t" "ss t \<le> 59" "0 \<le> ns t" "ns t < 10 ^ 9"
    and "h t * hour + mi t * minute + ss t * second + ns t = t mod day_length"
proof -
  define c where "c = t mod day_length"
  have c: "0 \<le> c" "c < 86400000000000" by (simp_all add: c_def day_length_def hour_def)
  have M: "c div 60000000000 = c div 1000000000 div 60" and H: "c div 3600000000000 = c div 1000000000 div 60 div 60"
    by (simp_all flip: zdiv_zmult2_eq)
  define s where "s = c div 1000000000"
  have s: "c = 1000000000 * s + c mod 1000000000" by (simp add: s_def)
  have 1: "s = 60 * (s div 60) + s mod 60" "s div 60 = 60 * (s div 60 div 60) + s div 60 mod 60" by simp_all
  have eqs: "h t = s div 60 div 60" "mi t = s div 60 mod 60" "ss t = s mod 60" "ns t = c mod 1000000000"
    by (simp_all add: h_def mi_def ss_def ns_def c_def [symmetric] s_def hour_def minute_def second_def H M)
  have "h t = c div 3600000000000" by (simp add: eqs s_def H)
  moreover have "c div 3600000000000 \<le> 23" "0 \<le> c div 3600000000000" using c by (simp_all add: pos_imp_zdiv_nonneg_iff)
  ultimately show "0 \<le> h t" "h t \<le> 23" by simp_all
  have b: "0 \<le> x mod 60" "x mod 60 \<le> 59" for x :: int using pos_mod_bound [of 60 x] by simp_all
  show "0 \<le> mi t" "mi t \<le> 59" "0 \<le> ss t" "ss t \<le> 59" using b by (simp_all add: eqs)
  show "0 \<le> ns t" "ns t < 10 ^ 9" by (simp_all add: eqs)
  show "h t * hour + mi t * minute + ss t * second + ns t = t mod day_length"
    unfolding eqs hour_def minute_def second_def c_def [symmetric] using s 1 by linarith
qed

lemma clock_lex:
  fixes h mi ss ns h' mi' ss' ns' :: int
  assumes "h * hour + mi * minute + ss * second + ns < h' * hour + mi' * minute + ss' * second + ns'"
    and "0 \<le> mi" "mi \<le> 59" "0 \<le> ss" "ss \<le> 59" "0 \<le> ns" "ns < 10 ^ 9"
    and "0 \<le> mi'" "mi' \<le> 59" "0 \<le> ss'" "ss' \<le> 59" "0 \<le> ns'" "ns' < 10 ^ 9"
  shows "h < h' \<or> h = h' \<and> (mi < mi' \<or> mi = mi' \<and> (ss < ss' \<or> ss = ss' \<and> ns < ns'))"
  using assms unfolding hour_def minute_def second_def
  by (cases h h' rule: linorder_cases; cases mi mi' rule: linorder_cases; cases ss ss' rule: linorder_cases) simp_all

lemma month_length_le: "1 \<le> m \<Longrightarrow> m \<le> 12 \<Longrightarrow> month_length y m \<le> 31"
proof -
  assume "1 \<le> m" "m \<le> 12"
  then have "m \<in> set [1, 2, 3, 4, 5, 6, 7, 8, 9, 10, 11, 12]" unfolding list.set insert_iff empty_iff by presburger
  moreover have "\<forall>m \<in> set [1, 2, 3, 4, 5, 6, 7, 8, 9, 10, 11, 12]. month_length y m \<le> 31"
    by (simp add: month_length_def month_start_def)
  ultimately show ?thesis by blast
qed

lemma div_mod_less: "t < u \<Longrightarrow> 0 < k \<Longrightarrow> t div k < u div k \<or> t div k = u div k \<and> t mod k < u mod k" for t u k :: int
  using zdiv_mono1 [of t u k] minus_mult_div_eq_mod [of t k] minus_mult_div_eq_mod [of u k] by fastforce

lemma format_less:
  assumes "four_digit_year t" "four_digit_year u" "t < u"
  shows "format_precise t < format_precise u"
proof -
  obtain y m d where c: "civil (t div day_length) = (y, m, d)" by (metis prod_cases3)
  obtain y' m' d' where c': "civil (u div day_length) = (y', m', d')" by (metis prod_cases3)
  have d: "d < 10 ^ 2" "d' < 10 ^ 2"
    using civil_valid(2) [OF c] civil_valid(2) [OF c'] month_length_le [OF civil_ok(2,3) [OF c], of y]
      month_length_le [OF civil_ok(2,3) [OF c'], of y'] by simp_all
  have day: "t div day_length < u div day_length \<or> t div day_length = u div day_length \<and> t mod day_length < u mod day_length"
    using assms(3) by (rule div_mod_less) (simp add: day_length_def hour_def)
  define H Mi S N where "H = (\<lambda>t. t mod day_length div hour)" and "Mi = (\<lambda>t. t mod day_length div minute mod 60)"
    and "S = (\<lambda>t. t mod day_length div second mod 60)" and "N = (\<lambda>t. t mod day_length mod second)"
  have lex: "y < y' \<or> y = y' \<and> (m < m' \<or> m = m' \<and> (d < d' \<or> d = d' \<and> (H t < H u \<or> H t = H u \<and>
      (Mi t < Mi u \<or> Mi t = Mi u \<and> (S t < S u \<or> S t = S u \<and> N t < N u)))))"
    using day
  proof (elim disjE conjE)
    assume "t div day_length < u div day_length"
    from date_day_less [OF c c' this] show ?thesis by blast
  next
    assume "t div day_length = u div day_length" "t mod day_length < u mod day_length"
    have "y = y'" "m = m'" "d = d'" using c c' \<open>t div day_length = u div day_length\<close> by simp_all
    moreover have "H t < H u \<or> H t = H u \<and> (Mi t < Mi u \<or> Mi t = Mi u \<and> (S t < S u \<or> S t = S u \<and> N t < N u))"
      unfolding H_def Mi_def S_def N_def
      by (rule clock_lex [OF _ clock_parts(3-8) [of t] clock_parts(3-8) [of u]])
        (unfold clock_parts(9), rule \<open>t mod day_length < u mod day_length\<close>)
    ultimately show ?thesis by simp
  qed
  have parts: "0 \<le> H x" "H x < 10 ^ 2" "0 \<le> Mi x" "Mi x < 10 ^ 2" "0 \<le> S x" "S x < 10 ^ 2" "0 \<le> N x" "N x < 10 ^ 9" for x
    using clock_parts(1-8) [of x] by (simp_all add: H_def Mi_def S_def N_def)
  have bounds: "0 \<le> y" "y < 10 ^ 4" "0 \<le> y'" "y' < 10 ^ 4" "0 \<le> m" "m < 10 ^ 2" "0 \<le> m'" "m' < 10 ^ 2" "0 \<le> d" "0 \<le> d'"
    using four_digit_civil [OF assms(1) c] four_digit_civil [OF assms(2) c'] civil_ok(2,3) [OF c] civil_ok(2,3) [OF c']
      civil_valid(1) [OF c] civil_valid(1) [OF c'] by simp_all
  show ?thesis
    unfolding format_precise_def c c' prod.case Let_def
    unfolding H_def [THEN fun_cong, symmetric] Mi_def [THEN fun_cong, symmetric] S_def [THEN fun_cong, symmetric]
      N_def [THEN fun_cong, symmetric]
    by (rule fields_less [OF lex bounds(1-8) bounds(9) d(1) bounds(10) d(2) parts(1,2) [of t] parts(1,2) [of u]
        parts(3,4) [of t] parts(3,4) [of u] parts(5,6) [of t] parts(5,6) [of u] parts(7,8) [of t] parts(7,8) [of u]])
qed

lemma format_less_iff:
  assumes "four_digit_year t" "four_digit_year u"
  shows "format_precise t < format_precise u \<longleftrightarrow> t < u" and "format_precise t = format_precise u \<longleftrightarrow> t = u"
  using format_less [OF assms] format_less [OF assms(2,1)] by (cases t u rule: linorder_cases; auto)+

lemma format_le_iff:
  assumes "four_digit_year t" "four_digit_year u"
  shows "format_precise t \<le> format_precise u \<longleftrightarrow> t \<le> u"
  using format_less_iff [OF assms] by (auto simp: order_le_less)

lemma parse_format:
  assumes "four_digit_year t"
  shows "parse_precise (format_precise t) = Some t"
proof -
  obtain y m d where c: "civil (t div day_length) = (y, m, d)" by (metis prod_cases3)
  note ranges = four_digit_civil [OF assms c] civil_ok [OF c] civil_valid(1,2) [OF c]
  have d: "d < 10 ^ 2" using civil_valid(2) [OF c] month_length_le [OF civil_ok(2,3) [OF c], of y] by simp
  define h mi ss ns where "h = t mod day_length div hour" and "mi = t mod day_length div minute mod 60"
    and "ss = t mod day_length div second mod 60" and "ns = t mod day_length mod second"
  have parts: "0 \<le> h" "h \<le> 23" "h < 10 ^ 2" "0 \<le> mi" "mi \<le> 59" "mi < 10 ^ 2" "0 \<le> ss" "ss \<le> 59" "ss < 10 ^ 2" "0 \<le> ns" "ns < 10 ^ 9"
    using clock_parts(1-8) [of t] by (simp_all add: h_def mi_def ss_def ns_def)
  have "h * hour + mi * minute + ss * second + ns = t mod day_length"
    unfolding h_def mi_def ss_def ns_def by (rule clock_parts(9))
  then have sum: "t div day_length * day_length + h * hour + mi * minute + ss * second + ns = t"
    using div_mult_mod_eq [of t day_length] by linarith
  have frac: "parse_fraction (CHR ''.'' # append_int 9 ns @ ''Z'') = Some (ns, ''Z'')"
    using parts atoi_pad [of "nat ns" 9] by (simp add: parse_fraction_def append_int_pad nat_less_iff)
  show ?thesis
    unfolding format_precise_def c prod.case Let_def h_def [symmetric] mi_def [symmetric] ss_def [symmetric] ns_def [symmetric]
    using ranges d parts
    by (simp add: parse_precise_def fixed_num_append_int lit_def in_range_def one_or_two_def frac parse_zone_def sum)
qed

text \<open>
  The text form of an instant is exact and sortable: within the years 0 to 9999, parsing what was formatted gives the
  instant back to the nanosecond, and comparing two texts byte by byte compares the instants.
\<close>
theorem precise_time_exact:
  assumes "four_digit_year t" "four_digit_year u"
  shows "parse_precise (format_precise t) = Some t \<and> (format_precise t < format_precise u \<longleftrightarrow> t < u)"
  using parse_format [OF assms(1)] format_less_iff(1) [OF assms] by simp

theorem precise_time_exact_witness:
  "parse_precise (format_precise 1) = Some 1 \<and> (format_precise 1 < format_precise (2 * second) \<longleftrightarrow> 1 < 2 * second)"
  by (rule precise_time_exact) (simp_all add: four_digit_year_def day_length_def hour_def second_def)

end
