(* ===== verification/Sweep.thy ===== *)
theory Sweep
  imports Calendar Dao Http
begin

section \<open>internal/sweep: the retention sweep\<close>

text \<open>
  \<open>Run\<close> and \<open>runClass\<close> over an abstract world \<open>'w\<close>: the sweeper (one DAO method), the optional metric
  emitter and the optional run recorder are records of operations on it, and so are \<open>ctx.Err()\<close> and
  \<open>time.Now()\<close>. The batch loop has no bound of its own, so it is a partial function: \<open>None\<close> is a loop
  that never ends. Log lines are left out; the age of the oldest row is kept as a duration instead of
  floating-point seconds.

  The locale \<open>expiry_sweeper\<close> states what \<open>Run\<close> relies on: a batch that is not the last one removes
  rows, a drained batch leaves no expired row of its class, and every batch moves the store along the
  relation \<open>rel\<close>. Termination and the effect of a whole run are proved from that once.
\<close>

definition maxRowsPerBatch :: int where "maxRowsPerBatch = 1000"

fun cutoffFor :: "time \<Rightarrow> retention_class \<Rightarrow> time option" where
  "cutoffFor now RetentionDirect = Some (add_date now 0 (- 24) 0)"
| "cutoffFor now RetentionIDPCache = Some (add_date now 0 0 (- 30))"
| "cutoffFor now RetentionIDPCacheOrphan = Some (add_date now 0 0 (- 7))"
| "cutoffFor now (OtherClass _) = None"

definition allClasses :: "retention_class list" where
  "allClasses = [RetentionDirect, RetentionIDPCache, RetentionIDPCacheOrphan]"

type_synonym 'w expiry_sweeper =
  "retention_class \<Rightarrow> time \<Rightarrow> int \<Rightarrow> ('w, goerr, sweep_result) op"

record 'w metric_emitter =
  me_MarkRunStarted :: "time \<Rightarrow> 'w \<Rightarrow> 'w"
  me_EmitClassMetrics :: "retention_class \<Rightarrow> int \<Rightarrow> int \<Rightarrow> duration option \<Rightarrow> 'w \<Rightarrow> 'w"

record 'w run_recorder =
  rr_StartRun :: "retention_class \<Rightarrow> time \<Rightarrow> duration \<Rightarrow> ('w, goerr, string \<times> int) op"
  rr_FinishRun :: "string \<Rightarrow> time \<Rightarrow> int \<Rightarrow> int \<Rightarrow> bool \<Rightarrow> time option \<Rightarrow> ('w, goerr, unit) op"
  rr_PruneOlderThan :: "time \<Rightarrow> ('w, goerr, unit) op"

record class_result =
  cr_Class :: retention_class
  cr_RowsExamined :: int
  cr_RowsDeleted :: int
  cr_Drained :: bool
  cr_Err :: "goerr option"

definition retentionSweepRunRetention :: duration where
  "retentionSweepRunRetention = 30 * 24 * hour"

record 'w sweep_env =
  se_ctx_Err :: "'w \<Rightarrow> goerr option \<times> 'w"
  se_now :: "'w \<Rightarrow> time \<times> 'w"
  se_repo :: "'w expiry_sweeper"
  se_emit :: "'w metric_emitter option"
  se_recorder :: "'w run_recorder option"

subsection \<open>runClass\<close>

definition start_run :: "'w sweep_env \<Rightarrow> retention_class \<Rightarrow> time \<Rightarrow> duration \<Rightarrow> 'w \<Rightarrow> string \<times> 'w" where
  "start_run d class now interval w =
     (case se_recorder d of
        None \<Rightarrow> ([], w)
      | Some rec \<Rightarrow> (case rr_StartRun rec class now interval w of
          (Inl err, w') \<Rightarrow> ([], w')
        | (Inr (i, missedSlots), w') \<Rightarrow> (i, w')))"

text \<open>What follows a drained batch: the metrics, then the finished run.\<close>

definition finish_class :: "'w sweep_env \<Rightarrow> time \<Rightarrow> string \<Rightarrow> class_result \<Rightarrow> time option \<Rightarrow> 'w \<Rightarrow> class_result \<times> 'w" where
  "finish_class d now runID result oldest w =
     (let result = result\<lparr>cr_Drained := True\<rparr>;
          age = map_option (time_sub now) oldest;
          w1 = (case se_emit d of
             None \<Rightarrow> w
           | Some e \<Rightarrow> me_EmitClassMetrics e (cr_Class result) (cr_RowsExamined result) (cr_RowsDeleted result) age w)
      in (result, case se_recorder d of
           None \<Rightarrow> w1
         | Some rec \<Rightarrow>
             if runID = [] then w1
             else (case se_now d w1 of (t, w2) \<Rightarrow>
               snd (rr_FinishRun rec runID t (cr_RowsExamined result) (cr_RowsDeleted result) True oldest w2))))"

partial_function (option) batch_loop ::
  "'w sweep_env \<Rightarrow> time \<Rightarrow> time \<Rightarrow> string \<Rightarrow> class_result \<Rightarrow> 'w \<Rightarrow> (class_result \<times> 'w) option" where
  "batch_loop d now cutoff runID result w =
     (case se_ctx_Err d w of
        (Some err, w1) \<Rightarrow> Some (result\<lparr>cr_Err := Some err\<rparr>, w1)
      | (None, w1) \<Rightarrow>
          (case se_repo d (cr_Class result) cutoff maxRowsPerBatch w1 of
             (Inl err, w2) \<Rightarrow> Some (result\<lparr>cr_Err := Some err\<rparr>, w2)
           | (Inr batch, w2) \<Rightarrow>
               (let result = result\<lparr>cr_RowsExamined := cr_RowsExamined result + RowsExamined batch,
                      cr_RowsDeleted := cr_RowsDeleted result + RowsDeleted batch\<rparr>
                in if Drained batch then Some (finish_class d now runID result (OldestSurvivingAt batch) w2)
                   else batch_loop d now cutoff runID result w2)))"

definition runClass :: "'w sweep_env \<Rightarrow> retention_class \<Rightarrow> time \<Rightarrow> duration \<Rightarrow> 'w \<Rightarrow> (class_result \<times> 'w) option" where
  "runClass d class now interval w =
     (let zero = \<lparr>cr_Class = class, cr_RowsExamined = 0, cr_RowsDeleted = 0, cr_Drained = False, cr_Err = None\<rparr> in
      case cutoffFor now class of
        None \<Rightarrow> Some (zero\<lparr>cr_Err := Some (ErrText (''sweep: no cutoff defined for class '' @ go_quote (class_string class)))\<rparr>, w)
      | Some cutoff \<Rightarrow> (case start_run d class now interval w of
          (runID, w1) \<Rightarrow> batch_loop d now cutoff runID zero w1))"

fun run_classes ::
  "'w sweep_env \<Rightarrow> retention_class list \<Rightarrow> time \<Rightarrow> duration \<Rightarrow> 'w \<Rightarrow> (class_result list \<times> 'w) option" where
  "run_classes d [] now interval w = Some ([], w)"
| "run_classes d (c # cs) now interval w =
     (case runClass d c now interval w of
        None \<Rightarrow> None
      | Some (r, w1) \<Rightarrow> (case run_classes d cs now interval w1 of
          None \<Rightarrow> None
        | Some (rs, w2) \<Rightarrow> Some (r # rs, w2)))"

definition Run :: "'w sweep_env \<Rightarrow> time \<Rightarrow> duration \<Rightarrow> 'w \<Rightarrow> (class_result list \<times> 'w) option" where
  "Run d now interval w =
     (let w1 = (case se_emit d of None \<Rightarrow> w | Some e \<Rightarrow> me_MarkRunStarted e now w) in
      case run_classes d allClasses now interval w1 of
        None \<Rightarrow> None
      | Some (results, w2) \<Rightarrow> Some (results, case se_recorder d of
          None \<Rightarrow> w2
        | Some rec \<Rightarrow> snd (rr_PruneOlderThan rec (now - retentionSweepRunRetention) w2)))"

subsection \<open>The contract of the sweeper, and what a run does under it\<close>

text \<open>The emitter, the recorder, the clock and the context do not touch the swept tables.\<close>

definition leaves_alone :: "('w \<Rightarrow> 'v) \<Rightarrow> 'w sweep_env \<Rightarrow> bool" where
  "leaves_alone view d \<longleftrightarrow>
     (\<forall>w. view (snd (se_ctx_Err d w)) = view w \<and> view (snd (se_now d w)) = view w) \<and>
     (\<forall>e t c m n a w. se_emit d = Some e \<longrightarrow>
        view (me_MarkRunStarted e t w) = view w \<and> view (me_EmitClassMetrics e c m n a w) = view w) \<and>
     (\<forall>rec c t i k m n b old w. se_recorder d = Some rec \<longrightarrow>
        view (snd (rr_StartRun rec c t k w)) = view w \<and> view (snd (rr_FinishRun rec i t m n b old w)) = view w \<and>
        view (snd (rr_PruneOlderThan rec t w)) = view w)"

lemma alone_calls:
  assumes "leaves_alone view d"
  shows "se_ctx_Err d w = (r1, w') \<Longrightarrow> view w' = view w" "se_now d w = (r2, w') \<Longrightarrow> view w' = view w"
    "se_emit d = Some e \<Longrightarrow> view (me_MarkRunStarted e t w) = view w"
    "se_emit d = Some e \<Longrightarrow> view (me_EmitClassMetrics e c m n a w) = view w"
    "se_recorder d = Some rec \<Longrightarrow> rr_StartRun rec c t k w = (r3, w') \<Longrightarrow> view w' = view w"
    "se_recorder d = Some rec \<Longrightarrow> view (snd (rr_FinishRun rec i t m n b old w)) = view w"
    "se_recorder d = Some rec \<Longrightarrow> view (snd (rr_PruneOlderThan rec t w)) = view w"
  using assms unfolding leaves_alone_def by (metis snd_conv)+

text \<open>The outcome of one class on the final store: drained and clean, or failed.\<close>

definition class_outcome ::
  "(retention_class \<Rightarrow> time \<Rightarrow> 'v \<Rightarrow> bool) \<Rightarrow> time \<Rightarrow> 'v \<Rightarrow> class_result \<Rightarrow> bool" where
  "class_outcome stale now v r \<longleftrightarrow>
     (if cr_Drained r
      then cr_Err r = None \<and> (\<exists>cutoff. cutoffFor now (cr_Class r) = Some cutoff \<and> \<not> stale (cr_Class r) cutoff v)
      else cr_Err r \<noteq> None)"

locale expiry_sweeper =
  fixes del :: "'w expiry_sweeper"
    and view :: "'w \<Rightarrow> 'v"
    and inv :: "'v \<Rightarrow> bool"
    and rows :: "'v \<Rightarrow> nat"
    and stale :: "retention_class \<Rightarrow> time \<Rightarrow> 'v \<Rightarrow> bool"
    and rel :: "(retention_class \<Rightarrow> time option) \<Rightarrow> 'v \<Rightarrow> 'v \<Rightarrow> bool"
  assumes del_inv: "inv (view w) \<Longrightarrow> del c t n w = (r, w') \<Longrightarrow> inv (view w')"
    and del_more: "inv (view w) \<Longrightarrow> del c t n w = (Inr b, w') \<Longrightarrow> \<not> Drained b \<Longrightarrow> rows (view w') < rows (view w)"
    and del_drained: "inv (view w) \<Longrightarrow> del c t n w = (Inr b, w') \<Longrightarrow> Drained b \<Longrightarrow> \<not> stale c t (view w')"
    and del_rel: "inv (view w) \<Longrightarrow> del c t n w = (r, w') \<Longrightarrow> T c = Some t \<Longrightarrow> rel T (view w) (view w')"
    and rel_refl: "rel T v v"
    and rel_trans: "rel T u v \<Longrightarrow> rel T v x \<Longrightarrow> rel T u x"
    and rel_stale: "rel T u v \<Longrightarrow> stale c t v \<Longrightarrow> stale c t u"
begin

lemma finish_class_view:
  assumes "leaves_alone view d" "finish_class d now i r old w = (r', w')"
  shows "view w' = view w \<and> r' = r\<lparr>cr_Drained := True\<rparr>"
  using assms(2)
  by (auto simp: finish_class_def Let_def alone_calls(4,6) [OF assms(1)]
      split: option.splits if_splits prod.splits dest: alone_calls(2) [OF assms(1)])

lemma start_run_view: "leaves_alone view d \<Longrightarrow> start_run d c now k w = (i, w') \<Longrightarrow> view w' = view w"
  by (auto simp: start_run_def split: option.splits prod.splits sum.splits dest: alone_calls(5))

lemma batch_loop_ends:
  assumes "leaves_alone view d" "se_repo d = del" "T c = Some cutoff"
    and "inv (view w)" "cr_Class r0 = c" "\<not> cr_Drained r0" "cr_Err r0 = None"
  shows "\<exists>r w'. batch_loop d now cutoff i r0 w = Some (r, w') \<and> cr_Class r = c \<and> inv (view w') \<and>
    rel T (view w) (view w') \<and> (if cr_Drained r then cr_Err r = None \<and> \<not> stale c cutoff (view w') else cr_Err r \<noteq> None)"
  using assms(4-7)
proof (induction "rows (view w)" arbitrary: w r0 rule: less_induct)
  case less
  note call = less.prems(2) batch_loop.simps [of d now cutoff i r0 w]
  obtain e w1 where ctx: "se_ctx_Err d w = (e, w1)" by fastforce
  have v1: "view w1 = view w" by (rule alone_calls(1) [OF assms(1) ctx])
  have i1: "inv (view w1)" using less.prems(1) by (simp add: v1)
  show ?case
  proof (cases e)
    case (Some err)
    then show ?thesis using call ctx less.prems v1 by (simp add: rel_refl)
  next
    case None
    obtain x w2 where d2: "del c cutoff maxRowsPerBatch w1 = (x, w2)" by fastforce
    have i2: "inv (view w2)" by (rule del_inv [OF i1 d2])
    have r2: "rel T (view w) (view w2)" using del_rel [where T = T and c = c, OF i1 d2 assms(3)] by (simp add: v1)
    show ?thesis
    proof (cases x)
      case (Inl err)
      then show ?thesis using call ctx None d2 i2 r2 less.prems assms(2) by simp
    next
      case (Inr b)
      let ?r = "r0\<lparr>cr_RowsExamined := cr_RowsExamined r0 + RowsExamined b, cr_RowsDeleted := cr_RowsDeleted r0 + RowsDeleted b\<rparr>"
      show ?thesis
      proof (cases "Drained b")
        case True
        obtain r' w3 where f: "finish_class d now i ?r (OldestSurvivingAt b) w2 = (r', w3)" by fastforce
        note v3 = finish_class_view [OF assms(1) f]
        show ?thesis
          using call ctx None d2 Inr True f v3 i2 r2 less.prems assms(2) del_drained [OF i1 d2 [unfolded Inr] True]
          by simp
      next
        case False
        have "rows (view w2) < rows (view w)" using del_more [OF i1 d2 [unfolded Inr] False] by (simp add: v1)
        then obtain r w' where h: "batch_loop d now cutoff i ?r w2 = Some (r, w')" "cr_Class r = c" "inv (view w')"
            "rel T (view w2) (view w')"
            "if cr_Drained r then cr_Err r = None \<and> \<not> stale c cutoff (view w') else cr_Err r \<noteq> None"
          using less.hyps [of w2 ?r] i2 less.prems by auto
        show ?thesis
          by (intro exI [of _ r] exI [of _ w'])
            (use call ctx None d2 Inr False h rel_trans [OF r2 h(4)] assms(2) in simp)
      qed
    qed
  qed
qed

lemma runClass_ends:
  assumes "leaves_alone view d" "se_repo d = del" "inv (view w)"
  shows "\<exists>r w'. runClass d c now k w = Some (r, w') \<and> cr_Class r = c \<and> inv (view w') \<and>
    rel (cutoffFor now) (view w) (view w') \<and> class_outcome stale now (view w') r"
proof (cases "cutoffFor now c")
  case None
  then show ?thesis using assms(3) by (simp add: runClass_def rel_refl class_outcome_def Let_def)
next
  case (Some cutoff)
  obtain i w1 where s: "start_run d c now k w = (i, w1)" by fastforce
  have v: "view w1 = view w" by (rule start_run_view [OF assms(1) s])
  show ?thesis
    using batch_loop_ends [of d "cutoffFor now" c cutoff w1
        "\<lparr>cr_Class = c, cr_RowsExamined = 0, cr_RowsDeleted = 0, cr_Drained = False, cr_Err = None\<rparr>" now i]
      assms s Some by (auto simp: runClass_def Let_def v class_outcome_def split: if_splits)
qed

lemma outcome_later: "rel T u v \<Longrightarrow> class_outcome stale now u r \<Longrightarrow> class_outcome stale now v r"
  using rel_stale by (auto simp: class_outcome_def split: if_splits)

lemma run_classes_ends:
  assumes "leaves_alone view d" "se_repo d = del" "inv (view w)"
  shows "\<exists>rs w'. run_classes d cs now k w = Some (rs, w') \<and> map cr_Class rs = cs \<and> inv (view w') \<and>
    rel (cutoffFor now) (view w) (view w') \<and> list_all (class_outcome stale now (view w')) rs"
  using assms(3)
proof (induction cs arbitrary: w)
  case Nil
  then show ?case by (simp add: rel_refl)
next
  case (Cons c cs)
  obtain r w1 where r: "runClass d c now k w = Some (r, w1)" "cr_Class r = c" "inv (view w1)"
      "rel (cutoffFor now) (view w) (view w1)" "class_outcome stale now (view w1) r"
    using runClass_ends [OF assms(1,2) Cons.prems] by blast
  obtain rs w2 where rs: "run_classes d cs now k w1 = Some (rs, w2)" "map cr_Class rs = cs" "inv (view w2)"
      "rel (cutoffFor now) (view w1) (view w2)" "list_all (class_outcome stale now (view w2)) rs"
    using Cons.IH [OF r(3)] by blast
  show ?case
    using r rs outcome_later [OF rs(4) r(5)] rel_trans [OF r(4) rs(4)] by simp
qed

lemma Run_ends:
  assumes "leaves_alone view d" "se_repo d = del" "inv (view w)"
  obtains rs w' where "Run d now k w = Some (rs, w')" "map cr_Class rs = allClasses" "inv (view w')"
    "rel (cutoffFor now) (view w) (view w')" "list_all (class_outcome stale now (view w')) rs"
proof -
  let ?w1 = "case se_emit d of None \<Rightarrow> w | Some e \<Rightarrow> me_MarkRunStarted e now w"
  have v1: "view ?w1 = view w" by (simp add: alone_calls(3) [OF assms(1)] split: option.split)
  obtain rs w2 where rs: "run_classes d allClasses now k ?w1 = Some (rs, w2)" "map cr_Class rs = allClasses"
      "inv (view w2)" "rel (cutoffFor now) (view w) (view w2)" "list_all (class_outcome stale now (view w2)) rs"
    using run_classes_ends [OF assms(1,2), of ?w1 allClasses now k] assms(3) by (auto simp: v1)
  let ?w3 = "case se_recorder d of None \<Rightarrow> w2
    | Some rec \<Rightarrow> snd (rr_PruneOlderThan rec (now - retentionSweepRunRetention) w2)"
  have v3: "view ?w3 = view w2" by (simp add: alone_calls(7) [OF assms(1)] split: option.split)
  show thesis
    by (rule that [of rs ?w3]) (use rs v3 in \<open>simp_all add: Run_def Let_def\<close>)
qed

end

end
