(* ===== verification/SweepStore.thy ===== *)
theory SweepStore
  imports TimeText Sweep ApiCore "HOL-Library.Signed_Division"
begin

section \<open>internal/sweepstore/sweepstore.go: the table of sweep runs\<close>

text \<open>
  The table \<open>retention_sweep_run\<close> of migrations/sqlite/00002 and migrations/postgres/00003 and the statements of the
  store. A time column is a PostgreSQL timestamp, kept to the microsecond, or the text SQLite stores; which one is the
  store's \<open>isPgx\<close>. Statement number \<open>n\<close> fails with \<open>fault n\<close> when that is an error (a cancelled context is such
  an error too), new ids are drawn from \<open>uuid\<close>, and \<open>violation\<close> is the driver's error for a constraint.
\<close>

subsection \<open>Cells\<close>

datatype tcell = Native time | TextCell string

instantiation tcell :: linorder
begin

fun less_eq_tcell :: "tcell \<Rightarrow> tcell \<Rightarrow> bool" where
  "less_eq_tcell (Native a) (Native b) \<longleftrightarrow> a \<le> b"
| "less_eq_tcell (TextCell a) (TextCell b) \<longleftrightarrow> a \<le> b"
| "less_eq_tcell (Native a) (TextCell b) \<longleftrightarrow> True"
| "less_eq_tcell (TextCell a) (Native b) \<longleftrightarrow> False"

definition less_tcell :: "tcell \<Rightarrow> tcell \<Rightarrow> bool" where
  "less_tcell a b \<longleftrightarrow> a \<le> b \<and> \<not> b \<le> a"

instance
proof
  fix a b c :: tcell
  show "a < b \<longleftrightarrow> a \<le> b \<and> \<not> b \<le> a" by (rule less_tcell_def)
  show "a \<le> a" by (cases a) auto
  show "a \<le> b \<Longrightarrow> b \<le> c \<Longrightarrow> a \<le> c" by (cases a; cases b; cases c) auto
  show "a \<le> b \<Longrightarrow> b \<le> a \<Longrightarrow> a = b" by (cases a; cases b) auto
  show "a \<le> b \<or> b \<le> a" by (cases a; cases b) auto
qed

end

record sweep_run_row =
  sr_id :: string
  sr_class :: string
  sr_started :: tcell
  sr_finished :: "tcell option"
  sr_examined :: int
  sr_deleted :: int
  sr_oldest :: "tcell option"
  sr_drained :: bool
  sr_missed :: int

record sweep_db =
  sd_rows :: "sweep_run_row list"
  sd_stmts :: nat
  sd_draws :: nat

record sweep_store =
  ss_isPgx :: bool
  ss_fault :: "nat \<Rightarrow> goerr option"
  ss_uuid :: "nat \<Rightarrow> string"
  ss_violation :: "string \<Rightarrow> goerr"

definition NewStore :: "(nat \<Rightarrow> goerr option) \<Rightarrow> (nat \<Rightarrow> string) \<Rightarrow> (string \<Rightarrow> goerr) \<Rightarrow> string \<Rightarrow> sweep_store" where
  "NewStore fault uuid violation driver =
     \<lparr>ss_isPgx = (driver = ''pgx''), ss_fault = fault, ss_uuid = uuid, ss_violation = violation\<rparr>"

definition timestamptz :: "time \<Rightarrow> time" where
  "timestamptz t = t div 1000 * 1000"

definition encodeTime :: "sweep_store \<Rightarrow> time \<Rightarrow> tcell" where
  "encodeTime st t = (if ss_isPgx st then Native (timestamptz t) else TextCell (format_precise t))"

definition encodeTimePtr :: "sweep_store \<Rightarrow> time option \<Rightarrow> tcell option" where
  "encodeTimePtr st t = map_option (encodeTime st) t"

text \<open>What \<open>scanNullableTime\<close> makes of a cell that is not NULL.\<close>

definition scan_time :: "sweep_store \<Rightarrow> tcell \<Rightarrow> goerr + time" where
  "scan_time st c =
     (case c of
        Native t \<Rightarrow> if ss_isPgx st then Inr t else Inl (ErrText ''sql: Scan error'')
      | TextCell s \<Rightarrow>
          if ss_isPgx st then Inl (ErrText ''sql: Scan error'')
          else (case parse_precise s of
              None \<Rightarrow> Inl (Wrap (''parsing timestamp '' @ go_quote s @ '': '') (ErrText ''parsing time''))
            | Some t \<Rightarrow> Inr t))"

subsection \<open>Statements\<close>

definition statement :: "sweep_store \<Rightarrow> (sweep_db, goerr, 'a) op \<Rightarrow> (sweep_db, goerr, 'a) op" where
  "statement st m db =
     (let db1 = db\<lparr>sd_stmts := Suc (sd_stmts db)\<rparr> in
      case ss_fault st (sd_stmts db) of Some err \<Rightarrow> (Inl err, db1) | None \<Rightarrow> m db1)"

text \<open>INTEGER is 32 bits wide in PostgreSQL and 64 in SQLite.\<close>

definition integer_ok :: "sweep_store \<Rightarrow> int \<Rightarrow> bool" where
  "integer_ok st n \<longleftrightarrow> (if ss_isPgx st then - (2 ^ 31) \<le> n \<and> n < 2 ^ 31 else - (2 ^ 63) \<le> n \<and> n < 2 ^ 63)"

definition class_check :: "string list" where
  "class_check = [''direct'', ''idp_cache'', ''idp_cache_orphan'']"

definition drained_check :: "sweep_run_row \<Rightarrow> bool" where
  "drained_check r \<longleftrightarrow> sr_drained r \<or> sr_oldest r = None"

definition insert_run :: "sweep_store \<Rightarrow> sweep_run_row \<Rightarrow> (sweep_db, goerr, unit) op" where
  "insert_run st r db =
     (if \<not> integer_ok st (sr_missed r) then (Inl (ss_violation st ''integer out of range''), db)
      else if sr_class r \<notin> set class_check then (Inl (ss_violation st ''ck_retention_sweep_run_class''), db)
      else if \<not> drained_check r then (Inl (ss_violation st ''ck_retention_sweep_run_drained''), db)
      else if sr_id r \<in> sr_id ` set (sd_rows db) then (Inl (ss_violation st ''pk_retention_sweep_run''), db)
      else (Inr (), db\<lparr>sd_rows := sd_rows db @ [r]\<rparr>))"

definition update_run :: "sweep_store \<Rightarrow> string \<Rightarrow> (sweep_run_row \<Rightarrow> sweep_run_row) \<Rightarrow> (sweep_db, goerr, unit) op" where
  "update_run st i f db =
     (let hit = filter (\<lambda>r. sr_id r = i) (sd_rows db) in
      if \<not> list_all (\<lambda>r. integer_ok st (sr_examined (f r)) \<and> integer_ok st (sr_deleted (f r))) hit
      then (Inl (ss_violation st ''integer out of range''), db)
      else if \<not> list_all (\<lambda>r. drained_check (f r)) hit then (Inl (ss_violation st ''ck_retention_sweep_run_drained''), db)
      else (Inr (), db\<lparr>sd_rows := map (\<lambda>r. if sr_id r = i then f r else r) (sd_rows db)\<rparr>))"

subsection \<open>The three writes\<close>

definition finished_cells :: "string \<Rightarrow> sweep_run_row list \<Rightarrow> tcell list" where
  "finished_cells c rows = List.map_filter (\<lambda>r. if sr_class r = c then sr_finished r else None) rows"

text \<open>The newest completion of a class; \<open>sql.ErrNoRows\<close> is its absence.\<close>

definition lastFinishedAt :: "sweep_store \<Rightarrow> retention_class \<Rightarrow> (sweep_db, goerr, time option) op" where
  "lastFinishedAt st class db =
     (case statement st (\<lambda>db. (case finished_cells (class_string class) (sd_rows db) of
          [] \<Rightarrow> (Inl ErrNoRows, db)
        | cells \<Rightarrow> (scan_time st (Max (set cells)), db))) db of
        (Inl err, db1) \<Rightarrow> (if err = ErrNoRows then Inr None else Inl err, db1)
      | (Inr t, db1) \<Rightarrow> (Inr (Some t), db1))"

definition missed_since :: "time \<Rightarrow> duration \<Rightarrow> time option \<Rightarrow> int" where
  "missed_since startedAt interval newest =
     (case newest of
        None \<Rightarrow> 0
      | Some lastFinished \<Rightarrow>
          let gap = time_sub startedAt lastFinished; slots = gap sdiv interval - 1 in
          if 0 < slots then slots else 0)"

definition StartRun :: "sweep_store \<Rightarrow> retention_class \<Rightarrow> time \<Rightarrow> duration \<Rightarrow> (sweep_db, goerr, string \<times> int) op" where
  "StartRun st class startedAt interval =
     bindS (if 0 < interval
         then bindS (map_errS (Wrap (''sweepstore: querying last finished_at for class '' @ go_quote (class_string class) @ '': ''))
             (lastFinishedAt st class)) (\<lambda>newest. retS (missed_since startedAt interval newest))
         else retS 0)
       (\<lambda>missedSlots db.
     let i = ss_uuid st (sd_draws db); db1 = db\<lparr>sd_draws := Suc (sd_draws db)\<rparr> in
     bindS (map_errS (Wrap (''sweepstore: inserting run start for class '' @ go_quote (class_string class) @ '': ''))
         (statement st (insert_run st \<lparr>sr_id = i, sr_class = class_string class, sr_started = encodeTime st startedAt,
            sr_finished = None, sr_examined = 0, sr_deleted = 0, sr_oldest = None, sr_drained = False, sr_missed = missedSlots\<rparr>)))
       (\<lambda>_. retS (i, missedSlots)) db1)"

definition FinishRun ::
  "sweep_store \<Rightarrow> string \<Rightarrow> time \<Rightarrow> int \<Rightarrow> int \<Rightarrow> bool \<Rightarrow> time option \<Rightarrow> (sweep_db, goerr, unit) op" where
  "FinishRun st runID finishedAt rowsExamined rowsDeleted drained oldestSurvivingAt =
     map_errS (Wrap (''sweepstore: recording run finish for run '' @ go_quote runID @ '': ''))
       (statement st (update_run st runID (\<lambda>r. r\<lparr>sr_finished := Some (encodeTime st finishedAt), sr_examined := rowsExamined,
          sr_deleted := rowsDeleted, sr_drained := drained, sr_oldest := encodeTimePtr st oldestSurvivingAt\<rparr>)))"

definition PruneOlderThan :: "sweep_store \<Rightarrow> time \<Rightarrow> (sweep_db, goerr, unit) op" where
  "PruneOlderThan st cutoff =
     map_errS (Wrap ''sweepstore: pruning rows: '')
       (statement st (\<lambda>db. (Inr (), db\<lparr>sd_rows := filter (\<lambda>r. \<not> sr_started r < encodeTime st cutoff) (sd_rows db)\<rparr>)))"

subsection \<open>LatestSnapshots\<close>

record class_snapshot =
  sn_Class :: string
  sn_OldestSurvivingAt :: "time option"
  sn_LastFinishedAt :: "time option"
  sn_RowsExamined :: int
  sn_RowsDeleted :: int
  sn_LastRunDuration :: "duration option"
  sn_MissedSlots :: int

definition new_snapshot :: "string \<Rightarrow> class_snapshot" where
  "new_snapshot c = \<lparr>sn_Class = c, sn_OldestSurvivingAt = None, sn_LastFinishedAt = None, sn_RowsExamined = 0,
     sn_RowsDeleted = 0, sn_LastRunDuration = None, sn_MissedSlots = 0\<rparr>"

text \<open>The loop's three maps.\<close>

record snapshot_state =
  st_byClass :: "string \<rightharpoonup> class_snapshot"
  st_latestOverall :: "string \<Rightarrow> bool"
  st_latestDrained :: "string \<Rightarrow> bool"

text \<open>Both backends pass the nullable columns on as text; the pgx branch formats what it scanned.\<close>

definition raw_text :: "tcell \<Rightarrow> string" where
  "raw_text c = (case c of Native t \<Rightarrow> format_precise t | TextCell s \<Rightarrow> s)"

definition parse_raw :: "string \<Rightarrow> tcell option \<Rightarrow> goerr + time option" where
  "parse_raw what c =
     (case c of
        None \<Rightarrow> Inr None
      | Some cell \<Rightarrow> (case parse_precise (raw_text cell) of
          None \<Rightarrow> Inl (Wrap (''sweepstore: parsing '' @ what @ '' '' @ go_quote (raw_text cell) @ '': '') (ErrText ''parsing time''))
        | Some t \<Rightarrow> Inr (Some t)))"

definition snap_overall :: "sweep_run_row \<Rightarrow> time \<Rightarrow> class_snapshot \<Rightarrow> goerr + class_snapshot" where
  "snap_overall r startedAt snap =
     (case parse_raw ''finished_at'' (sr_finished r) of
        Inl err \<Rightarrow> Inl err
      | Inr finished \<Rightarrow> Inr (snap\<lparr>sn_RowsExamined := sr_examined r, sn_RowsDeleted := sr_deleted r, sn_MissedSlots := sr_missed r,
          sn_LastFinishedAt := finished, sn_LastRunDuration := map_option (\<lambda>t. time_sub t startedAt) finished\<rparr>))"

definition snap_drained :: "sweep_run_row \<Rightarrow> class_snapshot \<Rightarrow> goerr + class_snapshot" where
  "snap_drained r snap =
     (case parse_raw ''oldest_surviving_at'' (sr_oldest r) of
        Inl err \<Rightarrow> Inl err
      | Inr None \<Rightarrow> Inr snap
      | Inr (Some t) \<Rightarrow> Inr (snap\<lparr>sn_OldestSurvivingAt := Some t\<rparr>))"

definition scan_started :: "sweep_store \<Rightarrow> tcell \<Rightarrow> goerr + time" where
  "scan_started st c =
     (case (ss_isPgx st, c) of
        (True, Native t) \<Rightarrow> Inr t
      | (False, TextCell s) \<Rightarrow> (case parse_precise s of
          None \<Rightarrow> Inl (Wrap (''sweepstore: parsing started_at '' @ go_quote s @ '': '') (ErrText ''parsing time''))
        | Some t \<Rightarrow> Inr t)
      | _ \<Rightarrow> Inl (Wrap ''sweepstore: scanning retention_sweep_run row: '' (ErrText ''sql: Scan error'')))"

definition snap_row :: "sweep_store \<Rightarrow> sweep_run_row \<Rightarrow> snapshot_state \<Rightarrow> goerr + snapshot_state" where
  "snap_row st r s =
     (case scan_started st (sr_started r) of
        Inl err \<Rightarrow> Inl err
      | Inr startedAt \<Rightarrow>
          let c = sr_class r;
              snap0 = (case st_byClass s c of None \<Rightarrow> new_snapshot c | Some snap \<Rightarrow> snap) in
          (case (if st_latestOverall s c then Inr snap0 else snap_overall r startedAt snap0) of
             Inl err \<Rightarrow> Inl err
           | Inr snap1 \<Rightarrow>
               (case (if sr_drained r \<and> \<not> st_latestDrained s c then snap_drained r snap1 else Inr snap1) of
                  Inl err \<Rightarrow> Inl err
                | Inr snap2 \<Rightarrow> Inr \<lparr>st_byClass = (st_byClass s)(c \<mapsto> snap2), st_latestOverall = (st_latestOverall s)(c := True),
                    st_latestDrained = (st_latestDrained s)(c := sr_drained r \<or> st_latestDrained s c)\<rparr>)))"

fun snap_rows :: "sweep_store \<Rightarrow> sweep_run_row list \<Rightarrow> snapshot_state \<Rightarrow> goerr + snapshot_state" where
  "snap_rows st [] s = Inr s"
| "snap_rows st (r # rs) s = (case snap_row st r s of Inl err \<Rightarrow> Inl err | Inr s1 \<Rightarrow> snap_rows st rs s1)"

definition newest_first :: "sweep_run_row list \<Rightarrow> sweep_run_row list" where
  "newest_first rows = rev (sort_key sr_started rows)"

text \<open>The slice it returns is in the order of a Go map, so the answer is the map itself.\<close>

definition LatestSnapshots :: "sweep_store \<Rightarrow> (sweep_db, goerr, string \<rightharpoonup> class_snapshot) op" where
  "LatestSnapshots st db =
     (case statement st (\<lambda>db. (Inr (newest_first (sd_rows db)), db)) db of
        (Inl err, db1) \<Rightarrow> (Inl (Wrap ''sweepstore: querying retention_sweep_run: '' err), db1)
      | (Inr rows, db1) \<Rightarrow>
          (case snap_rows st rows \<lparr>st_byClass = Map.empty, st_latestOverall = (\<lambda>_. False), st_latestDrained = (\<lambda>_. False)\<rparr> of
             Inl err \<Rightarrow> (Inl err, db1)
           | Inr s \<Rightarrow> (Inr (st_byClass s), db1)))"

end
