(* ===== verification/SweepStoreSpec.thy ===== *)
theory SweepStoreSpec
  imports SweepStore
begin

section \<open>What the table of sweep runs guarantees\<close>

subsection \<open>Cells\<close>

definition cell_time :: "tcell \<Rightarrow> time" where
  "cell_time c = (case c of Native t \<Rightarrow> t | TextCell s \<Rightarrow> the (parse_precise s))"

text \<open>What the store keeps of an instant: PostgreSQL drops what is below a microsecond.\<close>

definition kept_time :: "sweep_store \<Rightarrow> time \<Rightarrow> time" where
  "kept_time st t = (if ss_isPgx st then timestamptz t else t)"

definition cell_ok :: "sweep_store \<Rightarrow> tcell \<Rightarrow> bool" where
  "cell_ok st c \<longleftrightarrow>
     (case c of
        Native t \<Rightarrow> ss_isPgx st \<and> four_digit_year t
      | TextCell s \<Rightarrow> \<not> ss_isPgx st \<and> (\<exists>t. four_digit_year t \<and> s = format_precise t))"

lemma four_digit_kept: "four_digit_year t \<Longrightarrow> four_digit_year (kept_time st t)"
proof -
  assume "four_digit_year t"
  then have t: "- 366 * day_length \<le> t" "t < 3652059 * day_length" by (simp_all add: four_digit_year_def)
  have "- 366 * day_length = (- 366 * day_length) div 1000 * 1000" by (simp add: day_length_def hour_def)
  also have "\<dots> \<le> t div 1000 * 1000" using zdiv_mono1 [OF t(1), of 1000] by (intro mult_right_mono) simp_all
  finally have "- 366 * day_length \<le> timestamptz t" by (simp add: timestamptz_def)
  moreover have "timestamptz t \<le> t" unfolding timestamptz_def by simp
  ultimately show ?thesis using t by (simp add: kept_time_def four_digit_year_def)
qed

lemma encode_ok:
  assumes "four_digit_year t"
  shows "cell_ok st (encodeTime st t)" and "cell_time (encodeTime st t) = kept_time st t"
  using assms four_digit_kept [OF assms, of st] parse_format [OF assms]
  by (auto simp: cell_ok_def encodeTime_def cell_time_def kept_time_def split: if_splits)

lemma cell_ok_parse:
  assumes "cell_ok st c"
  shows "parse_precise (raw_text c) = Some (cell_time c)" "scan_time st c = Inr (cell_time c)"
    "scan_started st c = Inr (cell_time c)"
  using assms
  by (auto simp: cell_ok_def raw_text_def scan_time_def scan_started_def cell_time_def parse_format split: tcell.splits)

lemma cell_le_iff:
  assumes "cell_ok st c" "cell_ok st c'"
  shows "c \<le> c' \<longleftrightarrow> cell_time c \<le> cell_time c'" and "c < c' \<longleftrightarrow> cell_time c < cell_time c'"
  using assms
  by (auto simp: cell_ok_def cell_time_def parse_format format_le_iff less_tcell_def split: tcell.splits)

subsection \<open>The invariant of the table\<close>

definition row_ok :: "sweep_store \<Rightarrow> sweep_run_row \<Rightarrow> bool" where
  "row_ok st r \<longleftrightarrow> cell_ok st (sr_started r) \<and> pred_option (cell_ok st) (sr_finished r) \<and>
     pred_option (cell_ok st) (sr_oldest r) \<and> drained_check r \<and> sr_class r \<in> set class_check"

definition table_ok :: "sweep_store \<Rightarrow> sweep_db \<Rightarrow> bool" where
  "table_ok st db \<longleftrightarrow> list_all (row_ok st) (sd_rows db) \<and> distinct (map sr_id (sd_rows db))"

lemma statement_keeps: "keeps P m \<Longrightarrow> (\<And>db. P (db\<lparr>sd_stmts := Suc (sd_stmts db)\<rparr>) \<longleftrightarrow> P db) \<Longrightarrow> keeps P (statement st m)"
  by (auto simp: keeps_def statement_def Let_def split: option.split)

lemma table_ok_counters [simp]:
  "table_ok st (db\<lparr>sd_stmts := n\<rparr>) = table_ok st db" "table_ok st (db\<lparr>sd_draws := n\<rparr>) = table_ok st db"
  by (simp_all add: table_ok_def)

lemma lastFinishedAt_rows: "sd_rows (snd (lastFinishedAt st c db)) = sd_rows db"
    "sd_draws (snd (lastFinishedAt st c db)) = sd_draws db"
    "sd_stmts (snd (lastFinishedAt st c db)) = Suc (sd_stmts db)"
  by (auto simp: lastFinishedAt_def statement_def Let_def split: option.split list.split sum.split prod.split)

lemma insert_keeps: "row_ok st r \<Longrightarrow> keeps (table_ok st) (insert_run st r)"
  by (rule keepsI) (auto simp: insert_run_def table_ok_def)

lemma update_keeps:
  assumes "\<And>r. row_ok st r \<Longrightarrow> drained_check (f r) \<Longrightarrow> row_ok st (f r)" "\<And>r. sr_id (f r) = sr_id r"
  shows "keeps (table_ok st) (update_run st i f)"
proof (rule keepsI)
  fix db assume ok: "table_ok st db"
  have ids: "sr_id \<circ> (\<lambda>r. if sr_id r = i then f r else r) = sr_id" by (auto simp: fun_eq_iff assms(2))
  show "table_ok st (snd (update_run st i f db))"
    using ok assms(1) ids by (auto simp: update_run_def table_ok_def list_all_iff Let_def)
qed

lemma StartRun_keeps:
  assumes "four_digit_year t"
  shows "keeps (table_ok st) (StartRun st c t k)"
proof -
  have last: "keeps (table_ok st) (lastFinishedAt st c)"
    by (rule keepsI) (simp add: table_ok_def lastFinishedAt_rows)
  have ins: "keeps (table_ok st) (statement st (insert_run st \<lparr>sr_id = i, sr_class = class_string c,
     sr_started = encodeTime st t, sr_finished = None, sr_examined = 0, sr_deleted = 0, sr_oldest = None, sr_drained = False,
     sr_missed = n\<rparr>))" for i n
  proof (cases "class_string c \<in> set class_check")
    case True
    then show ?thesis
      by (intro statement_keeps insert_keeps) (simp_all add: row_ok_def drained_check_def encode_ok assms)
  next
    case False
    then show ?thesis by (intro statement_keeps) (auto simp: keeps_def insert_run_def)
  qed
  have tail: "keeps (table_ok st) (\<lambda>db. let i = ss_uuid st (sd_draws db); db1 = db\<lparr>sd_draws := Suc (sd_draws db)\<rparr> in
     bindS (map_errS (Wrap w) (statement st (insert_run st \<lparr>sr_id = i, sr_class = class_string c,
       sr_started = encodeTime st t, sr_finished = None, sr_examined = 0, sr_deleted = 0, sr_oldest = None, sr_drained = False,
       sr_missed = n\<rparr>))) (\<lambda>_. retS (i, n)) db1)" for w n
  proof (rule keepsI)
    fix db assume ok: "table_ok st db"
    show "table_ok st (snd (let i = ss_uuid st (sd_draws db); db1 = db\<lparr>sd_draws := Suc (sd_draws db)\<rparr> in
     bindS (map_errS (Wrap w) (statement st (insert_run st \<lparr>sr_id = i, sr_class = class_string c,
       sr_started = encodeTime st t, sr_finished = None, sr_examined = 0, sr_deleted = 0, sr_oldest = None, sr_drained = False,
       sr_missed = n\<rparr>))) (\<lambda>_. retS (i, n)) db1))"
      unfolding Let_def by (rule keepsD [OF keeps_bindS [OF keeps_map_errS [OF ins] keeps_retS]]) (simp add: ok)
  qed
  show ?thesis unfolding StartRun_def by (intro keeps_bindS keeps_if keeps_map_errS keeps_retS last tail)
qed

lemma FinishRun_keeps:
  assumes "four_digit_year t" "pred_option four_digit_year old"
  shows "keeps (table_ok st) (FinishRun st i t m n b old)"
  unfolding FinishRun_def
  by (intro keeps_map_errS statement_keeps update_keeps)
    (use assms in \<open>auto simp: row_ok_def encode_ok encodeTimePtr_def pred_option_def split: option.splits\<close>)

lemma PruneOlderThan_keeps: "keeps (table_ok st) (PruneOlderThan st t)"
  unfolding PruneOlderThan_def
  by (intro keeps_map_errS statement_keeps keepsI) (auto simp: table_ok_def list_all_iff distinct_map inj_on_def)

subsection \<open>Missed slots\<close>

text \<open>The newest completion of a class, as an instant.\<close>

definition completions :: "sweep_db \<Rightarrow> string \<Rightarrow> time set" where
  "completions db c = {cell_time f | r f. r \<in> set (sd_rows db) \<and> sr_class r = c \<and> sr_finished r = Some f}"

lemma finished_cells_set: "set (finished_cells c rows) = {f. \<exists>r \<in> set rows. sr_class r = c \<and> sr_finished r = Some f}"
  by (induction rows) (auto simp: finished_cells_def split: option.split)

lemma Max_cell_time:
  assumes "finite S" "S \<noteq> {}" "\<And>c. c \<in> S \<Longrightarrow> cell_ok st c"
  shows "cell_time (Max S) = Max (cell_time ` S)"
proof (rule Max_eqI [symmetric])
  show "finite (cell_time ` S)" using assms(1) by simp
  show "cell_time (Max S) \<in> cell_time ` S" using assms(1,2) by simp
  show "t \<le> cell_time (Max S)" if t: "t \<in> cell_time ` S" for t
  proof -
    obtain c where c: "t = cell_time c" "c \<in> S" using t by blast
    have "c \<le> Max S" "Max S \<in> S" using assms(1,2) c(2) by auto
    then show ?thesis using cell_le_iff(1) [of st c "Max S"] assms(3) c by simp
  qed
qed

lemma lastFinishedAt_value:
  assumes "table_ok st db" "ss_fault st (sd_stmts db) = None"
  shows "fst (lastFinishedAt st c db) =
    Inr (if completions db (class_string c) = {} then None else Some (Max (completions db (class_string c))))"
proof -
  let ?S = "set (finished_cells (class_string c) (sd_rows db))"
  have ok: "cell_ok st f" if "f \<in> ?S" for f
    using that assms(1) by (auto simp: finished_cells_set table_ok_def list_all_iff row_ok_def)
  have img: "completions db (class_string c) = cell_time ` ?S" by (auto simp: completions_def finished_cells_set)
  show ?thesis
  proof (cases "finished_cells (class_string c) (sd_rows db)")
    case Nil
    then show ?thesis using assms(2) by (simp add: lastFinishedAt_def statement_def Let_def img)
  next
    case (Cons x xs)
    then have S: "?S \<noteq> {}" by simp
    have "scan_time st (Max ?S) = Inr (Max (cell_time ` ?S))"
      using cell_ok_parse(2) [OF ok [OF Max_in [OF _ S]]] Max_cell_time [OF _ S ok] by simp
    then have "scan_time st (Max (insert x (set xs))) = Inr (Max (completions db (class_string c)))"
      unfolding img Cons by simp
    moreover have "completions db (class_string c) \<noteq> {}" using S unfolding img by simp
    ultimately show ?thesis using assms(2) Cons by (simp add: lastFinishedAt_def statement_def Let_def)
  qed
qed

lemma missed_since_exact:
  assumes "0 < interval" "0 < missed_since now interval (Some t)" "now - t \<le> max_duration"
  shows "t + (missed_since now interval (Some t) + 1) * interval \<le> now"
    and "now < t + (missed_since now interval (Some t) + 2) * interval"
proof -
  let ?g = "time_sub now t"
  have m: "missed_since now interval (Some t) = ?g sdiv interval - 1"
    using assms(2) by (simp add: missed_since_def Let_def split: if_splits)
  have "0 \<le> ?g"
  proof (rule ccontr)
    assume "\<not> 0 \<le> ?g"
    then have "?g sdiv interval \<le> 0" using assms(1) by (simp add: signed_divide_int_def sgn_if pos_imp_zdiv_nonneg_iff)
    then show False using assms(2) m by simp
  qed
  then have d: "?g sdiv interval = ?g div interval" using assms(1) by (simp add: signed_divide_int_def sgn_if)
  have g: "?g = now - t" using \<open>0 \<le> ?g\<close> assms(3) by (auto simp: time_sub_def min_duration_def max_duration_def)
  have "interval * (?g div interval) \<le> ?g" "?g < interval * (?g div interval) + interval"
    using assms(1) mult_div_mod_eq [of interval ?g] pos_mod_sign [of interval ?g] pos_mod_bound [of interval ?g] by linarith+
  then show "t + (missed_since now interval (Some t) + 1) * interval \<le> now"
    "now < t + (missed_since now interval (Some t) + 2) * interval"
    unfolding m d unfolding g by (simp_all add: algebra_simps)
qed

lemma missed_since_zero:
  assumes "0 < interval" "missed_since now interval (Some t) = 0" "2 * interval \<le> max_duration"
  shows "now < t + 2 * interval"
proof -
  let ?g = "time_sub now t"
  have le: "?g sdiv interval \<le> 1" using assms(2) by (simp add: missed_since_def Let_def split: if_splits)
  have "?g < 2 * interval"
  proof (cases "0 \<le> ?g")
    case True
    then have "?g div interval \<le> 1" using assms(1) le by (cases "?g = 0") (simp_all add: signed_divide_int_def)
    then have "interval * (?g div interval) \<le> interval" using assms(1) by (simp add: mult_le_cancel_left1)
    then show ?thesis
      using assms(1) mult_div_mod_eq [of interval ?g] pos_mod_bound [of interval ?g] by linarith
  qed (use assms(1) in simp)
  then show ?thesis using assms(1,3) by (simp add: time_sub_less_iff min_duration_def)
qed

lemma StartRun_ok:
  assumes "table_ok st db" "ss_fault st (sd_stmts db) = None" "0 < interval"
    and "StartRun st c now interval db = (Inr (i, m), db')"
  defines "C \<equiv> completions db (class_string c)"
  shows "m = missed_since now interval (if C = {} then None else Some (Max C))"
proof -
  have "fst (lastFinishedAt st c db) = Inr (if C = {} then None else Some (Max C))"
    unfolding C_def by (rule lastFinishedAt_value [OF assms(1,2)])
  then obtain db1 where "lastFinishedAt st c db = (Inr (if C = {} then None else Some (Max C)), db1)"
    by (cases "lastFinishedAt st c db") auto
  then show ?thesis using assms(3,4)
    by (auto simp: StartRun_def bindS_eq_Inr map_errS_eq_Inr Let_def)
qed

lemma StartRun_row:
  assumes "StartRun st c now interval db = (Inr (i, m), db')"
  shows "sd_rows db' = sd_rows db @ [\<lparr>sr_id = i, sr_class = class_string c, sr_started = encodeTime st now,
      sr_finished = None, sr_examined = 0, sr_deleted = 0, sr_oldest = None, sr_drained = False, sr_missed = m\<rparr>] \<and>
    i \<notin> sr_id ` set (sd_rows db)"
proof -
  have ins: "sd_rows d1 = sd_rows d0 @ [r] \<and> sr_id r \<notin> sr_id ` set (sd_rows d0)"
    if "statement st (insert_run st r) d0 = (Inr u, d1)" for r d0 d1 u
    using that by (auto simp: statement_def insert_run_def Let_def split: option.splits if_splits)
  obtain n db1 where 1: "sd_rows db1 = sd_rows db" and
    2: "(let i = ss_uuid st (sd_draws db1); db2 = db1\<lparr>sd_draws := Suc (sd_draws db1)\<rparr> in
     bindS (map_errS (Wrap (''sweepstore: inserting run start for class '' @ go_quote (class_string c) @ '': ''))
         (statement st (insert_run st \<lparr>sr_id = i, sr_class = class_string c, sr_started = encodeTime st now,
            sr_finished = None, sr_examined = 0, sr_deleted = 0, sr_oldest = None, sr_drained = False, sr_missed = n\<rparr>)))
       (\<lambda>_. retS (i, n)) db2) = (Inr (i, m), db')"
    using assms lastFinishedAt_rows(1) [of st c db]
    by (auto simp: StartRun_def bindS_eq_Inr map_errS_eq_Inr split: if_splits)
  then show ?thesis by (auto simp: Let_def bindS_eq_Inr map_errS_eq_Inr dest!: ins)
qed

text \<open>
  The missed slots of a run are exactly the scheduled runs that never completed: starting a run adds one unfinished row
  with a new id, and its count is \<open>m\<close> where \<open>m + 1\<close> whole intervals, and not one more, have passed since the newest
  completion of the class; without a completion, or when the last one is less than two intervals old, it is 0.
\<close>
theorem missed_slots_exact:
  assumes "table_ok st db" "ss_fault st (sd_stmts db) = None" "0 < interval" "2 * interval \<le> max_duration"
    and "StartRun st c now interval db = (Inr (i, m), db')"
    and "\<forall>t \<in> completions db (class_string c). now - t \<le> max_duration"
  shows "sd_rows db' = sd_rows db @ [\<lparr>sr_id = i, sr_class = class_string c, sr_started = encodeTime st now,
      sr_finished = None, sr_examined = 0, sr_deleted = 0, sr_oldest = None, sr_drained = False, sr_missed = m\<rparr>] \<and>
    i \<notin> sr_id ` set (sd_rows db) \<and>
    (if completions db (class_string c) = {} then m = 0
     else let last = Max (completions db (class_string c)) in
       now < last + (m + 2) * interval \<and> 0 \<le> m \<and> (0 < m \<longrightarrow> last + (m + 1) * interval \<le> now))"
proof -
  let ?C = "completions db (class_string c)"
  have m: "m = missed_since now interval (if ?C = {} then None else Some (Max ?C))"
    by (rule StartRun_ok [OF assms(1-3,5)])
  have "if ?C = {} then m = 0 else let last = Max ?C in
       now < last + (m + 2) * interval \<and> 0 \<le> m \<and> (0 < m \<longrightarrow> last + (m + 1) * interval \<le> now)"
  proof (cases "?C = {}")
    case True
    then show ?thesis using m by (simp add: missed_since_def)
  next
    case False
    have "finite ?C"
    proof -
      have "?C \<subseteq> (\<lambda>r. cell_time (the (sr_finished r))) ` set (sd_rows db)" by (force simp: completions_def)
      then show ?thesis by (rule finite_subset) simp
    qed
    then have g: "now - Max ?C \<le> max_duration" using assms(6) False by simp
    have e: "m = missed_since now interval (Some (Max ?C))" using m False by simp
    have "0 \<le> m" using e by (simp add: missed_since_def Let_def split: if_splits)
    then consider "m = 0" | "0 < m" by linarith
    then show ?thesis
    proof cases
      case 1
      then show ?thesis using missed_since_zero [OF assms(3) _ assms(4), of now "Max ?C"] e False by (simp add: Let_def)
    next
      case 2
      then show ?thesis using missed_since_exact [OF assms(3) _ g] e False by (simp add: Let_def)
    qed
  qed
  with StartRun_row [OF assms(5)] show ?thesis by blast
qed

subsection \<open>Snapshots\<close>

text \<open>What a snapshot says about the newest run of a class and about its newest drained run.\<close>

definition snapshot_of :: "sweep_run_row \<Rightarrow> sweep_run_row option \<Rightarrow> class_snapshot" where
  "snapshot_of r d =
     \<lparr>sn_Class = sr_class r,
      sn_OldestSurvivingAt = (case d of None \<Rightarrow> None | Some d \<Rightarrow> map_option cell_time (sr_oldest d)),
      sn_LastFinishedAt = map_option cell_time (sr_finished r),
      sn_RowsExamined = sr_examined r, sn_RowsDeleted = sr_deleted r,
      sn_LastRunDuration = map_option (\<lambda>f. time_sub (cell_time f) (cell_time (sr_started r))) (sr_finished r),
      sn_MissedSlots = sr_missed r\<rparr>"

definition first_of :: "string \<Rightarrow> sweep_run_row list \<Rightarrow> sweep_run_row option" where
  "first_of c rows = find (\<lambda>r. sr_class r = c) rows"

definition first_drained :: "string \<Rightarrow> sweep_run_row list \<Rightarrow> sweep_run_row option" where
  "first_drained c rows = find (\<lambda>r. sr_class r = c \<and> sr_drained r) rows"

definition snapshots_of :: "sweep_run_row list \<Rightarrow> string \<rightharpoonup> class_snapshot" where
  "snapshots_of rows c = map_option (\<lambda>r. snapshot_of r (first_drained c rows)) (first_of c rows)"

definition state_of :: "sweep_run_row list \<Rightarrow> snapshot_state" where
  "state_of rows = \<lparr>st_byClass = snapshots_of rows, st_latestOverall = (\<lambda>c. first_of c rows \<noteq> None),
     st_latestDrained = (\<lambda>c. first_drained c rows \<noteq> None)\<rparr>"

lemma find_snoc: "find P (xs @ [x]) = (case find P xs of None \<Rightarrow> if P x then Some x else None | Some y \<Rightarrow> Some y)"
  by (induction xs) auto

lemma first_snoc:
  "first_of c (rows @ [r]) = (case first_of c rows of None \<Rightarrow> if sr_class r = c then Some r else None | Some y \<Rightarrow> Some y)"
  "first_drained c (rows @ [r]) =
     (case first_drained c rows of None \<Rightarrow> if sr_class r = c \<and> sr_drained r then Some r else None | Some y \<Rightarrow> Some y)"
  by (simp_all add: first_of_def first_drained_def find_snoc)

lemma first_drained_imp: "first_of c rows = None \<Longrightarrow> first_drained c rows = None"
  by (auto simp: first_of_def first_drained_def find_None_iff)

lemma state_snoc:
  fixes r :: sweep_run_row
  defines "c \<equiv> sr_class r"
  shows "state_of (rows @ [r]) =
    \<lparr>st_byClass = (snapshots_of rows)(c \<mapsto> snapshot_of (case first_of c rows of None \<Rightarrow> r | Some r0 \<Rightarrow> r0)
       (case first_drained c rows of None \<Rightarrow> if sr_drained r then Some r else None | Some d \<Rightarrow> Some d)),
     st_latestOverall = (\<lambda>c. first_of c rows \<noteq> None)(c := True),
     st_latestDrained = (\<lambda>c. first_drained c rows \<noteq> None)(c := sr_drained r \<or> first_drained c rows \<noteq> None)\<rparr>"
  unfolding state_of_def c_def
  by (auto simp: fun_eq_iff first_snoc snapshots_of_def split: option.split)

lemma snap_row_state:
  assumes "row_ok st r"
  shows "snap_row st r (state_of rows) = Inr (state_of (rows @ [r]))"
proof -
  note ok = assms [unfolded row_ok_def]
  have fin: "parse_raw w (sr_finished r) = Inr (map_option cell_time (sr_finished r))"
    and old: "parse_raw w (sr_oldest r) = Inr (map_option cell_time (sr_oldest r))" for w
    using ok cell_ok_parse(1) by (auto simp: parse_raw_def pred_option_def split: option.split)
  have start: "scan_started st (sr_started r) = Inr (cell_time (sr_started r))" using ok cell_ok_parse(3) by simp
  let ?c = "sr_class r"
  have drained: "snap_drained r (snapshot_of r1 None) = Inr (snapshot_of r1 (Some r))" for r1
    unfolding snap_drained_def old by (cases "sr_oldest r") (simp_all add: snapshot_of_def)
  have overall: "snap_overall r (cell_time (sr_started r)) (new_snapshot ?c) = Inr (snapshot_of r None)"
    by (simp add: snap_overall_def fin new_snapshot_def snapshot_of_def option.map_comp comp_def)
  have sel: "st_byClass (state_of rows) ?c = snapshots_of rows ?c" "st_latestOverall (state_of rows) ?c = (first_of ?c rows \<noteq> None)"
    "st_latestDrained (state_of rows) ?c = (first_drained ?c rows \<noteq> None)"
    by (simp_all add: state_of_def)
  show ?thesis
  proof (cases "first_of ?c rows")
    case None
    then show ?thesis unfolding state_snoc
      by (simp add: snap_row_def start sel first_drained_imp snapshots_of_def overall drained)
        (auto simp: state_of_def Let_def fun_eq_iff first_drained_imp)
  next
    case (Some r0)
    then show ?thesis unfolding state_snoc
      by (cases "first_drained ?c rows") (simp_all add: snap_row_def start sel snapshots_of_def drained,
          auto simp: state_of_def Let_def fun_eq_iff)
  qed
qed

lemma snap_rows_state: "list_all (row_ok st) rs \<Longrightarrow> snap_rows st rs (state_of rows) = Inr (state_of (rows @ rs))"
proof (induction rs arbitrary: rows)
  case (Cons r rs)
  then show ?case using Cons.IH [of "rows @ [r]"] by (simp add: snap_row_state)
qed simp

lemma newest_first: "set (newest_first rows) = set rows" "sorted_wrt (\<lambda>a b. sr_started b \<le> sr_started a) (newest_first rows)"
proof -
  have "sorted (map sr_started (sort_key sr_started rows))" by simp
  then have "sorted_wrt (\<lambda>a b. sr_started a \<le> sr_started b) (sort_key sr_started rows)" by (simp only: sorted_map)
  then show "sorted_wrt (\<lambda>a b. sr_started b \<le> sr_started a) (newest_first rows)" unfolding newest_first_def sorted_wrt_rev .
qed (simp add: newest_first_def)

lemma find_newest:
  assumes "sorted_wrt (\<lambda>a b. sr_started b \<le> sr_started a) rows" "find P rows = Some r" "r' \<in> set rows" "P r'"
  shows "sr_started r' \<le> sr_started r"
  using assms
proof (induction rows)
  case (Cons a rows)
  then show ?case by (cases "P a") auto
qed simp

definition newest_run :: "sweep_run_row set \<Rightarrow> sweep_run_row \<Rightarrow> bool" where
  "newest_run S r \<longleftrightarrow> r \<in> S \<and> (\<forall>r' \<in> S. cell_time (sr_started r') \<le> cell_time (sr_started r))"

lemma find_newest_run:
  assumes "table_ok st db" "find P (newest_first (sd_rows db)) = Some r"
  shows "newest_run {r \<in> set (sd_rows db). P r} r"
proof -
  have r: "r \<in> set (sd_rows db)" "P r" using find_SomeD [OF assms(2)] by (simp_all add: newest_first)
  have "cell_time (sr_started r') \<le> cell_time (sr_started r)" if "r' \<in> set (sd_rows db)" "P r'" for r'
    using find_newest [OF newest_first(2) assms(2), of r'] that r assms(1) cell_le_iff(1) [of st "sr_started r'" "sr_started r"]
    by (simp add: newest_first table_ok_def list_all_iff row_ok_def)
  with r show ?thesis by (simp add: newest_run_def)
qed

text \<open>
  A scrape reads the table exactly: for every class it reports the counts, the completion, the duration and the missed
  slots of the newest run started, finished or not, and the oldest surviving row of the newest run that drained; a class
  without a run is absent.
\<close>
theorem snapshots_latest:
  assumes "table_ok st db" "ss_fault st (sd_stmts db) = None"
  shows "\<exists>snaps db'. LatestSnapshots st db = (Inr snaps, db') \<and> sd_rows db' = sd_rows db \<and>
    (\<forall>c. let runs = {r \<in> set (sd_rows db). sr_class r = c}; drained = {r \<in> runs. sr_drained r} in
       (runs = {} \<and> snaps c = None) \<or>
       (\<exists>r d. newest_run runs r \<and> (case d of None \<Rightarrow> drained = {} | Some d' \<Rightarrow> newest_run drained d') \<and>
          snaps c = Some (snapshot_of r d)))"
proof -
  let ?L = "newest_first (sd_rows db)"
  have "list_all (row_ok st) ?L" using assms(1) by (simp add: table_ok_def list_all_iff newest_first)
  moreover have "state_of [] = \<lparr>st_byClass = Map.empty, st_latestOverall = (\<lambda>_. False), st_latestDrained = (\<lambda>_. False)\<rparr>"
    unfolding state_of_def by (auto simp: snapshots_of_def first_of_def first_drained_def)
  ultimately have run: "snap_rows st ?L \<lparr>st_byClass = Map.empty, st_latestOverall = (\<lambda>_. False), st_latestDrained = (\<lambda>_. False)\<rparr> = Inr (state_of ?L)"
    using snap_rows_state [of st ?L "[]"] by simp
  then have "LatestSnapshots st db = (Inr (snapshots_of ?L), db\<lparr>sd_stmts := Suc (sd_stmts db)\<rparr>)"
    using assms(2) by (simp add: LatestSnapshots_def statement_def Let_def state_of_def)
  moreover have "(runs = {} \<and> snapshots_of ?L c = None) \<or>
       (\<exists>r d. newest_run runs r \<and> (case d of None \<Rightarrow> drained = {} | Some d' \<Rightarrow> newest_run drained d') \<and>
          snapshots_of ?L c = Some (snapshot_of r d))"
    if defs: "runs = {r \<in> set (sd_rows db). sr_class r = c}" "drained = {r \<in> runs. sr_drained r}" for c runs drained
  proof (cases "first_of c ?L")
    case None
    then show ?thesis by (auto simp: defs snapshots_of_def first_of_def find_None_iff newest_first)
  next
    case (Some r)
    then have 1: "newest_run runs r" using find_newest_run [OF assms(1)] by (simp add: first_of_def defs)
    have 2: "case first_drained c ?L of None \<Rightarrow> drained = {} | Some d' \<Rightarrow> newest_run drained d'"
    proof (cases "first_drained c ?L")
      case None
      then have "drained = {}" by (auto simp: defs first_drained_def find_None_iff newest_first)
      with None show ?thesis by simp
    next
      case (Some d')
      then show ?thesis using find_newest_run [OF assms(1)] by (simp add: first_drained_def defs)
    qed
    have "snapshots_of ?L c = Some (snapshot_of r (first_drained c ?L))" using Some by (simp add: snapshots_of_def)
    with 1 2 show ?thesis by blast
  qed
  ultimately show ?thesis by (simp add: Let_def)
qed

subsection \<open>A concrete table\<close>

definition demo_store :: sweep_store where
  "demo_store = NewStore (\<lambda>_. None) (\<lambda>n. utoa n) (\<lambda>con. SqliteError 275 con) ''sqlite''"

definition demo_row :: "nat \<Rightarrow> time \<Rightarrow> time option \<Rightarrow> sweep_run_row" where
  "demo_row n started finished = \<lparr>sr_id = utoa n, sr_class = ''direct'', sr_started = encodeTime demo_store started,
     sr_finished = encodeTimePtr demo_store finished, sr_examined = 5, sr_deleted = 2, sr_oldest = None,
     sr_drained = (finished \<noteq> None), sr_missed = 0\<rparr>"

text \<open>A run that drained at 100 s and one that died later.\<close>

definition demo_table :: sweep_db where
  "demo_table = \<lparr>sd_rows = [demo_row 7 0 (Some (100 * second)), demo_row 8 (200 * second) None], sd_stmts = 0, sd_draws = 9\<rparr>"

lemma demo_store_simps [simp]: "ss_isPgx demo_store = False" "ss_fault demo_store = (\<lambda>_. None)" "ss_uuid demo_store = utoa"
  by (simp_all add: demo_store_def NewStore_def)

lemma demo_years: "four_digit_year 0" "four_digit_year (100 * second)" "four_digit_year (200 * second)"
  by (simp_all add: four_digit_year_def day_length_def hour_def second_def)

lemma utoa_inject [simp]: "utoa m = utoa n \<longleftrightarrow> m = n"
  by (metis digits_val_utoa)

lemma demo_table_ok: "table_ok demo_store demo_table"
  by (simp add: table_ok_def demo_table_def demo_row_def row_ok_def encode_ok demo_years encodeTimePtr_def drained_check_def class_check_def)

lemma demo_completions: "completions demo_table ''direct'' = {100 * second}"
proof -
  have "cell_time (encodeTime demo_store (100 * second)) = 100 * second" by (simp add: encode_ok demo_years kept_time_def)
  then have "t \<in> completions demo_table ''direct'' \<longleftrightarrow> t = 100 * second" for t
    unfolding completions_def demo_table_def by (auto simp: demo_row_def encodeTimePtr_def intro: exI [of _ "demo_row 7 0 (Some (100 * second))"])
  then show ?thesis by blast
qed

lemma demo_start:
  obtains db' where "StartRun demo_store RetentionDirect (400 * second) (60 * second) demo_table = (Inr (utoa 9, 4), db')"
proof -
  obtain x db1 where l: "lastFinishedAt demo_store RetentionDirect demo_table = (x, db1)" by (rule prod.exhaust)
  have x: "x = Inr (Some (100 * second))"
    using lastFinishedAt_value [OF demo_table_ok, of RetentionDirect] demo_completions l by simp
  have db1: "sd_rows db1 = sd_rows demo_table" "sd_draws db1 = 9"
    using lastFinishedAt_rows(1,2) [of demo_store RetentionDirect demo_table] l by (simp_all add: demo_table_def)
  have "missed_since (400 * second) (60 * second) (Some (100 * second)) = 4"
    by (simp add: missed_since_def time_sub_def second_def max_duration_def min_duration_def signed_divide_int_def)
  then show thesis
    using that l x db1
    by (simp add: StartRun_def bindS_def map_errS_def second_def statement_def insert_run_def Let_def integer_ok_def class_check_def
        drained_check_def demo_table_def demo_row_def)
qed

theorem missed_slots_exact_witness:
  "100 * second + (4 + 1) * (60 * second) \<le> 400 * second \<and> 400 * second < 100 * second + (4 + 2) * (60 * second)"
proof -
  obtain db' where "StartRun demo_store RetentionDirect (400 * second) (60 * second) demo_table = (Inr (utoa 9, 4), db')"
    by (rule demo_start)
  from missed_slots_exact [OF demo_table_ok _ _ _ this]
  show ?thesis using demo_completions by (simp add: second_def max_duration_def)
qed

text \<open>The newest run hides the completion of the one before it.\<close>

theorem snapshots_latest_witness:
  "\<exists>snaps db' sn. LatestSnapshots demo_store demo_table = (Inr snaps, db') \<and> snaps ''direct'' = Some sn \<and>
     sn_LastFinishedAt sn = None \<and> completions demo_table ''direct'' \<noteq> {}"
proof -
  obtain snaps db' where run: "LatestSnapshots demo_store demo_table = (Inr snaps, db')"
    and all: "\<forall>c. let runs = {r \<in> set (sd_rows demo_table). sr_class r = c}; drained = {r \<in> runs. sr_drained r} in
       (runs = {} \<and> snaps c = None) \<or>
       (\<exists>r d. newest_run runs r \<and> (case d of None \<Rightarrow> drained = {} | Some d' \<Rightarrow> newest_run drained d') \<and>
          snaps c = Some (snapshot_of r d))"
    using snapshots_latest [OF demo_table_ok] by auto
  let ?r7 = "demo_row 7 0 (Some (100 * second))" and ?r8 = "demo_row 8 (200 * second) None"
  have runs: "{r \<in> set (sd_rows demo_table). sr_class r = ''direct''} = {?r7, ?r8}" by (auto simp: demo_table_def demo_row_def)
  then obtain r d where r: "newest_run {?r7, ?r8} r" "snaps ''direct'' = Some (snapshot_of r d)"
    using all [rule_format, of "''direct''"] unfolding Let_def runs by blast
  have "cell_time (sr_started ?r7) = 0" "cell_time (sr_started ?r8) = 200 * second"
    by (simp_all add: demo_row_def encode_ok demo_years kept_time_def)
  then have "r = ?r8" using r(1) by (auto simp: newest_run_def second_def)
  then have "sn_LastFinishedAt (snapshot_of r d) = None" by (simp add: snapshot_of_def demo_row_def encodeTimePtr_def)
  with run r(2) demo_completions show ?thesis by blast
qed

text \<open>A class without a run has no snapshot, not an empty one.\<close>

lemma no_run_no_snapshot:
  "LatestSnapshots demo_store \<lparr>sd_rows = [], sd_stmts = 0, sd_draws = 0\<rparr> = (Inr Map.empty, \<lparr>sd_rows = [], sd_stmts = 1, sd_draws = 0\<rparr>)"
  by (simp add: LatestSnapshots_def statement_def newest_first_def)

end
