(* ===== verification/SweepMetrics.thy ===== *)
theory SweepMetrics
  imports SweepStoreSpec Mux
begin

section \<open>The metrics of the sweep\<close>

text \<open>
  The emitter of internal/sweep/sweep.go and the /metrics handler of internal/sweepstore/handler.go. A gauge vector is a map
  from label values to the value last set; values are exact here (counts, nanoseconds, Unix seconds) where the code
  converts them to floating point. Gathering and the text format are the Prometheus library's: \<open>render\<close> is
  \<open>promhttp.HandlerFor(...).ServeHTTP\<close> on the registry.
\<close>

subsection \<open>sweep.go: PrometheusMetricEmitter\<close>

record prom_emitter =
  pe_rowsExamined :: "string \<rightharpoonup> int"
  pe_rowsDeleted :: "string \<rightharpoonup> int"
  pe_oldestAge :: "string \<rightharpoonup> duration"
  pe_lastRunTS :: int

definition unix_seconds :: "time \<Rightarrow> int" where
  "unix_seconds t = t div second - 62135596800"

definition NewPrometheusMetricEmitter :: prom_emitter where
  "NewPrometheusMetricEmitter =
     \<lparr>pe_rowsExamined = Map.empty, pe_rowsDeleted = Map.empty, pe_oldestAge = Map.empty, pe_lastRunTS = 0\<rparr>"

definition MarkRunStarted :: "time \<Rightarrow> prom_emitter \<Rightarrow> prom_emitter" where
  "MarkRunStarted now e = e\<lparr>pe_lastRunTS := unix_seconds now\<rparr>"

definition EmitClassMetrics :: "retention_class \<Rightarrow> int \<Rightarrow> int \<Rightarrow> duration option \<Rightarrow> prom_emitter \<Rightarrow> prom_emitter" where
  "EmitClassMetrics class rowsExamined rowsDeleted oldestSurvivingRowAge e =
     (let c = class_string class;
          e1 = e\<lparr>pe_rowsExamined := (pe_rowsExamined e)(c \<mapsto> rowsExamined), pe_rowsDeleted := (pe_rowsDeleted e)(c \<mapsto> rowsDeleted)\<rparr> in
      case oldestSurvivingRowAge of None \<Rightarrow> e1 | Some age \<Rightarrow> e1\<lparr>pe_oldestAge := (pe_oldestAge e1)(c \<mapsto> age)\<rparr>)"

subsection \<open>handler.go: NewMetricsHandler\<close>

record sweep_registry =
  rg_lastFinished :: "string \<rightharpoonup> int"
  rg_oldestSurvivingAge :: "string \<rightharpoonup> duration"
  rg_missedSlots :: "string \<rightharpoonup> int"
  rg_rowsExamined :: "string \<rightharpoonup> int"
  rg_rowsDeleted :: "string \<rightharpoonup> int"
  rg_lastRunDuration :: "string \<rightharpoonup> duration"

text \<open>The loop sets the gauges of one class per snapshot; the snapshots are a map with one entry per class.\<close>

definition snapshot_registry :: "time \<Rightarrow> (string \<rightharpoonup> class_snapshot) \<Rightarrow> sweep_registry" where
  "snapshot_registry now snaps =
     \<lparr>rg_lastFinished = (\<lambda>c. Option.bind (snaps c) (\<lambda>sn. map_option unix_seconds (sn_LastFinishedAt sn))),
      rg_oldestSurvivingAge = (\<lambda>c. Option.bind (snaps c) (\<lambda>sn. map_option (time_sub now) (sn_OldestSurvivingAt sn))),
      rg_missedSlots = (\<lambda>c. map_option sn_MissedSlots (snaps c)),
      rg_rowsExamined = (\<lambda>c. map_option sn_RowsExamined (snaps c)),
      rg_rowsDeleted = (\<lambda>c. map_option sn_RowsDeleted (snaps c)),
      rg_lastRunDuration = (\<lambda>c. Option.bind (snaps c) sn_LastRunDuration)\<rparr>"

definition NewMetricsHandler :: "sweep_store \<Rightarrow> (sweep_registry \<Rightarrow> response) \<Rightarrow> time \<Rightarrow> sweep_db \<Rightarrow> response \<times> sweep_db" where
  "NewMetricsHandler reader render now db =
     (case LatestSnapshots reader db of
        (Inl err, db1) \<Rightarrow> (http_Error 500 ''reading sweep snapshots'', db1)
      | (Inr snaps, db1) \<Rightarrow> (render (snapshot_registry now snaps), db1))"

subsection \<open>The sweep process: tables, run table, metrics\<close>

text \<open>
  \<open>runSweepMode\<close> hands \<open>Run\<close> the repository, the store and the emitter. Their states are one record; the sweeper, the
  context and the clock act on the first part.
\<close>

record 'v sweep_process =
  sp_tables :: 'v
  sp_runs :: sweep_db
  sp_metrics :: prom_emitter

definition on_tables :: "('v, 'e, 'a) op \<Rightarrow> ('v sweep_process, 'e, 'a) op" where
  "on_tables m w = (case m (sp_tables w) of (x, v) \<Rightarrow> (x, w\<lparr>sp_tables := v\<rparr>))"

definition on_runs :: "(sweep_db, 'e, 'a) op \<Rightarrow> ('v sweep_process, 'e, 'a) op" where
  "on_runs m w = (case m (sp_runs w) of (x, db) \<Rightarrow> (x, w\<lparr>sp_runs := db\<rparr>))"

definition store_recorder :: "sweep_store \<Rightarrow> 'v sweep_process run_recorder" where
  "store_recorder st = \<lparr>rr_StartRun = (\<lambda>c t k. on_runs (StartRun st c t k)),
     rr_FinishRun = (\<lambda>i t m n b old. on_runs (FinishRun st i t m n b old)),
     rr_PruneOlderThan = (\<lambda>t. on_runs (PruneOlderThan st t))\<rparr>"

definition prom_metrics :: "'v sweep_process metric_emitter" where
  "prom_metrics = \<lparr>me_MarkRunStarted = (\<lambda>t w. w\<lparr>sp_metrics := MarkRunStarted t (sp_metrics w)\<rparr>),
     me_EmitClassMetrics = (\<lambda>c m n a w. w\<lparr>sp_metrics := EmitClassMetrics c m n a (sp_metrics w)\<rparr>)\<rparr>"

definition process_env :: "sweep_store \<Rightarrow> 'v expiry_sweeper \<Rightarrow> ('v \<Rightarrow> goerr option) \<Rightarrow> ('v \<Rightarrow> time) \<Rightarrow> 'v sweep_process sweep_env" where
  "process_env st del ctxErr clock =
     \<lparr>se_ctx_Err = (\<lambda>w. (ctxErr (sp_tables w), w)), se_now = (\<lambda>w. (clock (sp_tables w), w)),
      se_repo = (\<lambda>c t n. on_tables (del c t n)), se_emit = Some prom_metrics, se_recorder = Some (store_recorder st)\<rparr>"

lemma process_env_sel [simp]:
  "se_ctx_Err (process_env st del ctxErr clock) w = (ctxErr (sp_tables w), w)"
  "se_now (process_env st del ctxErr clock) w = (clock (sp_tables w), w)"
  "se_repo (process_env st del ctxErr clock) c t n w = on_tables (del c t n) w"
  "se_emit (process_env st del ctxErr clock) = Some prom_metrics"
  "se_recorder (process_env st del ctxErr clock) = Some (store_recorder st)"
  by (simp_all add: process_env_def)

text \<open>
  The loop over the batches touches neither the run table nor the metrics: either it fails, or it drains and then
  reports once.
\<close>

lemma finish_class_Class: "cr_Class (fst (finish_class d now i r old w)) = cr_Class r" "cr_Err (fst (finish_class d now i r old w)) = cr_Err r"
    "cr_Drained (fst (finish_class d now i r old w))"
  by (simp_all add: finish_class_def Let_def)

lemma batch_loop_reports:
  assumes "batch_loop (process_env st del ctxErr clock) now cutoff i r0 w = Some (r, w')"
  shows "cr_Class r = cr_Class r0 \<and>
    ((cr_Err r \<noteq> None \<and> cr_Drained r = cr_Drained r0 \<and> sp_runs w' = sp_runs w \<and> sp_metrics w' = sp_metrics w) \<or>
     (\<exists>w2 old r1. sp_runs w2 = sp_runs w \<and> sp_metrics w2 = sp_metrics w \<and> cr_Class r1 = cr_Class r0 \<and> cr_Err r1 = cr_Err r0 \<and>
        (r, w') = finish_class (process_env st del ctxErr clock) now i r1 old w2))"
proof -
  let ?d = "process_env st del ctxErr clock :: 'a sweep_process sweep_env"
  define Q where "Q d now cutoff i r0 w y \<longleftrightarrow> (d = ?d \<longrightarrow> (case y of (r, w') \<Rightarrow> cr_Class r = cr_Class r0 \<and>
    ((cr_Err r \<noteq> None \<and> cr_Drained r = cr_Drained r0 \<and> sp_runs w' = sp_runs w \<and> sp_metrics w' = sp_metrics w) \<or>
     (\<exists>w2 old r1. sp_runs w2 = sp_runs w \<and> sp_metrics w2 = sp_metrics w \<and> cr_Class r1 = cr_Class r0 \<and> cr_Err r1 = cr_Err r0 \<and>
        (r, w') = finish_class d now i r1 old w2))))"
    for d and now cutoff :: time and i and r0 :: class_result and w :: "'a sweep_process" and y :: "class_result \<times> 'a sweep_process"
  have "Q ?d now cutoff i r0 w (r, w')"
  proof (rule batch_loop.raw_induct [OF _ assms, of Q])
    fix L d now cutoff i r0 w y
    assume IH: "\<And>d now cutoff i r0 w y. L d now cutoff i r0 w = Some y \<Longrightarrow> Q d now cutoff i r0 w y"
      and body: "(case se_ctx_Err d w of
        (None, w1) \<Rightarrow>
          (case se_repo d (cr_Class r0) cutoff maxRowsPerBatch w1 of
             (Inl err, w2) \<Rightarrow> Some (r0\<lparr>cr_Err := Some err\<rparr>, w2)
           | (Inr batch, w2) \<Rightarrow>
               (let result = r0\<lparr>cr_RowsExamined := cr_RowsExamined r0 + RowsExamined batch,
                      cr_RowsDeleted := cr_RowsDeleted r0 + RowsDeleted batch\<rparr>
                in if Drained batch then Some (finish_class d now i result (OldestSurvivingAt batch) w2)
                   else L d now cutoff i result w2))
      | (Some err, w1) \<Rightarrow> Some (r0\<lparr>cr_Err := Some err\<rparr>, w1)) = Some y"
    show "Q d now cutoff i r0 w y"
      unfolding Q_def
    proof
      assume d: "d = ?d"
      show "case y of (r, w') \<Rightarrow> cr_Class r = cr_Class r0 \<and>
        ((cr_Err r \<noteq> None \<and> cr_Drained r = cr_Drained r0 \<and> sp_runs w' = sp_runs w \<and> sp_metrics w' = sp_metrics w) \<or>
         (\<exists>w2 old r1. sp_runs w2 = sp_runs w \<and> sp_metrics w2 = sp_metrics w \<and> cr_Class r1 = cr_Class r0 \<and> cr_Err r1 = cr_Err r0 \<and>
            (r, w') = finish_class d now i r1 old w2))"
      proof (cases "ctxErr (sp_tables w)")
        case (Some err)
        then show ?thesis using body by (auto simp: d process_env_def)
      next
        case None
        obtain x w2 where c: "se_repo d (cr_Class r0) cutoff maxRowsPerBatch w = (x, w2)" by (rule prod.exhaust)
        then have w2: "sp_runs w2 = sp_runs w" "sp_metrics w2 = sp_metrics w"
          by (auto simp: d process_env_def on_tables_def split: prod.splits)
        have ctx: "se_ctx_Err d w = (None, w)" by (simp add: d process_env_def None)
        show ?thesis
        proof (cases x)
          case (Inl err)
          then show ?thesis using body c w2 by (auto simp: ctx)
        next
          case (Inr batch)
          let ?r = "r0\<lparr>cr_RowsExamined := cr_RowsExamined r0 + RowsExamined batch, cr_RowsDeleted := cr_RowsDeleted r0 + RowsDeleted batch\<rparr>"
          show ?thesis
          proof (cases "Drained batch")
            case True
            then have "y = finish_class d now i ?r (OldestSurvivingAt batch) w2" using body c Inr by (simp add: ctx Let_def)
            then show ?thesis using w2 finish_class_Class [of d now i ?r "OldestSurvivingAt batch" w2]
              by (auto split: prod.split intro!: exI [of _ w2] exI [of _ "OldestSurvivingAt batch"] exI [of _ ?r])
          next
            case False
            then have "L d now cutoff i ?r w2 = Some y" using body c Inr by (simp add: ctx Let_def)
            from IH [OF this] show ?thesis using d w2 by (simp add: Q_def split: prod.splits)
          qed
        qed
      qed
    qed
  qed
  then show ?thesis by (simp add: Q_def)
qed

lemma FinishRun_row:
  assumes "ss_fault st (sd_stmts db) = None" "sd_rows db = rows @ [row]" "sr_id row = i" "i \<notin> sr_id ` set rows"
    and "integer_ok st m" "integer_ok st n"
  shows "sd_rows (snd (FinishRun st i t m n True old db)) =
    rows @ [row\<lparr>sr_finished := Some (encodeTime st t), sr_examined := m, sr_deleted := n, sr_drained := True,
      sr_oldest := encodeTimePtr st old\<rparr>]"
proof -
  have other: "\<forall>r \<in> set rows. sr_id r \<noteq> i" using assms(4) by auto
  then have hit: "filter (\<lambda>r. sr_id r = i) (sd_rows db) = [row]" using assms(2,3) by (simp add: filter_empty_conv)
  have keep: "map (\<lambda>r. if sr_id r = i then f r else r) rows = rows" for f using other by (auto intro: map_idI)
  show ?thesis
    using assms(1,3,5,6) hit
    by (simp add: FinishRun_def map_errS_def statement_def update_run_def Let_def drained_check_def) (simp add: assms(2) keep)
qed

text \<open>
  Every class leaves exactly one new row, and the row and the metrics say how it ended: a class that drained leaves a
  finished, drained row with the counts of its result, and the same counts in its gauges; a class that failed leaves the
  row it started, never finished, and no gauge of it moves.
\<close>
theorem class_run_recorded:
  assumes "c \<in> set allClasses" "\<forall>n. ss_fault st n = None"
    and "StartRun st c now k (sp_runs w) = (Inr (i, m), db1)" "i \<noteq> []"
    and "runClass (process_env st del ctxErr clock) c now k w = Some (r, w')"
    and "integer_ok st (cr_RowsExamined r)" "integer_ok st (cr_RowsDeleted r)"
  shows "\<exists>row. sd_rows (sp_runs w') = sd_rows (sp_runs w) @ [row] \<and> sr_id row = i \<and> sr_class row = class_string c \<and>
    sr_started row = encodeTime st now \<and> sr_missed row = m \<and>
    (if cr_Drained r
     then cr_Err r = None \<and> sr_finished row \<noteq> None \<and> sr_drained row \<and> sr_examined row = cr_RowsExamined r \<and>
       sr_deleted row = cr_RowsDeleted r \<and> pe_rowsExamined (sp_metrics w') (class_string c) = Some (cr_RowsExamined r) \<and>
       pe_rowsDeleted (sp_metrics w') (class_string c) = Some (cr_RowsDeleted r)
     else cr_Err r \<noteq> None \<and> sr_finished row = None \<and> \<not> sr_drained row \<and> sp_metrics w' = sp_metrics w)"
proof -
  let ?d = "process_env st del ctxErr clock"
  let ?zero = "\<lparr>cr_Class = c, cr_RowsExamined = 0, cr_RowsDeleted = 0, cr_Drained = False, cr_Err = None\<rparr>"
  let ?row = "\<lparr>sr_id = i, sr_class = class_string c, sr_started = encodeTime st now, sr_finished = None, sr_examined = 0,
     sr_deleted = 0, sr_oldest = None, sr_drained = False, sr_missed = m\<rparr>"
  obtain cutoff where cut: "cutoffFor now c = Some cutoff" using assms(1) by (auto simp: allClasses_def)
  have start: "start_run ?d c now k w = (i, w\<lparr>sp_runs := db1\<rparr>)"
    using assms(3) by (simp add: start_run_def process_env_def store_recorder_def on_runs_def)
  have row: "sd_rows db1 = sd_rows (sp_runs w) @ [?row]" "i \<notin> sr_id ` set (sd_rows (sp_runs w))"
    using StartRun_row [OF assms(3)] by blast+
  have loop: "batch_loop ?d now cutoff i ?zero (w\<lparr>sp_runs := db1\<rparr>) = Some (r, w')"
    using assms(5) by (simp add: runClass_def Let_def cut start)
  from batch_loop_reports [OF this] consider
    (failed) "cr_Err r \<noteq> None" "\<not> cr_Drained r" "sp_runs w' = db1" "sp_metrics w' = sp_metrics w"
  | (drained) w2 old r1 where "sp_runs w2 = db1" "sp_metrics w2 = sp_metrics w" "cr_Class r1 = c" "cr_Err r1 = None"
      "(r, w') = finish_class ?d now i r1 old w2"
    by auto
  then show ?thesis
  proof cases
    case failed
    then show ?thesis using row by (intro exI [of _ ?row]) simp
  next
    case drained
    have r: "r = r1\<lparr>cr_Drained := True\<rparr>" using drained(5) by (simp add: finish_class_def Let_def)
    have counts: "integer_ok st (cr_RowsExamined r1)" "integer_ok st (cr_RowsDeleted r1)" using assms(6,7) by (simp_all add: r)
    let ?t = "clock (sp_tables w2)"
    have w': "sp_runs w' = snd (FinishRun st i ?t (cr_RowsExamined r1) (cr_RowsDeleted r1) True old db1)"
      "sp_metrics w' = EmitClassMetrics c (cr_RowsExamined r1) (cr_RowsDeleted r1) (map_option (time_sub now) old) (sp_metrics w)"
      using drained assms(4)
      by (simp_all add: finish_class_def Let_def prom_metrics_def store_recorder_def on_runs_def case_prod_beta)
    have "ss_fault st (sd_stmts db1) = None" using assms(2) by simp
    from FinishRun_row [OF this row(1) _ row(2) counts]
    have "sd_rows (sp_runs w') = sd_rows (sp_runs w) @ [?row\<lparr>sr_finished := Some (encodeTime st ?t), sr_examined := cr_RowsExamined r1,
        sr_deleted := cr_RowsDeleted r1, sr_drained := True, sr_oldest := encodeTimePtr st old\<rparr>]"
      by (simp add: w'(1))
    then show ?thesis
      by (intro exI) (rule conjI, assumption, simp add: r drained(4) w'(2) EmitClassMetrics_def Let_def split: option.split)
  qed
qed

text \<open>A sweep of a class with one row to delete.\<close>

definition one_row_sweeper :: "nat expiry_sweeper" where
  "one_row_sweeper c t n v =
     (Inr \<lparr>RowsExamined = int v, RowsDeleted = int v, OldestSurvivingAt = None, Drained = True\<rparr>, 0)"

definition demo_process :: "nat sweep_process" where
  "demo_process = \<lparr>sp_tables = 1, sp_runs = demo_table, sp_metrics = NewPrometheusMetricEmitter\<rparr>"

theorem class_run_recorded_witness:
  "\<exists>r w' row. runClass (process_env demo_store one_row_sweeper (\<lambda>_. None) (\<lambda>_. 500 * second)) RetentionDirect (400 * second)
      (60 * second) demo_process = Some (r, w') \<and>
     sd_rows (sp_runs w') = sd_rows demo_table @ [row] \<and> sr_missed row = 4 \<and> sr_finished row \<noteq> None \<and>
     pe_rowsDeleted (sp_metrics w') ''direct'' = Some 1"
proof -
  let ?d = "process_env demo_store one_row_sweeper (\<lambda>_. None) (\<lambda>_. 500 * second) :: nat sweep_process sweep_env"
  obtain db1 where start: "StartRun demo_store RetentionDirect (400 * second) (60 * second) demo_table = (Inr (utoa 9, 4), db1)"
    by (rule demo_start)
  obtain r w' where run: "runClass ?d RetentionDirect (400 * second) (60 * second) demo_process = Some (r, w')"
    and r: "cr_Drained r" "cr_RowsExamined r = 1" "cr_RowsDeleted r = 1"
  proof -
    have s: "start_run ?d RetentionDirect (400 * second) (60 * second) demo_process = (utoa 9, demo_process\<lparr>sp_runs := db1\<rparr>)"
      using start by (simp add: start_run_def process_env_def store_recorder_def on_runs_def demo_process_def)
    have tables: "sp_tables demo_process = 1" by (simp add: demo_process_def)
    show thesis
      by (rule that [of "fst (finish_class ?d (400 * second) (utoa 9) \<lparr>cr_Class = RetentionDirect, cr_RowsExamined = 1, cr_RowsDeleted = 1,
            cr_Drained = False, cr_Err = None\<rparr> None (demo_process\<lparr>sp_runs := db1, sp_tables := 0\<rparr>))"
          "snd (finish_class ?d (400 * second) (utoa 9) \<lparr>cr_Class = RetentionDirect, cr_RowsExamined = 1, cr_RowsDeleted = 1,
            cr_Drained = False, cr_Err = None\<rparr> None (demo_process\<lparr>sp_runs := db1, sp_tables := 0\<rparr>))"])
        (simp_all add: runClass_def s batch_loop.simps on_tables_def one_row_sweeper_def tables finish_class_def Let_def)
  qed
  have c: "RetentionDirect \<in> set allClasses" by (simp add: allClasses_def)
  have f: "\<forall>n. ss_fault demo_store n = None" by simp
  have s: "StartRun demo_store RetentionDirect (400 * second) (60 * second) (sp_runs demo_process) = (Inr (utoa 9, 4), db1)"
    using start by (simp add: demo_process_def)
  from class_run_recorded [OF c f s utoa_nonempty run] r obtain row where
    "sd_rows (sp_runs w') = sd_rows (sp_runs demo_process) @ [row]" "sr_missed row = 4" "sr_finished row \<noteq> None"
    "pe_rowsDeleted (sp_metrics w') ''direct'' = Some 1"
    by (auto simp: integer_ok_def)
  with run show ?thesis by (auto simp: demo_process_def)
qed

end
