(* ===== verification/SqlEngine.thy ===== *)
theory SqlEngine
  imports Dao
begin

section \<open>The database the SQL backends run on\<close>

text \<open>
  The four tables of migrations/sqlite and migrations/postgres (same tables, same constraint names)
  with their CHECK, UNIQUE, PRIMARY KEY and FOREIGN KEY constraints, the statements the two backends
  issue, and transactions. A table is the list of its rows in insertion order; that is also the order
  of an unordered SELECT.

  What the backends do not control is the environment \<open>env\<close>: the clock, the generated UUIDs, the
  driver error a statement may fail with (a connection loss, a cancelled context, a serialization
  failure), indexed by the number \<open>tick\<close> of the call; the dialect's case functions, its timestamp
  precision and its constraint errors; and whether foreign keys are enforced. Theorems hold for every
  environment unless they say otherwise.
\<close>

datatype violation =
    PrimaryKey
  | UsernameUnique
  | ProfileFK
  | MethodFK
  | CheckFailed string

record env =
  en_now :: "nat \<Rightarrow> time"
  en_uuid :: "nat \<Rightarrow> string"
  en_fault :: "nat \<Rightarrow> goerr option"
  en_toUpper :: "string \<Rightarrow> string" \<comment> \<open>Go's \<open>strings.ToUpper\<close>\<close>
  en_lower :: "string \<Rightarrow> string" \<comment> \<open>SQL \<open>LOWER\<close>\<close>
  en_upper :: "string \<Rightarrow> string" \<comment> \<open>SQL \<open>upper\<close>\<close>
  en_stamp :: "time \<Rightarrow> time" \<comment> \<open>a time after storage\<close>
  en_phone :: "string \<Rightarrow> bool" \<comment> \<open>the phone CHECK\<close>
  en_fk :: bool
  en_violation :: "violation \<Rightarrow> goerr"

record deletion_row =
  dl_ID :: string
  dl_ProfileID :: string
  dl_Source :: string
  dl_Reason :: string
  dl_ExternalRef :: "string option"
  dl_DeletedAt :: time

record db =
  db_methods :: "auth_method list"
  db_profiles :: "user_profile list"
  db_credentials :: "user_credential list"
  db_deletions :: "deletion_row list"

record store =
  st_db :: db
  st_tick :: nat

subsection \<open>Constraints\<close>

text \<open>SQLite's \<open>length\<close> of a text: characters up to the first NUL.\<close>

definition c_str :: "string \<Rightarrow> string" where
  "c_str s = takeWhile (\<lambda>c. byte c \<noteq> 0) s"

definition sql_length :: "string \<Rightarrow> nat" where
  "sql_length s = length (filter (\<lambda>c. byte c < 128 \<or> 192 \<le> byte c) (c_str s))"

definition sql_trim :: "string \<Rightarrow> string" where
  "sql_trim s = rev (dropWhile (\<lambda>c. c = CHR '' '') (rev (dropWhile (\<lambda>c. c = CHR '' '') s)))"

definition sql_nonempty :: "string \<Rightarrow> bool" where
  "sql_nonempty s \<longleftrightarrow> 0 < sql_length (sql_trim s)"

text \<open>The phone check: SQLite's \<open>GLOB '+[1-9]*'\<close>, length 8 to 16, no character outside \<open>+0-9\<close>;
  PostgreSQL's \<open>^\+[1-9][0-9]{6,14}$\<close>.\<close>

definition e164_with :: "(char \<Rightarrow> bool) \<Rightarrow> string \<Rightarrow> bool" where
  "e164_with P s \<longleftrightarrow> 8 \<le> length s \<and> length s \<le> 16 \<and>
     (case s of a # b # r \<Rightarrow> a = CHR ''+'' \<and> 49 \<le> byte b \<and> byte b \<le> 57 \<and> list_all P r | _ \<Rightarrow> False)"

definition e164_sqlite :: "string \<Rightarrow> bool" where
  "e164_sqlite = e164_with (\<lambda>c. c = CHR ''+'' \<or> is_digit c)"

definition e164_postgres :: "string \<Rightarrow> bool" where
  "e164_postgres = e164_with is_digit"

lemma e164_postgres_sqlite: "e164_postgres s \<Longrightarrow> e164_sqlite s"
  by (auto simp: e164_postgres_def e164_sqlite_def e164_with_def list_all_iff split: list.splits)

text \<open>The two checks do not accept the same numbers.\<close>

lemma e164_divergence: "e164_sqlite ''+1+234567'' \<and> \<not> e164_postgres ''+1+234567''"
  by (simp add: e164_sqlite_def e164_postgres_def e164_with_def is_digit_def byte_def)

definition opt_ok :: "('a \<Rightarrow> bool) \<Rightarrow> 'a option \<Rightarrow> bool" where
  "opt_ok P v = (case v of None \<Rightarrow> True | Some x \<Rightarrow> P x)"

definition profile_checks :: "env \<Rightarrow> user_profile \<Rightarrow> (string \<times> bool) list" where
  "profile_checks e p =
     [(''ck_user_profile_name_nonempty'', sql_nonempty (up_Name p)),
      (''ck_user_profile_phone_e164'', opt_ok (en_phone e) (up_Phone p)),
      (''ck_user_profile_street_address_nonempty'', opt_ok sql_nonempty (up_StreetAddress p)),
      (''ck_user_profile_locality_nonempty'', opt_ok sql_nonempty (up_Locality p)),
      (''ck_user_profile_region_nonempty'', opt_ok sql_nonempty (up_Region p)),
      (''ck_user_profile_postal_code_nonempty'', opt_ok sql_nonempty (up_PostalCode p)),
      (''ck_user_profile_country_alpha2'',
         opt_ok (\<lambda>c. c = en_upper e c \<and> sql_length c = 2) (up_Country p)),
      (''ck_user_profile_source'', up_Source p = ''direct'' \<or> up_Source p = ''idp_cache'')]"

definition credential_checks :: "user_credential \<Rightarrow> (string \<times> bool) list" where
  "credential_checks c =
     [(''ck_user_credential_secret_state_enum'',
         uc_SecretState c = ''none'' \<or> uc_SecretState c = ''set'' \<or> uc_SecretState c = ''revoked''),
      (''ck_user_credential_secret_state'',
         (uc_SecretState c = ''set'' \<and> uc_Secret c \<noteq> None \<and> uc_HashAlgo c \<noteq> None \<and> uc_HashCost c \<noteq> None) \<or>
         ((uc_SecretState c = ''none'' \<or> uc_SecretState c = ''revoked'') \<and>
            uc_Secret c = None \<and> uc_HashAlgo c = None \<and> uc_HashCost c = None))]"

definition deletion_checks :: "deletion_row \<Rightarrow> (string \<times> bool) list" where
  "deletion_checks d =
     [(''ck_deletion_log_reason'', dl_Reason d = ''retention_sweep'' \<or> dl_Reason d = ''subject_request'')]"

text \<open>The first constraint a row fails.\<close>

definition first_failed :: "(string \<times> bool) list \<Rightarrow> string option" where
  "first_failed cs = map_option fst (find (\<lambda>(_, ok). \<not> ok) cs)"

definition all_hold :: "(string \<times> bool) list \<Rightarrow> bool" where
  "all_hold cs \<longleftrightarrow> list_all snd cs"

lemma first_failed_None [simp]: "first_failed cs = None \<longleftrightarrow> all_hold cs"
  by (fastforce simp: first_failed_def all_hold_def find_None_iff list_all_iff)

subsection \<open>Statements\<close>

text \<open>A statement reads and changes the database or fails with a driver error, leaving it alone.\<close>

type_synonym 'a stmt = "db \<Rightarrow> goerr + ('a \<times> db)"

definition insert_profile :: "env \<Rightarrow> user_profile \<Rightarrow> unit stmt" where
  "insert_profile e p d =
     (case first_failed (profile_checks e p) of
        Some c \<Rightarrow> Inl (en_violation e (CheckFailed c))
      | None \<Rightarrow>
          if up_ID p \<in> up_ID ` set (db_profiles d) then Inl (en_violation e PrimaryKey)
          else Inr ((), d\<lparr>db_profiles := db_profiles d @ [p]\<rparr>))"

text \<open>\<open>UPDATE user_profile SET ... WHERE id = ?\<close>: the rows after the change; the answer is the row.\<close>

definition update_profile :: "env \<Rightarrow> string \<Rightarrow> (user_profile \<Rightarrow> user_profile) \<Rightarrow> user_profile option stmt" where
  "update_profile e i f d =
     (case find (\<lambda>p. up_ID p = i) (db_profiles d) of
        None \<Rightarrow> Inr (None, d)
      | Some p \<Rightarrow>
          (case first_failed (profile_checks e (f p)) of
             Some c \<Rightarrow> Inl (en_violation e (CheckFailed c))
           | None \<Rightarrow> Inr (Some (f p), d\<lparr>db_profiles :=
               map (\<lambda>p. if up_ID p = i then f p else p) (db_profiles d)\<rparr>)))"

text \<open>\<open>INSERT ... ON CONFLICT (id) DO UPDATE\<close>: \<open>p\<close> is the row to insert, \<open>f\<close> the update.\<close>

definition upsert_profile :: "env \<Rightarrow> user_profile \<Rightarrow> (user_profile \<Rightarrow> user_profile) \<Rightarrow> user_profile stmt" where
  "upsert_profile e p f d =
     (case first_failed (profile_checks e p) of
        Some c \<Rightarrow> Inl (en_violation e (CheckFailed c))
      | None \<Rightarrow>
          (case update_profile e (up_ID p) f d of
             Inl err \<Rightarrow> Inl err
           | Inr (Some q, d') \<Rightarrow> Inr (q, d')
           | Inr (None, d') \<Rightarrow> Inr (p, d'\<lparr>db_profiles := db_profiles d' @ [p]\<rparr>)))"

text \<open>\<open>DELETE FROM user_profile WHERE ...\<close> with \<open>ON DELETE CASCADE\<close>: the answer is the rows removed.\<close>

definition delete_profiles :: "env \<Rightarrow> (user_profile \<Rightarrow> bool) \<Rightarrow> user_profile list stmt" where
  "delete_profiles e P d =
     (let gone = filter P (db_profiles d) in
      Inr (gone, d\<lparr>db_profiles := filter (\<lambda>p. \<not> P p) (db_profiles d),
        db_credentials := (if en_fk e
          then filter (\<lambda>c. uc_UserID c \<notin> up_ID ` set gone) (db_credentials d) else db_credentials d)\<rparr>))"

definition fk_failed :: "env \<Rightarrow> user_credential \<Rightarrow> db \<Rightarrow> violation option" where
  "fk_failed e c d =
     (if \<not> en_fk e then None
      else if uc_UserID c \<notin> up_ID ` set (db_profiles d) then Some ProfileFK
      else if uc_MethodID c \<notin> am_ID ` set (db_methods d) then Some MethodFK
      else None)"

definition same_username :: "env \<Rightarrow> string \<Rightarrow> user_credential \<Rightarrow> bool" where
  "same_username e u c \<longleftrightarrow> en_lower e (uc_Username c) = en_lower e u"

definition insert_credential :: "env \<Rightarrow> user_credential \<Rightarrow> unit stmt" where
  "insert_credential e c d =
     (case first_failed (credential_checks c) of
        Some n \<Rightarrow> Inl (en_violation e (CheckFailed n))
      | None \<Rightarrow>
          if uc_ID c \<in> uc_ID ` set (db_credentials d) then Inl (en_violation e PrimaryKey)
          else if list_ex (same_username e (uc_Username c)) (db_credentials d)
          then Inl (en_violation e UsernameUnique)
          else (case fk_failed e c d of
            Some v \<Rightarrow> Inl (en_violation e v)
          | None \<Rightarrow> Inr ((), d\<lparr>db_credentials := db_credentials d @ [c]\<rparr>)))"

definition update_credential ::
  "env \<Rightarrow> string \<Rightarrow> (user_credential \<Rightarrow> user_credential) \<Rightarrow> user_credential option stmt" where
  "update_credential e i f d =
     (case find (\<lambda>c. uc_ID c = i) (db_credentials d) of
        None \<Rightarrow> Inr (None, d)
      | Some c \<Rightarrow>
          (case first_failed (credential_checks (f c)) of
             Some n \<Rightarrow> Inl (en_violation e (CheckFailed n))
           | None \<Rightarrow>
               if list_ex (\<lambda>x. uc_ID x \<noteq> i \<and> same_username e (uc_Username (f c)) x) (db_credentials d)
               then Inl (en_violation e UsernameUnique)
               else (case fk_failed e (f c) d of
                 Some v \<Rightarrow> Inl (en_violation e v)
               | None \<Rightarrow> Inr (Some (f c), d\<lparr>db_credentials :=
                   map (\<lambda>c. if uc_ID c = i then f c else c) (db_credentials d)\<rparr>))))"

definition delete_credentials :: "string \<Rightarrow> user_credential list stmt" where
  "delete_credentials i d =
     Inr (filter (\<lambda>c. uc_ID c = i) (db_credentials d),
          d\<lparr>db_credentials := filter (\<lambda>c. uc_ID c \<noteq> i) (db_credentials d)\<rparr>)"

definition insert_deletion :: "env \<Rightarrow> deletion_row \<Rightarrow> unit stmt" where
  "insert_deletion e r d =
     (case first_failed (deletion_checks r) of
        Some c \<Rightarrow> Inl (en_violation e (CheckFailed c))
      | None \<Rightarrow>
          if dl_ID r \<in> dl_ID ` set (db_deletions d) then Inl (en_violation e PrimaryKey)
          else Inr ((), d\<lparr>db_deletions := db_deletions d @ [r]\<rparr>))"

definition select_stmt :: "(db \<Rightarrow> 'a) \<Rightarrow> 'a stmt" where
  "select_stmt f d = Inr (f d, d)"

text \<open>A SELECT of one row: \<open>sql.ErrNoRows\<close> when there is none.\<close>

definition select_one :: "(db \<Rightarrow> 'a option) \<Rightarrow> 'a stmt" where
  "select_one f d = (case f d of None \<Rightarrow> Inl ErrNoRows | Some x \<Rightarrow> Inr (x, d))"

subsection \<open>Executing statements\<close>

type_synonym 'a dbop = "(store, goerr, 'a) op"

definition exec :: "env \<Rightarrow> 'a stmt \<Rightarrow> 'a dbop" where
  "exec e f s =
     (let s1 = s\<lparr>st_tick := Suc (st_tick s)\<rparr> in
      case en_fault e (st_tick s) of
        Some err \<Rightarrow> (Inl err, s1)
      | None \<Rightarrow> (case f (st_db s) of
          Inl err \<Rightarrow> (Inl err, s1)
        | Inr (x, d) \<Rightarrow> (Inr x, s1\<lparr>st_db := d\<rparr>)))"

text \<open>The clock and the UUID generator: one call, one tick.\<close>

definition get_now :: "env \<Rightarrow> (store, goerr, time) op" where
  "get_now e s = (Inr (en_now e (st_tick s)), s\<lparr>st_tick := Suc (st_tick s)\<rparr>)"

definition get_uuid :: "env \<Rightarrow> (store, goerr, string) op" where
  "get_uuid e s = (Inr (en_uuid e (st_tick s)), s\<lparr>st_tick := Suc (st_tick s)\<rparr>)"

text \<open>A transaction: \<open>tr\<close> maps the error of \<open>BEGIN\<close> and of \<open>COMMIT\<close>; an error of the body or of
  the commit rolls the database back.\<close>

definition tx_control :: "env \<Rightarrow> (goerr \<Rightarrow> goerr) \<Rightarrow> unit dbop" where
  "tx_control e tr = map_errS tr (exec e (select_stmt (\<lambda>_. ())))"

definition in_tx :: "env \<Rightarrow> (goerr \<Rightarrow> goerr) \<Rightarrow> 'a dbop \<Rightarrow> 'a dbop" where
  "in_tx e tr body s =
     (case bindS (tx_control e tr) (\<lambda>_. bindS body (\<lambda>x. bindS (tx_control e tr) (\<lambda>_. retS x))) s of
        (Inl err, s') \<Rightarrow> (Inl err, s'\<lparr>st_db := st_db s\<rparr>)
      | (Inr x, s') \<Rightarrow> (Inr x, s'))"

lemma tx_control_db [simp]: "st_db (snd (tx_control e tr s)) = st_db s"
  by (simp add: tx_control_def map_errS_def exec_def select_stmt_def Let_def split: option.splits)

lemma tx_control_dbD: "tx_control e tr s = (r, s') \<Longrightarrow> st_db s' = st_db s"
  using tx_control_db [of e tr s] by simp

subsection \<open>What the constraints guarantee\<close>

text \<open>Every row satisfies the schema: this is what each statement keeps.\<close>

definition credential_refs :: "env \<Rightarrow> db \<Rightarrow> user_credential \<Rightarrow> bool" where
  "credential_refs e d c \<longleftrightarrow> (en_fk e \<longrightarrow>
     uc_UserID c \<in> up_ID ` set (db_profiles d) \<and> uc_MethodID c \<in> am_ID ` set (db_methods d))"

lemma credential_refs_cong:
  "up_ID ` set (db_profiles d') = up_ID ` set (db_profiles d) \<Longrightarrow> db_methods d' = db_methods d \<Longrightarrow>
   credential_refs e d' = credential_refs e d"
  by (rule ext) (simp only: credential_refs_def)

definition db_wf :: "env \<Rightarrow> db \<Rightarrow> bool" where
  "db_wf e d \<longleftrightarrow>
     distinct (map up_ID (db_profiles d)) \<and> list_all (\<lambda>p. all_hold (profile_checks e p)) (db_profiles d) \<and>
     distinct (map uc_ID (db_credentials d)) \<and>
     distinct (map (\<lambda>c. en_lower e (uc_Username c)) (db_credentials d)) \<and>
     list_all (\<lambda>c. all_hold (credential_checks c)) (db_credentials d) \<and>
     list_all (credential_refs e d) (db_credentials d) \<and>
     distinct (map dl_ID (db_deletions d)) \<and> list_all (\<lambda>r. all_hold (deletion_checks r)) (db_deletions d)"

definition stmt_keeps :: "(db \<Rightarrow> bool) \<Rightarrow> 'a stmt \<Rightarrow> bool" where
  "stmt_keeps P f \<longleftrightarrow> (\<forall>d x d'. P d \<longrightarrow> f d = Inr (x, d') \<longrightarrow> P d')"

lemma stmt_keepsI: "(\<And>d x d'. P d \<Longrightarrow> f d = Inr (x, d') \<Longrightarrow> P d') \<Longrightarrow> stmt_keeps P f"
  by (auto simp: stmt_keeps_def)

named_theorems wf_stmts

lemma keeps_insert_profile [wf_stmts]: "stmt_keeps (db_wf e) (insert_profile e p)"
  by (rule stmt_keepsI)
    (auto simp: insert_profile_def db_wf_def credential_refs_def list_all_iff split: option.splits if_splits)

lemma map_if_id: "(\<And>x. g (f x) = g x) \<Longrightarrow> map (g \<circ> (\<lambda>x. if g x = i then f x else x)) xs = map g xs"
  by (induction xs) auto

lemma keeps_update_profile [wf_stmts]:
  assumes "\<And>p. up_ID (f p) = up_ID p"
  shows "stmt_keeps (db_wf e) (update_profile e i f)"
proof (rule stmt_keepsI)
  fix d x d'
  assume wf: "db_wf e d" and u: "update_profile e i f d = Inr (x, d')"
  show "db_wf e d'"
  proof (cases "find (\<lambda>p. up_ID p = i) (db_profiles d)")
    case None
    then show ?thesis using wf u by (simp add: update_profile_def)
  next
    case (Some p)
    let ?g = "\<lambda>p. if up_ID p = i then f p else p"
    have p: "p \<in> set (db_profiles d)" "up_ID p = i" using find_SomeD [OF Some] by simp_all
    have uniq: "q = p" if "q \<in> set (db_profiles d)" "up_ID q = i" for q
      using that p wf by (auto simp: db_wf_def distinct_map inj_on_def)
    have ok: "all_hold (profile_checks e (f p))" and d': "d' = d\<lparr>db_profiles := map ?g (db_profiles d)\<rparr>"
      using u Some by (auto simp: update_profile_def split: option.splits)
    have ids: "map up_ID (map ?g (db_profiles d)) = map up_ID (db_profiles d)"
      using map_if_id [of up_ID f i] assms by simp
    then have "up_ID ` set (map ?g (db_profiles d)) = up_ID ` set (db_profiles d)"
      by (metis list.set_map)
    then have refs: "credential_refs e d' = credential_refs e d"
      by (intro credential_refs_cong) (simp_all add: d')
    then have "list_all (credential_refs e d') (db_credentials d')"
      using wf unfolding refs by (simp add: d' db_wf_def)
    moreover have "list_all (\<lambda>p. all_hold (profile_checks e p)) (map ?g (db_profiles d))"
      using wf ok uniq by (auto simp: db_wf_def list_all_iff)
    moreover have "distinct (map up_ID (db_profiles d'))"
    proof -
      have "db_profiles d' = map ?g (db_profiles d)" by (simp add: d')
      then show ?thesis using wf ids by (simp only: db_wf_def)
    qed
    ultimately show ?thesis using wf by (simp add: d' db_wf_def)
  qed
qed

lemma update_profile_None: "update_profile e i f d = Inr (None, d') \<longleftrightarrow>
    i \<notin> up_ID ` set (db_profiles d) \<and> d' = d"
  by (auto simp: update_profile_def find_None_iff split: option.splits dest!: find_SomeD)

lemma keeps_upsert_profile [wf_stmts]:
  assumes "\<And>p. up_ID (f p) = up_ID p"
  shows "stmt_keeps (db_wf e) (upsert_profile e p f)"
proof (rule stmt_keepsI)
  fix d x d'
  assume wf: "db_wf e d" and u: "upsert_profile e p f d = Inr (x, d')"
  have ok: "all_hold (profile_checks e p)" using u by (auto simp: upsert_profile_def split: option.splits)
  consider (upd) y where "update_profile e (up_ID p) f d = Inr (Some y, d')"
    | (ins) "update_profile e (up_ID p) f d = Inr (None, d)" "d' = d\<lparr>db_profiles := db_profiles d @ [p]\<rparr>"
    using u ok update_profile_None
    by (fastforce simp: upsert_profile_def split: option.splits sum.splits prod.splits)
  then show "db_wf e d'"
  proof cases
    case upd
    then show ?thesis using wf keeps_update_profile [OF assms, of e "up_ID p"] by (auto simp: stmt_keeps_def)
  next
    case ins
    then show ?thesis
      using wf ok by (auto simp: update_profile_None db_wf_def credential_refs_def list_all_iff)
  qed
qed

lemma image_minus: "x \<in> f ` A \<Longrightarrow> x \<notin> f ` {a \<in> A. P a} \<Longrightarrow> x \<in> f ` {a \<in> A. \<not> P a}"
  by blast

lemma keeps_delete_profiles [wf_stmts]: "stmt_keeps (db_wf e) (delete_profiles e P)"
  by (rule stmt_keepsI)
    (auto simp: delete_profiles_def Let_def db_wf_def credential_refs_def list_all_iff distinct_map_filter
      intro: image_minus)

lemma username_free_iff:
  "\<not> list_ex (same_username e u) cs \<longleftrightarrow> en_lower e u \<notin> (\<lambda>c. en_lower e (uc_Username c)) ` set cs"
  by (auto simp: list_ex_iff same_username_def image_iff)

lemma keeps_insert_credential [wf_stmts]: "stmt_keeps (db_wf e) (insert_credential e c)"
  by (rule stmt_keepsI)
    (auto simp: insert_credential_def db_wf_def credential_refs_def list_all_iff username_free_iff
      fk_failed_def split: option.splits if_splits)

lemma keeps_delete_credentials [wf_stmts]: "stmt_keeps (db_wf e) (delete_credentials i)"
  by (rule stmt_keepsI)
    (auto simp: delete_credentials_def db_wf_def credential_refs_def list_all_iff distinct_map_filter)

lemma keeps_insert_deletion [wf_stmts]: "stmt_keeps (db_wf e) (insert_deletion e r)"
  by (rule stmt_keepsI)
    (auto simp: insert_deletion_def db_wf_def credential_refs_def list_all_iff split: option.splits if_splits)

lemma keeps_select [wf_stmts]: "stmt_keeps P (select_stmt f)" "stmt_keeps P (select_one g)"
  by (auto simp: stmt_keeps_def select_stmt_def select_one_def split: option.splits)

lemma keeps_update_credential [wf_stmts]:
  assumes f: "\<And>c. uc_ID (f c) = uc_ID c" and u: "\<And>c. uc_UserID (f c) = uc_UserID c"
    and u2: "\<And>c c'. uc_Username (f c) = uc_Username (f c')"
  shows "stmt_keeps (db_wf e) (update_credential e i f)"
proof (rule stmt_keepsI)
  fix d x d'
  assume wf: "db_wf e d" and upd: "update_credential e i f d = Inr (x, d')"
  show "db_wf e d'"
  proof (cases "find (\<lambda>c. uc_ID c = i) (db_credentials d)")
    case None
    then show ?thesis using wf upd by (simp add: update_credential_def)
  next
    case (Some c)
    let ?g = "\<lambda>c. if uc_ID c = i then f c else c"
    let ?cs = "db_credentials d"
    have c: "c \<in> set ?cs" "uc_ID c = i" using find_SomeD [OF Some] by simp_all
    have uniq: "q = c" if "q \<in> set ?cs" "uc_ID q = i" for q
      using that c wf by (auto simp: db_wf_def distinct_map inj_on_def)
    have ok: "all_hold (credential_checks (f c))" and d': "d' = d\<lparr>db_credentials := map ?g ?cs\<rparr>"
      and fk: "fk_failed e (f c) d = None"
      and free: "\<forall>x \<in> set ?cs. uc_ID x \<noteq> i \<longrightarrow> en_lower e (uc_Username x) \<noteq> en_lower e (uc_Username (f c))"
      using upd Some
      by (auto simp: update_credential_def list_ex_iff same_username_def split: option.splits if_splits)
    have cs': "db_credentials d' = map ?g ?cs" by (simp add: d')
    have ids: "map uc_ID (map ?g ?cs) = map uc_ID ?cs"
      using map_if_id [of uc_ID f i] f by simp
    have refs: "credential_refs e d' = credential_refs e d"
      by (intro credential_refs_cong) (simp_all add: d')
    have "inj_on (\<lambda>c. en_lower e (uc_Username (?g c))) (set ?cs)"
    proof (rule inj_onI)
      fix a b assume a: "a \<in> set ?cs" and b: "b \<in> set ?cs"
        and eq: "en_lower e (uc_Username (?g a)) = en_lower e (uc_Username (?g b))"
      have inj: "inj_on (\<lambda>c. en_lower e (uc_Username c)) (set ?cs)"
        using wf by (simp add: db_wf_def distinct_map)
      show "a = b"
      proof (cases "uc_ID a = i \<or> uc_ID b = i")
        case True
        then show ?thesis using uniq a b eq free u2 by (auto split: if_splits) (metis)+
      next
        case False
        then show ?thesis using inj a b eq by (auto simp: inj_on_def)
      qed
    qed
    moreover have "distinct ?cs" using wf by (auto simp: db_wf_def distinct_map)
    ultimately have "distinct (map (\<lambda>c. en_lower e (uc_Username c)) (map ?g ?cs))"
      by (simp add: distinct_map comp_def)
    moreover have "distinct (map uc_ID (map ?g ?cs))" using wf ids by (simp only: db_wf_def)
    moreover have "list_all (\<lambda>c. all_hold (credential_checks c)) (map ?g ?cs)"
      using wf ok uniq by (auto simp: db_wf_def list_all_iff)
    moreover have "list_all (credential_refs e d) (map ?g ?cs)"
      using wf fk uniq by (auto simp: db_wf_def list_all_iff credential_refs_def fk_failed_def split: if_splits)
    ultimately show ?thesis using wf by (simp add: db_wf_def cs' refs) (simp add: d')
  qed
qed

subsection \<open>Operations keep what their statements keep\<close>

abbreviation db_keeps :: "(db \<Rightarrow> bool) \<Rightarrow> 'a dbop \<Rightarrow> bool" where
  "db_keeps P m \<equiv> keeps (\<lambda>s. P (st_db s)) m"

named_theorems db_rules

lemma db_keeps_exec [db_rules]: "stmt_keeps P f \<Longrightarrow> db_keeps P (exec e f)"
  by (auto simp: keeps_def exec_def Let_def stmt_keeps_def split: option.splits sum.splits)

lemma db_keeps_env [db_rules]: "db_keeps P (get_now e)" "db_keeps P (get_uuid e)"
  by (auto simp: keeps_def get_now_def get_uuid_def)

lemma db_keeps_control [db_rules]: "db_keeps P (tx_control e tr)"
  by (simp add: keeps_def)

lemma db_keeps_tx [db_rules]:
  assumes "db_keeps P body" shows "db_keeps P (in_tx e tr body)"
proof (rule keepsI)
  fix s :: store
  assume P: "P (st_db s)"
  have "db_keeps P (bindS (tx_control e tr) (\<lambda>_. bindS body (\<lambda>x. bindS (tx_control e tr) (\<lambda>_. retS x))))"
    by (intro keeps_bindS assms db_keeps_control keeps_retS)
  from keepsD [OF this P] P show "P (st_db (snd (in_tx e tr body s)))"
    by (auto simp: in_tx_def split: prod.splits sum.splits)
qed

lemmas keep_rules = keeps_bindS keeps_map_errS keeps_catchS keeps_if keeps_retS keeps_failS keeps_liftS
  keeps_guardS db_rules

text \<open>A failed transaction leaves the database as it was, whatever its body did.\<close>

lemma in_tx_Inl: "in_tx e tr body s = (Inl err, s') \<Longrightarrow> st_db s' = st_db s"
  by (auto simp: in_tx_def split: prod.splits sum.splits)

lemma in_tx_Inr:
  assumes "in_tx e tr body s = (Inr x, s')"
  obtains s1 s2 where "st_db s1 = st_db s" "body s1 = (Inr x, s2)" "st_db s' = st_db s2"
proof -
  have "bindS (tx_control e tr) (\<lambda>_. bindS body (\<lambda>x. bindS (tx_control e tr) (\<lambda>_. retS x))) s = (Inr x, s')"
    using assms by (auto simp: in_tx_def split: prod.splits sum.splits)
  then obtain s1 s2 where "tx_control e tr s = (Inr (), s1)" "body s1 = (Inr x, s2)"
      "tx_control e tr s2 = (Inr (), s')"
    by (auto simp: bindS_eq_Inr)
  then show thesis using that tx_control_dbD by metis
qed

end
