(* ===== verification/SqliteDao.thy ===== *)
theory SqliteDao
  imports SqlEngine "HOL-Library.Product_Lexorder" "HOL-Library.List_Lexorder"
begin

section \<open>internal/dao/sqlite: the SQLite repository\<close>

text \<open>
  errors.go, like.go, profiles.go, credentials.go, methods.go and composite.go, statement by statement
  over \<open>SqlEngine\<close>. Times are stored as RFC 3339 text with whole seconds, always in UTC, which
  compares as the instant does; \<open>rfc3339\<close> is the instant read back. A cancelled or expired context
  shows as the driver error of the statement it stops. Two calls of the SQL driver never run at the
  same time (\<open>SetMaxOpenConns(1)\<close>), so an operation here is a sequence of statements.
\<close>

subsection \<open>errors.go\<close>

fun last_index :: "string \<Rightarrow> string \<Rightarrow> nat option" where
  "last_index [] sub = (if sub = [] then Some 0 else None)"
| "last_index (c # s) sub =
     (case last_index s sub of
        Some i \<Rightarrow> Some (Suc i)
      | None \<Rightarrow> if has_prefix (c # s) sub then Some 0 else None)"

definition check_marker :: string where "check_marker = ''CHECK constraint failed: ''"

definition checkConstraintName :: "string \<Rightarrow> string option" where
  "checkConstraintName msg =
     (case last_index msg check_marker of
        None \<Rightarrow> None
      | Some i \<Rightarrow>
          (let name = trim_space (drop (i + length check_marker) msg) in
           case last_index name '' ('' of
             None \<Rightarrow> Some name
           | Some j \<Rightarrow> if has_prefix (rev name) '')'' then Some (trim_space (take j name)) else Some name))"

definition sqlite_translateError :: "goerr \<Rightarrow> goerr" where
  "sqlite_translateError err =
     (if errors_is err ErrNoRows then ErrNotFound
      else case errors_as_sqlite err of
        Some (code, msg) \<Rightarrow>
          if code = 2067 then ErrDuplicateUsername
          else if code = 1555 then ErrAlreadyExists
          else if code = 787 then ErrInvalidMethod
          else if code = 275 then
            (if checkConstraintName msg = Some ''ck_user_credential_secret_state''
             then ErrInvalidCredential else ErrInvalidArgument)
          else Wrap (''sqlite: driver error (code '' @ itoa code @ ''): '') ErrUnclassified
      | None \<Rightarrow> Wrap ''sqlite: '' ErrUnclassified)"

text \<open>The driver's error for each constraint of the schema.\<close>

fun sqlite_violation :: "violation \<Rightarrow> goerr" where
  "sqlite_violation PrimaryKey = SqliteError 1555 ''constraint failed: UNIQUE constraint failed (1555)''"
| "sqlite_violation UsernameUnique = SqliteError 2067 ''constraint failed: UNIQUE constraint failed (2067)''"
| "sqlite_violation ProfileFK = SqliteError 787 ''constraint failed: FOREIGN KEY constraint failed (787)''"
| "sqlite_violation MethodFK = SqliteError 787 ''constraint failed: FOREIGN KEY constraint failed (787)''"
| "sqlite_violation (CheckFailed c) =
     SqliteError 275 (''constraint failed: '' @ check_marker @ c @ '' (275)'')"

definition rfc3339 :: "time \<Rightarrow> time" where
  "rfc3339 t = t div second * second"

definition sqlite_env ::
  "(nat \<Rightarrow> time) \<Rightarrow> (nat \<Rightarrow> string) \<Rightarrow> (nat \<Rightarrow> goerr option) \<Rightarrow> (string \<Rightarrow> string) \<Rightarrow> bool \<Rightarrow> env" where
  "sqlite_env now uuid fault toUpper fk =
     \<lparr>en_now = now, en_uuid = uuid, en_fault = fault, en_toUpper = toUpper, en_lower = ascii_lower,
      en_upper = ascii_upper, en_stamp = rfc3339, en_phone = e164_sqlite, en_fk = fk,
      en_violation = sqlite_violation\<rparr>"

subsection \<open>like.go and the LIKE operator\<close>

definition escapeLike :: "string \<Rightarrow> string" where
  "escapeLike s = concat (map (\<lambda>c.
     if c = CHR 0x5C \<or> c = CHR ''%'' \<or> c = CHR ''_'' then [CHR 0x5C, c] else [c]) s)"

text \<open>The rest of a text after one character.\<close>

fun skip_char :: "string \<Rightarrow> string" where
  "skip_char [] = []"
| "skip_char (c # s) = (if 192 \<le> byte c then dropWhile (\<lambda>d. 128 \<le> byte d \<and> byte d < 192) s else s)"

lemma skip_char_le: "length (skip_char s) \<le> length s"
  by (cases s) (auto simp: length_dropWhile_le le_SucI)

text \<open>\<open>LIKE pattern ESCAPE '\'\<close> on case-folded operands.\<close>

function like_match :: "string \<Rightarrow> string \<Rightarrow> bool" where
  "like_match [] s = (s = [])"
| "like_match (p # ps) s =
     (if p = CHR ''%'' then like_match ps s \<or> (case s of [] \<Rightarrow> False | c # t \<Rightarrow> like_match (p # ps) t)
      else if p = CHR ''_'' then (case s of [] \<Rightarrow> False | c # t \<Rightarrow> like_match ps (skip_char (c # t)))
      else if p = CHR 0x5C then
        (case ps of
           [] \<Rightarrow> False
         | q # qs \<Rightarrow> (case s of [] \<Rightarrow> False | c # t \<Rightarrow> c = q \<and> like_match qs t))
      else (case s of [] \<Rightarrow> False | c # t \<Rightarrow> c = p \<and> like_match ps t))"
  by pat_completeness auto
termination
  by (relation "measure (\<lambda>(p, s). length p + length s)")
    (auto simp: less_Suc_eq_le simp del: skip_char.simps intro: le_SucI order_trans [OF skip_char_le])

definition sql_like :: "env \<Rightarrow> string \<Rightarrow> string \<Rightarrow> bool" where
  "sql_like e text pattern = like_match (c_str (en_lower e pattern)) (c_str (en_lower e text))"

subsection \<open>profiles.go\<close>

text \<open>A row read by \<open>Scan\<close>.\<close>

definition scan_row :: "env \<Rightarrow> 'a stmt \<Rightarrow> 'a dbop" where
  "scan_row e f = map_errS
     (\<lambda>err. if errors_is err ErrNoRows then ErrNotFound else sqlite_translateError err) (exec e f)"

definition run_stmt :: "env \<Rightarrow> 'a stmt \<Rightarrow> 'a dbop" where
  "run_stmt e f = map_errS sqlite_translateError (exec e f)"

text \<open>\<open>rows.Err()\<close> after the iteration: an error the driver met while reading rows, not translated.\<close>

definition rows_err :: "env \<Rightarrow> unit dbop" where
  "rows_err e = exec e (select_stmt (\<lambda>_. ()))"

definition profile_by_id :: "string \<Rightarrow> db \<Rightarrow> user_profile option" where
  "profile_by_id i d = find (\<lambda>p. up_ID p = i) (db_profiles d)"

definition sqlite_Get :: "env \<Rightarrow> string \<Rightarrow> user_profile dbop" where
  "sqlite_Get e i = bindS (liftS (ValidateID i)) (\<lambda>_. scan_row e (select_one (profile_by_id i)))"

definition query_matches :: "env \<Rightarrow> profile_query \<Rightarrow> user_profile \<Rightarrow> bool" where
  "query_matches e q p \<longleftrightarrow>
     opt_ok (\<lambda>n. sql_like e (up_Name p) (''%'' @ escapeLike n @ ''%'')) (pq_Name q) \<and>
     opt_ok (\<lambda>v. up_Phone p = Some v) (pq_Phone q) \<and>
     opt_ok (\<lambda>v. case up_Region p of None \<Rightarrow> False | Some r \<Rightarrow> en_lower e r = en_lower e v) (pq_Region q) \<and>
     opt_ok (\<lambda>v. up_Country p = Some (en_toUpper e v)) (pq_Country q)"

definition matching_rows :: "env \<Rightarrow> profile_query \<Rightarrow> db \<Rightarrow> user_profile list" where
  "matching_rows e q d = filter (query_matches e q) (db_profiles d)"

text \<open>\<open>ORDER BY LOWER(name) COLLATE BINARY, id LIMIT ? OFFSET ?\<close>.\<close>

definition ordered_rows :: "env \<Rightarrow> profile_query \<Rightarrow> db \<Rightarrow> user_profile list" where
  "ordered_rows e q d = sort_key (\<lambda>p. (en_lower e (up_Name p), up_ID p)) (matching_rows e q d)"

definition page_rows :: "env \<Rightarrow> profile_query \<Rightarrow> db \<Rightarrow> user_profile list" where
  "page_rows e q d = take (nat (EffectiveLimit q)) (drop (nat (pq_Offset q)) (ordered_rows e q d))"

definition sqlite_Search :: "env \<Rightarrow> profile_query \<Rightarrow> (user_profile list \<times> int) dbop" where
  "sqlite_Search e q =
     bindS (liftS (ValidateProfileQuery q)) (\<lambda>_.
     bindS (run_stmt e (select_stmt (\<lambda>d. int (length (matching_rows e q d))))) (\<lambda>n.
     bindS (run_stmt e (select_stmt (page_rows e q))) (\<lambda>rows.
     bindS (map_errS sqlite_translateError (rows_err e)) (\<lambda>_.
     retS (rows, n)))))"

definition profile_row :: "string \<Rightarrow> time \<Rightarrow> user_profile \<Rightarrow> user_profile" where
  "profile_row i now p = p\<lparr>up_ID := i, up_CreatedAt := now, up_UpdatedAt := now\<rparr>"

text \<open>The \<open>SET\<close> list of UPDATE and of ON CONFLICT: every column but id and created_at.\<close>

definition set_profile :: "user_profile \<Rightarrow> time \<Rightarrow> user_profile \<Rightarrow> user_profile" where
  "set_profile p now r = p\<lparr>up_ID := up_ID r, up_CreatedAt := up_CreatedAt r, up_UpdatedAt := now\<rparr>"

definition now_text :: "env \<Rightarrow> (store, goerr, time) op" where
  "now_text e = bindS (get_now e) (\<lambda>t. retS (en_stamp e t))"

definition sqlite_Create :: "env \<Rightarrow> user_profile \<Rightarrow> user_profile dbop" where
  "sqlite_Create e p0 =
     bindS (liftS (ValidateCreateID (up_ID p0))) (\<lambda>_.
     bindS (liftS (ValidateProfilePointers p0)) (\<lambda>_.
     let p = NormalizeProfileForWrite (en_toUpper e) p0 in
     bindS (get_uuid e) (\<lambda>i.
     bindS (now_text e) (\<lambda>now.
     bindS (run_stmt e (insert_profile e (profile_row i now p))) (\<lambda>_.
     sqlite_Get e i)))))"

definition sqlite_Update :: "env \<Rightarrow> user_profile \<Rightarrow> user_profile dbop" where
  "sqlite_Update e p0 =
     bindS (liftS (ValidateID (up_ID p0))) (\<lambda>_.
     bindS (liftS (ValidateProfilePointers p0)) (\<lambda>_.
     let p = NormalizeProfileForWrite (en_toUpper e) p0 in
     bindS (now_text e) (\<lambda>now.
     bindS (run_stmt e (update_profile e (up_ID p) (set_profile p now))) (\<lambda>row.
     if row = None then failS ErrNotFound else sqlite_Get e (up_ID p)))))"

definition sqlite_Upsert :: "env \<Rightarrow> user_profile \<Rightarrow> user_profile dbop" where
  "sqlite_Upsert e p0 =
     bindS (liftS (ValidateID (up_ID p0))) (\<lambda>_.
     bindS (liftS (ValidateProfilePointers p0)) (\<lambda>_.
     let p = NormalizeProfileForWrite (en_toUpper e) p0 in
     bindS (now_text e) (\<lambda>now.
     bindS (run_stmt e (upsert_profile e (profile_row (up_ID p) now p) (set_profile p now))) (\<lambda>_.
     sqlite_Get e (up_ID p)))))"

definition sqlite_Delete :: "env \<Rightarrow> string \<Rightarrow> unit dbop" where
  "sqlite_Delete e i =
     bindS (liftS (ValidateID i)) (\<lambda>_.
     bindS (run_stmt e (delete_profiles e (\<lambda>p. up_ID p = i))) (\<lambda>gone.
     if gone = [] then failS ErrNotFound else retS ()))"

subsection \<open>credentials.go\<close>

definition sqlite_GetByUsername :: "env \<Rightarrow> string \<Rightarrow> user_credential dbop" where
  "sqlite_GetByUsername e username =
     scan_row e (select_one (\<lambda>d. find (same_username e username) (db_credentials d)))"

definition sqlite_ListByUserID :: "env \<Rightarrow> string \<Rightarrow> user_credential list dbop" where
  "sqlite_ListByUserID e userID =
     bindS (liftS (ValidateID userID)) (\<lambda>_.
     bindS (run_stmt e (select_stmt (\<lambda>d. filter (\<lambda>c. uc_UserID c = userID) (db_credentials d)))) (\<lambda>rows.
     bindS (rows_err e) (\<lambda>_. retS rows)))"

definition validateMethod :: "env \<Rightarrow> string \<Rightarrow> string \<Rightarrow> unit dbop" where
  "validateMethod e methodID secretState =
     bindS (map_errS (\<lambda>err. if errors_is err ErrNoRows then ErrInvalidMethod else sqlite_translateError err)
       (exec e (select_one (\<lambda>d. find (\<lambda>m. am_ID m = methodID) (db_methods d))))) (\<lambda>m.
     if \<not> am_IsActive m then failS ErrInvalidMethod
     else if \<not> am_RequiresSecret m \<and> secretState = ''set'' then failS ErrInvalidCredential
     else retS ())"

definition credential_row :: "string \<Rightarrow> string \<Rightarrow> time \<Rightarrow> user_credential \<Rightarrow> user_credential" where
  "credential_row i userID now c =
     c\<lparr>uc_ID := i, uc_UserID := userID, uc_CreatedAt := now, uc_UpdatedAt := now\<rparr>"

definition set_credential :: "user_credential \<Rightarrow> time \<Rightarrow> user_credential \<Rightarrow> user_credential" where
  "set_credential c now r =
     c\<lparr>uc_ID := uc_ID r, uc_UserID := uc_UserID r, uc_CreatedAt := uc_CreatedAt r, uc_UpdatedAt := now\<rparr>"

definition credential_by_id :: "string \<Rightarrow> db \<Rightarrow> user_credential option" where
  "credential_by_id i d = find (\<lambda>c. uc_ID c = i) (db_credentials d)"

definition sqlite_CreateCredential :: "env \<Rightarrow> user_credential \<Rightarrow> user_credential dbop" where
  "sqlite_CreateCredential e c =
     bindS (liftS (ValidateCreateID (uc_ID c))) (\<lambda>_.
     bindS (liftS (ValidateCredentialPointers c)) (\<lambda>_.
     bindS (validateMethod e (uc_MethodID c) (uc_SecretState c)) (\<lambda>_.
     bindS (get_uuid e) (\<lambda>i.
     bindS (now_text e) (\<lambda>now.
     bindS (run_stmt e (insert_credential e (credential_row i (uc_UserID c) now c))) (\<lambda>_.
     scan_row e (select_one (credential_by_id i))))))))"

definition sqlite_UpdateCredential :: "env \<Rightarrow> user_credential \<Rightarrow> user_credential dbop" where
  "sqlite_UpdateCredential e c =
     bindS (liftS (ValidateID (uc_ID c))) (\<lambda>_.
     bindS (liftS (ValidateCredentialPointers c)) (\<lambda>_.
     bindS (validateMethod e (uc_MethodID c) (uc_SecretState c)) (\<lambda>_.
     bindS (now_text e) (\<lambda>now.
     bindS (run_stmt e (update_credential e (uc_ID c) (set_credential c now))) (\<lambda>row.
     if row = None then failS ErrNotFound
     else scan_row e (select_one (credential_by_id (uc_ID c))))))))"

definition sqlite_DeleteCredential :: "env \<Rightarrow> string \<Rightarrow> unit dbop" where
  "sqlite_DeleteCredential e i =
     bindS (liftS (ValidateID i)) (\<lambda>_.
     bindS (run_stmt e (delete_credentials i)) (\<lambda>gone.
     if gone = [] then failS ErrNotFound else retS ()))"

subsection \<open>methods.go\<close>

definition sqlite_GetMethod :: "env \<Rightarrow> string \<Rightarrow> auth_method dbop" where
  "sqlite_GetMethod e i = bindS (liftS (ValidateID i)) (\<lambda>_.
     scan_row e (select_one (\<lambda>d. find (\<lambda>m. am_ID m = i) (db_methods d))))"

definition sqlite_GetMethodByName :: "env \<Rightarrow> string \<Rightarrow> auth_method dbop" where
  "sqlite_GetMethodByName e name =
     scan_row e (select_one (\<lambda>d. find (\<lambda>m. am_Name m = name) (db_methods d)))"

definition sqlite_ListMethods :: "env \<Rightarrow> bool \<Rightarrow> auth_method list dbop" where
  "sqlite_ListMethods e activeOnly =
     bindS (run_stmt e (select_stmt (\<lambda>d. filter (\<lambda>m. activeOnly \<longrightarrow> am_IsActive m) (db_methods d)))) (\<lambda>rows.
     bindS (rows_err e) (\<lambda>_. retS rows))"

subsection \<open>composite.go\<close>

text \<open>The statements inside the transaction.\<close>

definition create_pair_body :: "env \<Rightarrow> user_profile \<Rightarrow> user_credential \<Rightarrow> string dbop" where
  "create_pair_body e p c =
     bindS (get_uuid e) (\<lambda>profileID.
     bindS (now_text e) (\<lambda>now.
     bindS (run_stmt e (insert_profile e (profile_row profileID now p))) (\<lambda>_.
     bindS (validateMethod e (uc_MethodID c) (uc_SecretState c)) (\<lambda>_.
     bindS (get_uuid e) (\<lambda>credentialID.
     bindS (run_stmt e (insert_credential e (credential_row credentialID profileID now c))) (\<lambda>_.
     retS profileID))))))"

definition sqlite_CreateProfileWithCredential ::
  "env \<Rightarrow> user_profile \<Rightarrow> user_credential \<Rightarrow> (user_profile \<times> user_credential) dbop" where
  "sqlite_CreateProfileWithCredential e p0 c0 =
     bindS (liftS (ValidateCreateID (up_ID p0))) (\<lambda>_.
     bindS (liftS (ValidateProfilePointers p0)) (\<lambda>_.
     let p = NormalizeProfileForWrite (en_toUpper e) p0 in
     bindS (liftS (ValidateCreateID (uc_ID c0))) (\<lambda>_.
     let c = PrepareCreateProfileWithCredential c0 in
     bindS (liftS (ValidateCredentialPointers c)) (\<lambda>_.
     bindS (in_tx e sqlite_translateError (create_pair_body e p c)) (\<lambda>profileID.
     bindS (sqlite_Get e profileID) (\<lambda>createdProfile.
     bindS (sqlite_GetByUsername e (uc_Username c)) (\<lambda>createdCredential.
     retS (createdProfile, createdCredential))))))))"

text \<open>\<open>clockColumnFor\<close>: which rows a class holds and which column is its clock.\<close>

definition has_credential :: "db \<Rightarrow> user_profile \<Rightarrow> bool" where
  "has_credential d p \<longleftrightarrow> list_ex (\<lambda>c. uc_UserID c = up_ID p) (db_credentials d)"

fun clockColumnFor :: "retention_class \<Rightarrow> ((user_profile \<Rightarrow> time) \<times> (db \<Rightarrow> user_profile \<Rightarrow> bool)) option" where
  "clockColumnFor RetentionDirect = Some (up_UpdatedAt, \<lambda>d p. up_Source p = ''direct'')"
| "clockColumnFor RetentionIDPCache =
     Some (up_UpdatedAt, \<lambda>d p. up_Source p = ''idp_cache'' \<and> has_credential d p)"
| "clockColumnFor RetentionIDPCacheOrphan =
     Some (up_CreatedAt, \<lambda>d p. up_Source p = ''idp_cache'' \<and> \<not> has_credential d p)"
| "clockColumnFor (OtherClass _) = None"

definition min_clock :: "(user_profile \<Rightarrow> time) \<Rightarrow> user_profile list \<Rightarrow> time option" where
  "min_clock clock ps = (if ps = [] then None else Some (Min (clock ` set ps)))"

fun sqlite_delete_loop :: "env \<Rightarrow> retention_class \<Rightarrow> (user_profile \<Rightarrow> time) \<Rightarrow> (db \<Rightarrow> user_profile \<Rightarrow> bool) \<Rightarrow>
    time \<Rightarrow> string list \<Rightarrow> int \<Rightarrow> int dbop" where
  "sqlite_delete_loop e class clock extra cutoff [] deleted = retS deleted"
| "sqlite_delete_loop e class clock extra cutoff (i # is) deleted =
     bindS (run_stmt e (\<lambda>d. delete_profiles e (\<lambda>p. up_ID p = i \<and> extra d p \<and> clock p < cutoff) d)) (\<lambda>gone.
     if gone = [] then sqlite_delete_loop e class clock extra cutoff is deleted
     else
       bindS (get_uuid e) (\<lambda>deletionID.
       bindS (now_text e) (\<lambda>now.
       bindS (run_stmt e (insert_deletion e
         \<lparr>dl_ID = deletionID, dl_ProfileID = i, dl_Source = class_string class, dl_Reason = ''retention_sweep'',
          dl_ExternalRef = None, dl_DeletedAt = now\<rparr>)) (\<lambda>_.
       sqlite_delete_loop e class clock extra cutoff is (deleted + 1)))))"

definition sqlite_DeleteExpired :: "env \<Rightarrow> retention_class \<Rightarrow> time \<Rightarrow> int \<Rightarrow> sweep_result dbop" where
  "sqlite_DeleteExpired e class olderThan maxRows =
     (if maxRows < 1 \<or> 10000 < maxRows then failS ErrInvalidArgument
      else case clockColumnFor class of
        None \<Rightarrow> failS ErrInvalidArgument
      | Some (clock, extra) \<Rightarrow>
          (let cutoff = en_stamp e olderThan in
           in_tx e sqlite_translateError
             (bindS (run_stmt e (select_stmt (\<lambda>d. map up_ID (take (nat maxRows)
                (filter (\<lambda>p. extra d p \<and> clock p < cutoff) (db_profiles d)))))) (\<lambda>ids.
              bindS (sqlite_delete_loop e class clock extra cutoff ids 0) (\<lambda>deleted.
              bindS (run_stmt e (select_stmt (\<lambda>d. min_clock clock (filter (extra d) (db_profiles d))))) (\<lambda>oldest.
              retS \<lparr>RowsExamined = int (length ids), RowsDeleted = deleted, OldestSurvivingAt = oldest,
                    Drained = (int (length ids) < maxRows)\<rparr>))))))"

definition sqlite_DeleteProfile :: "env \<Rightarrow> string \<Rightarrow> string option \<Rightarrow> unit dbop" where
  "sqlite_DeleteProfile e i externalRef =
     bindS (liftS (ValidateID i)) (\<lambda>_.
     in_tx e sqlite_translateError
       (bindS (map_errS (\<lambda>err. if err = ErrNoRows then ErrNotFound else sqlite_translateError err)
          (exec e (select_one (\<lambda>d. map_option up_Source (profile_by_id i d))))) (\<lambda>source.
        bindS (run_stmt e (delete_profiles e (\<lambda>p. up_ID p = i))) (\<lambda>gone.
        if gone = [] then failS ErrNotFound
        else
          bindS (get_uuid e) (\<lambda>deletionID.
          bindS (now_text e) (\<lambda>now.
          run_stmt e (insert_deletion e
            \<lparr>dl_ID = deletionID, dl_ProfileID = i, dl_Source = source, dl_Reason = ''subject_request'',
             dl_ExternalRef = externalRef, dl_DeletedAt = now\<rparr>)))))))"

end
