(* ===== verification/Postgres.thy ===== *)
theory Postgres
  imports SqliteDao
begin

section \<open>internal/dao/postgres: the PostgreSQL and CockroachDB repository\<close>

text \<open>
  errors.go, retry.go, like.go, profiles.go, credentials.go, methods.go and composite.go over
  \<open>SqlEngine\<close>. Every write runs in a transaction under the retry loop; a row is read back with
  \<open>RETURNING\<close> inside the statement that wrote it; ids and timestamps are column defaults, and \<open>now()\<close> is the
  start of the transaction. Every error of a call that a cancelled context stops is an environment fault. A
  string bound to a UUID column goes through \<open>rp_uuid\<close>, the driver's reading of it, where the code has not
  validated it before.
\<close>

subsection \<open>errors.go\<close>

definition constraintUsernameUnique :: string where "constraintUsernameUnique = ''uq_user_credential_username''"
definition constraintMethodFK :: string where "constraintMethodFK = ''fk_user_credential_method''"
definition constraintSecretState :: string where "constraintSecretState = ''ck_user_credential_secret_state''"
definition sqlstateUniqueViolation :: string where "sqlstateUniqueViolation = ''23505''"
definition sqlstateForeignKeyViolation :: string where "sqlstateForeignKeyViolation = ''23503''"
definition sqlstateCheckViolation :: string where "sqlstateCheckViolation = ''23514''"

lemmas pg_code_defs = constraintUsernameUnique_def constraintMethodFK_def constraintSecretState_def
  sqlstateUniqueViolation_def sqlstateForeignKeyViolation_def sqlstateCheckViolation_def

definition pg_translateError :: "goerr \<Rightarrow> goerr" where
  "pg_translateError err =
     (if errors_is err ErrNoRows then ErrNotFound
      else case errors_as_pg err of
        Some (code, con) \<Rightarrow>
          if code = sqlstateUniqueViolation
          then (if con = constraintUsernameUnique then ErrDuplicateUsername else ErrAlreadyExists)
          else if code = sqlstateForeignKeyViolation
          then (if con = constraintMethodFK then ErrInvalidMethod else ErrInvalidArgument)
          else if code = sqlstateCheckViolation
          then (if con = constraintSecretState then ErrInvalidCredential else ErrInvalidArgument)
          else Wrap (''postgres: driver error (sqlstate '' @ code @ ''): '') ErrUnclassified
      | None \<Rightarrow> Wrap ''postgres: '' ErrUnclassified)"

text \<open>The server's error for each constraint. (The name of a primary key depends on the table; only that it is not the
username index matters here.)\<close>

fun pg_violation :: "violation \<Rightarrow> goerr" where
  "pg_violation PrimaryKey = PgError ''23505'' ''pk'' ''duplicate key value violates unique constraint''"
| "pg_violation UsernameUnique =
     PgError ''23505'' ''uq_user_credential_username'' ''duplicate key value violates unique constraint''"
| "pg_violation ProfileFK =
     PgError ''23503'' ''fk_user_credential_profile'' ''insert or update violates foreign key constraint''"
| "pg_violation MethodFK =
     PgError ''23503'' ''fk_user_credential_method'' ''insert or update violates foreign key constraint''"
| "pg_violation (CheckFailed c) = PgError ''23514'' c ''new row violates check constraint''"

definition pg_stamp :: "time \<Rightarrow> time" where
  "pg_stamp t = t div 1000 * 1000"

definition pg_env :: "(nat \<Rightarrow> time) \<Rightarrow> (nat \<Rightarrow> string) \<Rightarrow> (nat \<Rightarrow> goerr option) \<Rightarrow> (string \<Rightarrow> string) \<Rightarrow>
    (string \<Rightarrow> string) \<Rightarrow> (string \<Rightarrow> string) \<Rightarrow> env" where
  "pg_env now uuid fault toUpper lower upper =
     \<lparr>en_now = now, en_uuid = uuid, en_fault = fault, en_toUpper = toUpper, en_lower = lower, en_upper = upper,
      en_stamp = pg_stamp, en_phone = e164_postgres, en_fk = True, en_violation = pg_violation\<rparr>"

subsection \<open>retry.go\<close>

datatype engine = enginePostgres | engineCockroach

definition maxRetries :: nat where "maxRetries = 5"
definition sqlstateSerializationFailure :: string where "sqlstateSerializationFailure = ''40001''"
definition backoffBase :: duration where "backoffBase = 5 * millisecond"
definition backoffJitter :: duration where "backoffJitter = 15 * millisecond"

definition isRetryable :: "goerr \<Rightarrow> bool" where
  "isRetryable err = (case errors_as_pg err of Some (code, _) \<Rightarrow> code = sqlstateSerializationFailure | None \<Rightarrow> False)"

text \<open>The loop at its \<open>i\<close>-th attempt, with \<open>n\<close> further ones allowed.\<close>

primrec retry_from ::
  "engine \<Rightarrow> (nat \<Rightarrow> ('s, goerr, unit) op) \<Rightarrow> ('s, goerr, 'a) op \<Rightarrow> nat \<Rightarrow> nat \<Rightarrow> ('s, goerr, 'a) op" where
  "retry_from g sleep attempt i 0 = attempt"
| "retry_from g sleep attempt i (Suc n) =
     (\<lambda>s. case attempt s of
        (Inr x, s1) \<Rightarrow> (Inr x, s1)
      | (Inl lastErr, s1) \<Rightarrow>
          if g \<noteq> engineCockroach \<or> \<not> isRetryable lastErr then (Inl lastErr, s1)
          else (case sleep i s1 of
             (Inl _, s2) \<Rightarrow> (Inl lastErr, s2)
           | (Inr _, s2) \<Rightarrow> retry_from g sleep attempt (Suc i) n s2))"

definition retryLoop :: "engine \<Rightarrow> (nat \<Rightarrow> ('s, goerr, unit) op) \<Rightarrow> ('s, goerr, 'a) op \<Rightarrow> ('s, goerr, 'a) op" where
  "retryLoop g sleep attempt =
     retry_from g sleep attempt 0 ((if g = engineCockroach then maxRetries else 1) - 1)"

text \<open>\<open>backoffSleep\<close> waits or is cancelled; \<open>backoff_delay r\<close> is the wait for the random number \<open>r\<close>.\<close>

definition backoff_delay :: "int \<Rightarrow> duration" where
  "backoff_delay r = backoffBase + r mod backoffJitter"

definition backoffSleep :: "env \<Rightarrow> nat \<Rightarrow> unit dbop" where
  "backoffSleep e i = exec e (select_stmt (\<lambda>_. ()))"

definition runOnce :: "env \<Rightarrow> 'a dbop \<Rightarrow> 'a dbop" where
  "runOnce e fn = in_tx e (\<lambda>err. err) fn"

record pg_repo =
  rp_env :: env
  rp_engine :: engine
  rp_uuid :: "string \<Rightarrow> goerr + string"

definition withRetry :: "pg_repo \<Rightarrow> 'a dbop \<Rightarrow> 'a dbop" where
  "withRetry r fn = retryLoop (rp_engine r) (backoffSleep (rp_env r)) (runOnce (rp_env r) fn)"

subsection \<open>Statements\<close>

definition returning :: "'a stmt \<Rightarrow> (db \<Rightarrow> 'b option) \<Rightarrow> 'b stmt" where
  "returning f g d = (case f d of
     Inl err \<Rightarrow> Inl err
   | Inr (_, d') \<Rightarrow> (case g d' of None \<Rightarrow> Inl ErrNoRows | Some y \<Rightarrow> Inr (y, d')))"

definition pg_scan :: "env \<Rightarrow> 'a stmt \<Rightarrow> 'a dbop" where
  "pg_scan e f = map_errS (\<lambda>err. if errors_is err ErrNoRows then ErrNotFound else pg_translateError err) (exec e f)"

definition pg_run :: "env \<Rightarrow> 'a stmt \<Rightarrow> 'a dbop" where
  "pg_run e f = map_errS pg_translateError (exec e f)"

definition uuid_arg :: "pg_repo \<Rightarrow> string \<Rightarrow> string dbop" where
  "uuid_arg r x = map_errS pg_translateError (liftS (rp_uuid r x))"

definition get_uuids :: "env \<Rightarrow> nat \<Rightarrow> (store, goerr, string list) op" where
  "get_uuids e n s = (Inr (map (\<lambda>k. en_uuid e (st_tick s + k)) [0..<n]), s\<lparr>st_tick := st_tick s + n\<rparr>)"

fun insert_deletions :: "env \<Rightarrow> deletion_row list \<Rightarrow> unit stmt" where
  "insert_deletions e [] d = Inr ((), d)"
| "insert_deletions e (x # xs) d =
     (case insert_deletion e x d of Inl err \<Rightarrow> Inl err | Inr (_, d') \<Rightarrow> insert_deletions e xs d')"

subsection \<open>like.go, profiles.go\<close>

definition pg_escapeLike :: "string \<Rightarrow> string" where
  "pg_escapeLike s = concat (map (\<lambda>c.
     if c = CHR 0x5C then [CHR 0x5C, CHR 0x5C]
     else if c = CHR ''%'' then [CHR 0x5C, CHR ''%'']
     else if c = CHR ''_'' then [CHR 0x5C, CHR ''_''] else [c]) s)"

definition pg_like :: "env \<Rightarrow> string \<Rightarrow> string \<Rightarrow> bool" where
  "pg_like e text pattern = like_match (en_lower e pattern) (en_lower e text)"

definition pg_Get :: "pg_repo \<Rightarrow> string \<Rightarrow> user_profile dbop" where
  "pg_Get r i = bindS (liftS (ValidateID i)) (\<lambda>_. pg_scan (rp_env r) (select_one (profile_by_id i)))"

definition pg_query_matches :: "env \<Rightarrow> profile_query \<Rightarrow> user_profile \<Rightarrow> bool" where
  "pg_query_matches e q p \<longleftrightarrow>
     opt_ok (\<lambda>n. pg_like e (up_Name p) (''%'' @ pg_escapeLike n @ ''%'')) (pq_Name q) \<and>
     opt_ok (\<lambda>v. up_Phone p = Some v) (pq_Phone q) \<and>
     opt_ok (\<lambda>v. case up_Region p of None \<Rightarrow> False | Some x \<Rightarrow> en_lower e x = en_lower e v) (pq_Region q) \<and>
     opt_ok (\<lambda>v. up_Country p = Some (en_toUpper e v)) (pq_Country q)"

definition pg_page :: "env \<Rightarrow> profile_query \<Rightarrow> db \<Rightarrow> user_profile list" where
  "pg_page e q d = take (nat (EffectiveLimit q)) (drop (nat (pq_Offset q))
     (sort_key (\<lambda>p. (en_lower e (up_Name p), up_ID p)) (filter (pg_query_matches e q) (db_profiles d))))"

definition pg_Search :: "pg_repo \<Rightarrow> profile_query \<Rightarrow> (user_profile list \<times> int) dbop" where
  "pg_Search r q =
     bindS (liftS (ValidateProfileQuery q)) (\<lambda>_.
     bindS (pg_run (rp_env r) (select_stmt (\<lambda>d. int (length (filter (pg_query_matches (rp_env r) q) (db_profiles d)))))) (\<lambda>n.
     bindS (pg_run (rp_env r) (select_stmt (pg_page (rp_env r) q))) (\<lambda>rows.
     bindS (map_errS pg_translateError (rows_err (rp_env r))) (\<lambda>_.
     retS (rows, n)))))"

definition pg_Create :: "pg_repo \<Rightarrow> user_profile \<Rightarrow> user_profile dbop" where
  "pg_Create r p0 =
     bindS (liftS (ValidateCreateID (up_ID p0))) (\<lambda>_.
     bindS (liftS (ValidateProfilePointers p0)) (\<lambda>_.
     let e = rp_env r; p = NormalizeProfileForWrite (en_toUpper e) p0 in
     withRetry r (
       bindS (get_uuid e) (\<lambda>i.
       bindS (now_text e) (\<lambda>now.
       pg_scan e (returning (insert_profile e (profile_row i now p)) (profile_by_id i)))))))"

definition pg_Update :: "pg_repo \<Rightarrow> user_profile \<Rightarrow> user_profile dbop" where
  "pg_Update r p0 =
     bindS (liftS (ValidateID (up_ID p0))) (\<lambda>_.
     bindS (liftS (ValidateProfilePointers p0)) (\<lambda>_.
     let e = rp_env r; p = NormalizeProfileForWrite (en_toUpper e) p0 in
     withRetry r (
       bindS (now_text e) (\<lambda>now.
       pg_scan e (returning (update_profile e (up_ID p) (set_profile p now)) (profile_by_id (up_ID p)))))))"

definition pg_Upsert :: "pg_repo \<Rightarrow> user_profile \<Rightarrow> user_profile dbop" where
  "pg_Upsert r p0 =
     bindS (liftS (ValidateID (up_ID p0))) (\<lambda>_.
     bindS (liftS (ValidateProfilePointers p0)) (\<lambda>_.
     let e = rp_env r; p = NormalizeProfileForWrite (en_toUpper e) p0 in
     withRetry r (
       bindS (now_text e) (\<lambda>now.
       pg_scan e (returning (upsert_profile e (profile_row (up_ID p) now p) (set_profile p now))
         (profile_by_id (up_ID p)))))))"

definition pg_Delete :: "pg_repo \<Rightarrow> string \<Rightarrow> unit dbop" where
  "pg_Delete r i =
     bindS (liftS (ValidateID i)) (\<lambda>_.
     withRetry r (
       bindS (pg_run (rp_env r) (delete_profiles (rp_env r) (\<lambda>p. up_ID p = i))) (\<lambda>gone.
       if gone = [] then failS ErrNotFound else retS ())))"

subsection \<open>credentials.go, methods.go\<close>

definition pg_GetByUsername :: "pg_repo \<Rightarrow> string \<Rightarrow> user_credential dbop" where
  "pg_GetByUsername r username =
     pg_scan (rp_env r) (select_one (\<lambda>d. find (same_username (rp_env r) username) (db_credentials d)))"

definition pg_ListByUserID :: "pg_repo \<Rightarrow> string \<Rightarrow> user_credential list dbop" where
  "pg_ListByUserID r userID =
     bindS (liftS (ValidateID userID)) (\<lambda>_.
     bindS (pg_run (rp_env r) (select_stmt (\<lambda>d. filter (\<lambda>c. uc_UserID c = userID) (db_credentials d)))) (\<lambda>rows.
     bindS (rows_err (rp_env r)) (\<lambda>_. retS rows)))"

definition pg_validateMethod :: "pg_repo \<Rightarrow> string \<Rightarrow> string \<Rightarrow> unit dbop" where
  "pg_validateMethod r methodID secretState =
     bindS (uuid_arg r methodID) (\<lambda>mid.
     bindS (map_errS (\<lambda>err. if errors_is err ErrNoRows then ErrInvalidMethod else pg_translateError err)
       (exec (rp_env r) (select_one (\<lambda>d. find (\<lambda>m. am_ID m = mid) (db_methods d))))) (\<lambda>m.
     if \<not> am_IsActive m then failS ErrInvalidMethod
     else if \<not> am_RequiresSecret m \<and> secretState = ''set'' then failS ErrInvalidCredential
     else retS ()))"

definition pg_insert_credential :: "pg_repo \<Rightarrow> string \<Rightarrow> time \<Rightarrow> user_credential \<Rightarrow> user_credential dbop" where
  "pg_insert_credential r userID now c =
     bindS (get_uuid (rp_env r)) (\<lambda>i.
     bindS (uuid_arg r (uc_MethodID c)) (\<lambda>mid.
     pg_scan (rp_env r) (returning (insert_credential (rp_env r)
       (credential_row i userID now (c\<lparr>uc_MethodID := mid\<rparr>))) (credential_by_id i))))"

definition pg_CreateCredential :: "pg_repo \<Rightarrow> user_credential \<Rightarrow> user_credential dbop" where
  "pg_CreateCredential r c =
     bindS (liftS (ValidateCreateID (uc_ID c))) (\<lambda>_.
     bindS (liftS (ValidateCredentialPointers c)) (\<lambda>_.
     withRetry r (
       bindS (pg_validateMethod r (uc_MethodID c) (uc_SecretState c)) (\<lambda>_.
       bindS (now_text (rp_env r)) (\<lambda>now.
       bindS (uuid_arg r (uc_UserID c)) (\<lambda>uid.
       pg_insert_credential r uid now c))))))"

definition pg_UpdateCredential :: "pg_repo \<Rightarrow> user_credential \<Rightarrow> user_credential dbop" where
  "pg_UpdateCredential r c =
     bindS (liftS (ValidateID (uc_ID c))) (\<lambda>_.
     bindS (liftS (ValidateCredentialPointers c)) (\<lambda>_.
     let e = rp_env r in
     withRetry r (
       bindS (pg_validateMethod r (uc_MethodID c) (uc_SecretState c)) (\<lambda>_.
       bindS (now_text e) (\<lambda>now.
       bindS (uuid_arg r (uc_MethodID c)) (\<lambda>mid.
       pg_scan e (returning (update_credential e (uc_ID c) (set_credential (c\<lparr>uc_MethodID := mid\<rparr>) now))
         (credential_by_id (uc_ID c)))))))))"

definition pg_DeleteCredential :: "pg_repo \<Rightarrow> string \<Rightarrow> unit dbop" where
  "pg_DeleteCredential r i =
     bindS (liftS (ValidateID i)) (\<lambda>_.
     withRetry r (
       bindS (pg_run (rp_env r) (delete_credentials i)) (\<lambda>gone.
       if gone = [] then failS ErrNotFound else retS ())))"

definition pg_GetMethod :: "pg_repo \<Rightarrow> string \<Rightarrow> auth_method dbop" where
  "pg_GetMethod r i = bindS (liftS (ValidateID i)) (\<lambda>_.
     pg_scan (rp_env r) (select_one (\<lambda>d. find (\<lambda>m. am_ID m = i) (db_methods d))))"

definition pg_GetMethodByName :: "pg_repo \<Rightarrow> string \<Rightarrow> auth_method dbop" where
  "pg_GetMethodByName r name =
     pg_scan (rp_env r) (select_one (\<lambda>d. find (\<lambda>m. am_Name m = name) (db_methods d)))"

definition pg_ListMethods :: "pg_repo \<Rightarrow> bool \<Rightarrow> auth_method list dbop" where
  "pg_ListMethods r activeOnly =
     bindS (pg_run (rp_env r) (select_stmt (\<lambda>d. filter (\<lambda>m. activeOnly \<longrightarrow> am_IsActive m) (db_methods d)))) (\<lambda>rows.
     bindS (rows_err (rp_env r)) (\<lambda>_. retS rows))"

subsection \<open>composite.go\<close>

definition pg_CreateProfileWithCredential ::
  "pg_repo \<Rightarrow> user_profile \<Rightarrow> user_credential \<Rightarrow> (user_profile \<times> user_credential) dbop" where
  "pg_CreateProfileWithCredential r p0 c0 =
     bindS (liftS (ValidateCreateID (up_ID p0))) (\<lambda>_.
     bindS (liftS (ValidateProfilePointers p0)) (\<lambda>_.
     let e = rp_env r; p = NormalizeProfileForWrite (en_toUpper e) p0 in
     bindS (liftS (ValidateCreateID (uc_ID c0))) (\<lambda>_.
     let c = PrepareCreateProfileWithCredential c0 in
     bindS (liftS (ValidateCredentialPointers c)) (\<lambda>_.
     withRetry r (
       bindS (get_uuid e) (\<lambda>i.
       bindS (now_text e) (\<lambda>now.
       bindS (pg_scan e (returning (insert_profile e (profile_row i now p)) (profile_by_id i))) (\<lambda>gotProfile.
       bindS (pg_validateMethod r (uc_MethodID c) (uc_SecretState c)) (\<lambda>_.
       bindS (pg_insert_credential r (up_ID gotProfile) now c) (\<lambda>gotCredential.
       retS (gotProfile, gotCredential)))))))))))"

text \<open>The statement with the three common table expressions: candidates, removed, logged.\<close>

definition sweep_stmt :: "env \<Rightarrow> retention_class \<Rightarrow> (user_profile \<Rightarrow> time) \<Rightarrow> (db \<Rightarrow> user_profile \<Rightarrow> bool) \<Rightarrow>
    time \<Rightarrow> int \<Rightarrow> string list \<Rightarrow> time \<Rightarrow> (int \<times> int) stmt" where
  "sweep_stmt e class clock extra cutoff maxRows uuids now d =
     (let candidates = map up_ID (take (nat maxRows) (filter (\<lambda>p. extra d p \<and> clock p < cutoff) (db_profiles d))) in
      case delete_profiles e (\<lambda>p. up_ID p \<in> set candidates \<and> extra d p \<and> clock p < cutoff) d of
        Inl err \<Rightarrow> Inl err
      | Inr (removed, d1) \<Rightarrow>
          (case insert_deletions e (map2 (\<lambda>u p. \<lparr>dl_ID = u, dl_ProfileID = up_ID p, dl_Source = class_string class,
              dl_Reason = ''retention_sweep'', dl_ExternalRef = None, dl_DeletedAt = now\<rparr>) uuids removed) d1 of
             Inl err \<Rightarrow> Inl err
           | Inr (_, d2) \<Rightarrow> Inr ((int (length candidates), int (length removed)), d2)))"

definition pg_DeleteExpired :: "pg_repo \<Rightarrow> retention_class \<Rightarrow> time \<Rightarrow> int \<Rightarrow> sweep_result dbop" where
  "pg_DeleteExpired r class olderThan maxRows =
     (if maxRows < 1 \<or> 10000 < maxRows then failS ErrInvalidArgument
      else case clockColumnFor class of
        None \<Rightarrow> failS ErrInvalidArgument
      | Some (clock, extra) \<Rightarrow>
          (let e = rp_env r in
           withRetry r (
             bindS (now_text e) (\<lambda>now.
             bindS (get_uuids e (nat maxRows)) (\<lambda>uuids.
             bindS (pg_run e (sweep_stmt e class clock extra (en_stamp e olderThan) maxRows uuids now)) (\<lambda>(examined, deleted).
             bindS (pg_run e (select_stmt (\<lambda>d. min_clock clock (filter (extra d) (db_profiles d))))) (\<lambda>oldest.
             retS \<lparr>RowsExamined = examined, RowsDeleted = deleted, OldestSurvivingAt = oldest,
                   Drained = (examined < maxRows)\<rparr>)))))))"

definition delete_returning_source :: "env \<Rightarrow> string \<Rightarrow> string stmt" where
  "delete_returning_source e i d =
     (case delete_profiles e (\<lambda>p. up_ID p = i) d of
        Inl err \<Rightarrow> Inl err
      | Inr ([], d') \<Rightarrow> Inl ErrNoRows
      | Inr (p # _, d') \<Rightarrow> Inr (up_Source p, d'))"

definition pg_DeleteProfile :: "pg_repo \<Rightarrow> string \<Rightarrow> string option \<Rightarrow> unit dbop" where
  "pg_DeleteProfile r i externalRef =
     bindS (liftS (ValidateID i)) (\<lambda>_.
     let e = rp_env r in
     withRetry r (
       bindS (map_errS (\<lambda>err. if err = ErrNoRows then ErrNotFound else pg_translateError err)
         (exec e (delete_returning_source e i))) (\<lambda>source.
       bindS (get_uuid e) (\<lambda>deletionID.
       bindS (now_text e) (\<lambda>now.
       pg_run e (insert_deletion e
         \<lparr>dl_ID = deletionID, dl_ProfileID = i, dl_Source = source, dl_Reason = ''subject_request'',
          dl_ExternalRef = externalRef, dl_DeletedAt = now\<rparr>))))))"

end
