(* ===== verification/Outbound.thy ===== *)
theory Outbound
  imports Http
begin

section \<open>Outbound HTTP requests\<close>

text \<open>
  What a client of this repository hands to \<open>net/http\<close> and what it gets back. Building a request fails when the
  URL does not parse; sending it answers a reply or a transport error. A JSON request body is the document
  \<open>json.Marshal\<close> makes (which does not fail on structs of strings). The connection pools and client timeouts are not kept:
  a timeout is a transport error.
\<close>

datatype out_body = OutJson json | OutForm "(string \<times> string) list"

record http_request =
  ho_method :: string
  ho_url :: string
  ho_headers :: "(string \<times> string) list"
  ho_basic :: "(string \<times> string) option" \<comment> \<open>\<open>SetBasicAuth\<close>\<close>
  ho_body :: out_body

record 'w http_client =
  hc_parse :: "string \<Rightarrow> goerr + string" \<comment> \<open>\<open>url.Parse\<close>, keeping the scheme\<close>
  hc_new :: "ctx \<Rightarrow> string \<Rightarrow> goerr option" \<comment> \<open>the error of \<open>http.NewRequestWithContext\<close>\<close>
  hc_do :: "ctx \<Rightarrow> http_request \<Rightarrow> ('w, goerr, http_reply) op"

text \<open>\<open>json.NewDecoder(...).Decode\<close> of a reply into a struct.\<close>

definition decode_reply :: "'a field_decoder list \<Rightarrow> 'a \<Rightarrow> http_reply \<Rightarrow> 'a option" where
  "decode_reply fs z resp = (case hp_body resp of Inl err \<Rightarrow> None | Inr b \<Rightarrow> decode_struct False fs z b)"

definition post_json :: "string \<Rightarrow> (string \<times> string) list \<Rightarrow> json \<Rightarrow> http_request" where
  "post_json url headers b =
     \<lparr>ho_method = ''POST'', ho_url = url, ho_headers = (''Content-Type'', ''application/json'') # headers,
      ho_basic = None, ho_body = OutJson b\<rparr>"

end
