(* ===== verification/Vendor.thy ===== *)
theory Vendor
  imports Outbound
begin

section \<open>internal/connector: the vendor clients\<close>

text \<open>
  vendorclient.go's interface as a record of operations, the HTTP client over the outbound requests of \<open>Outbound\<close>,
  and the in-process stub with its three maps. Random bytes are a parameter of the stub.
\<close>

record identity =
  id_Name :: string
  id_Phone :: string
  id_StreetAddress :: string
  id_Locality :: string
  id_Region :: string
  id_PostalCode :: string
  id_Country :: string

definition zero_identity :: identity where
  "zero_identity = \<lparr>id_Name = [], id_Phone = [], id_StreetAddress = [], id_Locality = [], id_Region = [],
     id_PostalCode = [], id_Country = []\<rparr>"

record 'w vendor_client =
  vc_Authenticate :: "ctx \<Rightarrow> string \<Rightarrow> string \<Rightarrow> ('w, goerr, string) op"
  vc_FetchIdentity :: "ctx \<Rightarrow> string \<Rightarrow> string \<Rightarrow> string \<Rightarrow> ('w, goerr, identity) op"

subsection \<open>httpvendorclient.go\<close>

text \<open>The constructor's answer is the base URL the client keeps.\<close>

definition NewHTTPVendorClient :: "'w http_client \<Rightarrow> string \<Rightarrow> goerr + string" where
  "NewHTTPVendorClient hc baseURL =
     (case hc_parse hc baseURL of
        Inl err \<Rightarrow> Inl (Wrap ''connector: parsing vendor base URL: '' err)
      | Inr scheme \<Rightarrow>
          if scheme \<noteq> ''https''
          then Inl (ErrText (''connector: vendor base URL '' @ go_quote baseURL @
            '' must use https, per connector-security.md'' @ [CHR 0x27] @ ''s TLS-only requirement''))
          else Inr baseURL)"

definition vendor_auth_fields :: "string field_decoder list" where
  "vendor_auth_fields = [(''access_token'', dec_str (\<lambda>x _. x))]"

definition identity_fields :: "identity field_decoder list" where
  "identity_fields =
     [(''name'', dec_str (\<lambda>x r. r\<lparr>id_Name := x\<rparr>)), (''phone'', dec_str (\<lambda>x r. r\<lparr>id_Phone := x\<rparr>)),
      (''street_address'', dec_str (\<lambda>x r. r\<lparr>id_StreetAddress := x\<rparr>)), (''locality'', dec_str (\<lambda>x r. r\<lparr>id_Locality := x\<rparr>)),
      (''region'', dec_str (\<lambda>x r. r\<lparr>id_Region := x\<rparr>)), (''postal_code'', dec_str (\<lambda>x r. r\<lparr>id_PostalCode := x\<rparr>)),
      (''country'', dec_str (\<lambda>x r. r\<lparr>id_Country := x\<rparr>))]"

definition http_Authenticate :: "'w http_client \<Rightarrow> string \<Rightarrow> ctx \<Rightarrow> string \<Rightarrow> string \<Rightarrow> ('w, goerr, string) op" where
  "http_Authenticate hc baseURL cx username password =
     (case hc_new hc cx (baseURL @ ''/auth'') of
        Some err \<Rightarrow> failS (Wrap ''connector: building vendor auth request: '' err)
      | None \<Rightarrow>
          catchS (hc_do hc cx (post_json (baseURL @ ''/auth'') []
              (JObj [(''username'', JStr username), (''password'', JStr password)])))
            (\<lambda>err. failS ErrVendorAuthFailed)
            (\<lambda>resp. if hp_status resp \<noteq> 200 then failS ErrVendorAuthFailed
               else (case decode_reply vendor_auth_fields [] resp of
                 None \<Rightarrow> failS ErrVendorAuthFailed
               | Some tok \<Rightarrow> if tok = [] then failS ErrVendorAuthFailed else retS tok)))"

definition http_FetchIdentity ::
  "'w http_client \<Rightarrow> string \<Rightarrow> ctx \<Rightarrow> string \<Rightarrow> string \<Rightarrow> string \<Rightarrow> ('w, goerr, identity) op" where
  "http_FetchIdentity hc baseURL cx accessToken phone name =
     (case hc_new hc cx (baseURL @ ''/identity'') of
        Some err \<Rightarrow> failS (Wrap ''connector: building vendor identity request: '' err)
      | None \<Rightarrow>
          catchS (hc_do hc cx (post_json (baseURL @ ''/identity'') [(''Authorization'', ''Bearer '' @ accessToken)]
              (JObj [(''phone'', JStr phone), (''name'', JStr name)])))
            (\<lambda>err. failS ErrVendorIdentityNotFound)
            (\<lambda>resp. if hp_status resp \<noteq> 200 then failS ErrVendorIdentityNotFound
               else (case decode_reply identity_fields zero_identity resp of
                 None \<Rightarrow> failS ErrVendorIdentityNotFound
               | Some body \<Rightarrow> retS body)))"

definition HTTPVendorClient :: "'w http_client \<Rightarrow> string \<Rightarrow> 'w vendor_client" where
  "HTTPVendorClient hc baseURL = \<lparr>vc_Authenticate = http_Authenticate hc baseURL, vc_FetchIdentity = http_FetchIdentity hc baseURL\<rparr>"

subsection \<open>stubvendorclient.go\<close>

record stub_vendor =
  sv_credentials :: "string \<rightharpoonup> string"
  sv_identities :: "string \<rightharpoonup> identity"
  sv_tokens :: "string \<rightharpoonup> string"
  sv_draws :: nat

definition NewStubVendorClient :: stub_vendor where
  "NewStubVendorClient = \<lparr>sv_credentials = Map.empty, sv_identities = Map.empty, sv_tokens = Map.empty, sv_draws = 0\<rparr>"

definition Seed :: "string \<Rightarrow> string \<Rightarrow> identity \<Rightarrow> stub_vendor \<Rightarrow> stub_vendor" where
  "Seed username password i s =
     s\<lparr>sv_credentials := (sv_credentials s)(username \<mapsto> password), sv_identities := (sv_identities s)(username \<mapsto> i)\<rparr>"

definition hex_encode :: "string \<Rightarrow> string" where
  "hex_encode s = concat (map (\<lambda>c. [hex_digit (byte c div 16), hex_digit (byte c mod 16)]) s)"

definition randomToken :: "(nat \<Rightarrow> nat \<Rightarrow> goerr + string) \<Rightarrow> (stub_vendor, goerr, string) op" where
  "randomToken rand s =
     (let s1 = s\<lparr>sv_draws := Suc (sv_draws s)\<rparr> in
      case rand (sv_draws s) 16 of Inl err \<Rightarrow> (Inl err, s1) | Inr b \<Rightarrow> (Inr (hex_encode b), s1))"

definition stub_Authenticate ::
  "(nat \<Rightarrow> nat \<Rightarrow> goerr + string) \<Rightarrow> ctx \<Rightarrow> string \<Rightarrow> string \<Rightarrow> (stub_vendor, goerr, string) op" where
  "stub_Authenticate rand cx username password s =
     (case sv_credentials s username of
        None \<Rightarrow> (Inl ErrVendorAuthFailed, s)
      | Some want \<Rightarrow>
          if want \<noteq> password then (Inl ErrVendorAuthFailed, s)
          else bindS (randomToken rand) (\<lambda>token s1. (Inr token, s1\<lparr>sv_tokens := (sv_tokens s1)(token \<mapsto> username)\<rparr>)) s)"

definition stub_FetchIdentity :: "ctx \<Rightarrow> string \<Rightarrow> string \<Rightarrow> string \<Rightarrow> (stub_vendor, goerr, identity) op" where
  "stub_FetchIdentity cx accessToken phone name s =
     (case sv_tokens s accessToken of
        None \<Rightarrow> (Inl ErrVendorIdentityNotFound, s)
      | Some username \<Rightarrow> (case sv_identities s username of
          None \<Rightarrow> (Inl ErrVendorIdentityNotFound, s)
        | Some i \<Rightarrow> (Inr i, s)))"

definition StubVendorClient :: "(nat \<Rightarrow> nat \<Rightarrow> goerr + string) \<Rightarrow> stub_vendor vendor_client" where
  "StubVendorClient rand = \<lparr>vc_Authenticate = stub_Authenticate rand, vc_FetchIdentity = stub_FetchIdentity\<rparr>"

end
