(* ===== verification/Onboarding.thy ===== *)
theory Onboarding
  imports Vendor
begin

section \<open>internal/onboarding: the mediator between api-service and the connector\<close>

text \<open>
  onboarding.go, token.go and client.go. The state is the token source together with the rest of the world; a
  call of a client is an operation on both, so that other goroutines may use the token source while it runs. What
  follows \<open>context.WithTimeout\<close> is a parameter, and so is the race between the backoff timer and the
  context: \<open>ob_wait\<close> answers whether the timer won. Log lines are left out.
\<close>

record token_source =
  ts_clientID :: string
  ts_clientSecret :: string
  ts_cached :: string
  ts_expiry :: time

record 's token_client =
  tk_FetchToken :: "ctx \<Rightarrow> string \<Rightarrow> string \<Rightarrow> ('s, goerr, string \<times> duration) op"

record 's connector_client =
  cc_Auth :: "ctx \<Rightarrow> string \<Rightarrow> string \<Rightarrow> string \<Rightarrow> ('s, goerr, string) op"
  cc_Identity :: "ctx \<Rightarrow> string \<Rightarrow> string \<Rightarrow> string \<Rightarrow> string \<Rightarrow> ('s, goerr, identity) op"

type_synonym 'w ob_state = "token_source \<times> 'w"

record 'w onboarding =
  ob_tokens :: "'w ob_state token_client"
  ob_connector :: "'w ob_state connector_client"
  ob_now :: "'w \<Rightarrow> time"
  ob_WithTimeout :: "ctx \<Rightarrow> duration \<Rightarrow> ctx"
  ob_wait :: "ctx \<Rightarrow> duration \<Rightarrow> 'w ob_state \<Rightarrow> bool \<times> 'w ob_state"

definition tokenCallTimeout :: duration where "tokenCallTimeout = 10 * second"
definition refreshMargin :: duration where "refreshMargin = 30 * second"
definition connectorCallTimeout :: duration where "connectorCallTimeout = 10 * second"
definition connectorMaxRetries :: nat where "connectorMaxRetries = 2"
definition connectorRetryBackoff :: duration where "connectorRetryBackoff = 250 * millisecond"

subsection \<open>token.go\<close>

definition NewTokenSource :: "string \<Rightarrow> string \<Rightarrow> goerr + token_source" where
  "NewTokenSource clientID clientSecret =
     (if clientID = [] \<or> clientSecret = []
      then Inl (ErrText ''onboarding: CONNECTOR_CLIENT_ID and CONNECTOR_CLIENT_SECRET (or their _FILE variants) must both be set'')
      else Inr \<lparr>ts_clientID = clientID, ts_clientSecret = clientSecret, ts_cached = [], ts_expiry = 0\<rparr>)"

definition Token :: "'w onboarding \<Rightarrow> ctx \<Rightarrow> ('w ob_state, goerr, string) op" where
  "Token ob cx s =
     (let ts = fst s in
      if ts_cached ts \<noteq> [] \<and> ob_now ob (snd s) < ts_expiry ts - refreshMargin then (Inr (ts_cached ts), s)
      else (case tk_FetchToken (ob_tokens ob) (ob_WithTimeout ob cx tokenCallTimeout) (ts_clientID ts) (ts_clientSecret ts) s of
         (Inl err, s1) \<Rightarrow> (Inl err, s1)
       | (Inr (tok, expiresIn), s1) \<Rightarrow>
           (Inr tok, ((fst s1)\<lparr>ts_cached := tok, ts_expiry := ob_now ob (snd s1) + expiresIn\<rparr>, snd s1))))"

definition Invalidate :: "'w ob_state \<Rightarrow> 'w ob_state" where
  "Invalidate s = ((fst s)\<lparr>ts_cached := []\<rparr>, snd s)"

definition token_success_fields :: "(string \<times> int) field_decoder list" where
  "token_success_fields = [(''access_token'', dec_str (\<lambda>x (t, n). (x, n))), (''expires_in'', dec_int (\<lambda>x (t, n). (t, x)))]"

definition NewHTTPTokenClient :: "'w http_client \<Rightarrow> string \<Rightarrow> goerr + string" where
  "NewHTTPTokenClient hc tokenURL =
     (if tokenURL = [] then Inl (ErrText ''onboarding: token URL must not be empty'')
      else (case hc_parse hc tokenURL of
        Inl err \<Rightarrow> Inl (Wrap ''onboarding: parsing token URL: '' err)
      | Inr scheme \<Rightarrow> Inr tokenURL))"

definition FetchToken :: "'w http_client \<Rightarrow> string \<Rightarrow> ctx \<Rightarrow> string \<Rightarrow> string \<Rightarrow> ('w, goerr, string \<times> duration) op" where
  "FetchToken hc tokenURL cx clientID clientSecret =
     (case hc_new hc cx tokenURL of
        Some err \<Rightarrow> failS (Wrap ''onboarding: building token request: '' err)
      | None \<Rightarrow>
          catchS (hc_do hc cx \<lparr>ho_method = ''POST'', ho_url = tokenURL,
              ho_headers = [(''Content-Type'', ''application/x-www-form-urlencoded'')],
              ho_basic = Some (clientID, clientSecret), ho_body = OutForm [(''grant_type'', ''client_credentials'')]\<rparr>)
            (\<lambda>err. failS (ErrText ''onboarding: token endpoint unreachable''))
            (\<lambda>resp. if hp_status resp \<noteq> 200
               then failS (ErrText (''onboarding: token endpoint returned status '' @ itoa (hp_status resp)))
               else (case decode_reply token_success_fields ([], 0) resp of
                 None \<Rightarrow> failS (ErrText ''onboarding: malformed token response'')
               | Some (tok, expiresIn) \<Rightarrow>
                   if tok = [] \<or> expiresIn \<le> 0 then failS (ErrText ''onboarding: malformed token response'')
                   else retS (tok, wrap64 (expiresIn * second)))))"

subsection \<open>client.go\<close>

definition NewHTTPConnectorClient :: "'w http_client \<Rightarrow> string \<Rightarrow> goerr + string" where
  "NewHTTPConnectorClient hc baseURL =
     (if baseURL = [] then Inl (ErrText ''onboarding: idp-connector base URL must not be empty'')
      else (case hc_parse hc baseURL of
        Inl err \<Rightarrow> Inl (Wrap ''onboarding: parsing idp-connector base URL: '' err)
      | Inr scheme \<Rightarrow> Inr baseURL))"

text \<open>The statuses both calls tell apart.\<close>

definition connector_reply :: "string \<Rightarrow> http_reply \<Rightarrow> ('w, goerr, 'a) op \<Rightarrow> ('w, goerr, 'a) op" where
  "connector_reply path resp m =
     (if hp_status resp = 401 then failS ErrVendorCredentialRejected
      else if hp_status resp \<noteq> 200
        then failS (ErrText (''onboarding: idp-connector '' @ path @ '' returned status '' @ itoa (hp_status resp)))
      else m)"

definition hcc_Auth :: "'w http_client \<Rightarrow> string \<Rightarrow> ctx \<Rightarrow> string \<Rightarrow> string \<Rightarrow> string \<Rightarrow> ('w, goerr, string) op" where
  "hcc_Auth hc baseURL cx ourToken vendorUsername vendorPassword =
     (case hc_new hc cx (baseURL @ ''/auth'') of
        Some err \<Rightarrow> failS (Wrap ''onboarding: building connector auth request: '' err)
      | None \<Rightarrow>
          catchS (hc_do hc cx (post_json (baseURL @ ''/auth'') [(''Authorization'', ''Bearer '' @ ourToken)]
              (JObj [(''username'', JStr vendorUsername), (''password'', JStr vendorPassword)])))
            (\<lambda>err. failS (Wrap ''onboarding: idp-connector /auth unreachable: '' err))
            (\<lambda>resp. connector_reply ''/auth'' resp
               (case decode_reply vendor_auth_fields [] resp of
                  None \<Rightarrow> failS (ErrText ''onboarding: malformed connector /auth response'')
                | Some tok \<Rightarrow> if tok = [] then failS (ErrText ''onboarding: malformed connector /auth response'') else retS tok)))"

definition hcc_Identity ::
  "'w http_client \<Rightarrow> string \<Rightarrow> ctx \<Rightarrow> string \<Rightarrow> string \<Rightarrow> string \<Rightarrow> string \<Rightarrow> ('w, goerr, identity) op" where
  "hcc_Identity hc baseURL cx ourToken vendorAccessToken phone name =
     (case hc_new hc cx (baseURL @ ''/identity'') of
        Some err \<Rightarrow> failS (Wrap ''onboarding: building connector identity request: '' err)
      | None \<Rightarrow>
          catchS (hc_do hc cx (post_json (baseURL @ ''/identity'')
              [(''Authorization'', ''Bearer '' @ ourToken), (''X-Vendor-Access-Token'', vendorAccessToken)]
              (JObj [(''phone'', JStr phone), (''name'', JStr name)])))
            (\<lambda>err. failS (Wrap ''onboarding: idp-connector /identity unreachable: '' err))
            (\<lambda>resp. connector_reply ''/identity'' resp
               (case decode_reply identity_fields zero_identity resp of
                  None \<Rightarrow> failS (ErrText ''onboarding: malformed connector /identity response'')
                | Some body \<Rightarrow> retS body)))"

definition HTTPConnectorClient :: "'w http_client \<Rightarrow> string \<Rightarrow> 'w connector_client" where
  "HTTPConnectorClient hc baseURL = \<lparr>cc_Auth = hcc_Auth hc baseURL, cc_Identity = hcc_Identity hc baseURL\<rparr>"

subsection \<open>onboarding.go\<close>

text \<open>The loop of \<open>callAuth\<close> and \<open>callIdentity\<close> with \<open>n\<close> attempts left; the first one does not wait.\<close>

fun call_loop :: "'w onboarding \<Rightarrow> ctx \<Rightarrow> ('w ob_state, goerr, 'a) op \<Rightarrow> nat \<Rightarrow> bool \<Rightarrow> ('w ob_state, goerr, 'a) op" where
  "call_loop ob cx call 0 first s = (Inl ErrIdentityVerificationUnavailable, s)"
| "call_loop ob cx call (Suc n) first s =
     (case (if first then (True, s) else ob_wait ob cx connectorRetryBackoff s) of
        (False, s1) \<Rightarrow> (Inl ErrIdentityVerificationUnavailable, s1)
      | (True, s1) \<Rightarrow>
          (case call s1 of
             (Inr x, s2) \<Rightarrow> (Inr x, s2)
           | (Inl err, s2) \<Rightarrow>
               if errors_is err ErrVendorCredentialRejected then (Inl err, s2) else call_loop ob cx call n False s2))"

definition callAuth :: "'w onboarding \<Rightarrow> ctx \<Rightarrow> string \<Rightarrow> string \<Rightarrow> string \<Rightarrow> ('w ob_state, goerr, string) op" where
  "callAuth ob cx ourToken vendorUsername vendorPassword =
     (let callCtx = ob_WithTimeout ob cx connectorCallTimeout in
      call_loop ob callCtx (cc_Auth (ob_connector ob) callCtx ourToken vendorUsername vendorPassword)
        (connectorMaxRetries + 1) True)"

definition callIdentity :: "'w onboarding \<Rightarrow> ctx \<Rightarrow> string \<Rightarrow> string \<Rightarrow> string \<Rightarrow> string \<Rightarrow> ('w ob_state, goerr, identity) op" where
  "callIdentity ob cx ourToken vendorAccessToken phone name =
     (let callCtx = ob_WithTimeout ob cx connectorCallTimeout in
      call_loop ob callCtx (cc_Identity (ob_connector ob) callCtx ourToken vendorAccessToken phone name)
        (connectorMaxRetries + 1) True)"

definition attemptVerifyIdentity ::
  "'w onboarding \<Rightarrow> ctx \<Rightarrow> string \<Rightarrow> string \<Rightarrow> string \<Rightarrow> string \<Rightarrow> ('w ob_state, goerr, identity) op" where
  "attemptVerifyIdentity ob cx vendorUsername vendorPassword phone name =
     bindS (map_errS (\<lambda>_. ErrIdentityVerificationUnavailable) (Token ob cx)) (\<lambda>ourToken.
     bindS (callAuth ob cx ourToken vendorUsername vendorPassword) (\<lambda>vendorAccessToken.
     callIdentity ob cx ourToken vendorAccessToken phone name))"

definition VerifyIdentity ::
  "'w onboarding \<Rightarrow> ctx \<Rightarrow> string \<Rightarrow> string \<Rightarrow> string \<Rightarrow> string \<Rightarrow> ('w ob_state, goerr, identity) op" where
  "VerifyIdentity ob cx vendorUsername vendorPassword phone name s =
     (case attemptVerifyIdentity ob cx vendorUsername vendorPassword phone name s of
        (Inr i, s1) \<Rightarrow> (Inr i, s1)
      | (Inl err, s1) \<Rightarrow>
          if errors_is err ErrVendorCredentialRejected
          then attemptVerifyIdentity ob cx vendorUsername vendorPassword phone name (Invalidate s1)
          else (Inl err, s1))"

end
