(* ===== verification/Startup.thy ===== *)
theory Startup
  imports Config SweepMetrics SigningKey Postgres Onboarding
begin

section \<open>cmd/api-service/main.go and the DAO factory: from the environment to a running service\<close>

text \<open>
  What the process decides before it serves: the factory of internal/dao with the drivers its backends register, the check
  of the environment, and the branches of \<open>main\<close>. A server is described by the constructor of internal/app it is built with
  and the arguments it gets; \<open>log.Fatalf\<close> is the outcome \<open>Fatal\<close> with its error. Log lines are left out.
  \<open>sql.Open\<close> never dials and is a parameter, as are the ping and \<open>url.Parse\<close>.
\<close>

subsection \<open>internal/dao/factory.go and the two New\<close>

datatype 'd repository = PostgresRepo 'd engine | SqliteRepo 'd

type_synonym 'd sql_open = "string \<Rightarrow> string \<Rightarrow> goerr + 'd"
type_synonym 'd drivers = "string \<rightharpoonup> (string \<Rightarrow> goerr + 'd repository)"

definition postgres_New :: "'d sql_open \<Rightarrow> string \<Rightarrow> engine \<Rightarrow> goerr + 'd repository" where
  "postgres_New sqlOpen dsn e =
     (case sqlOpen ''pgx'' dsn of
        Inl err \<Rightarrow> Inl (Wrap ''postgres: opening connection: '' err)
      | Inr db \<Rightarrow> Inr (PostgresRepo db e))"

definition withForeignKeysOn :: "string \<Rightarrow> string" where
  "withForeignKeysOn dsn = dsn @ (if contains_str dsn ''?'' then ''&'' else ''?'') @ ''_foreign_keys=on''"

definition sqlite_New :: "'d sql_open \<Rightarrow> string \<Rightarrow> goerr + 'd repository" where
  "sqlite_New sqlOpen dsn =
     (case sqlOpen ''sqlite'' (withForeignKeysOn dsn) of
        Inl err \<Rightarrow> Inl (Wrap ''sqlite: opening connection: '' err)
      | Inr db \<Rightarrow> Inr (SqliteRepo db))"

definition Register :: "string \<Rightarrow> (string \<Rightarrow> goerr + 'd repository) \<Rightarrow> 'd drivers \<Rightarrow> 'd drivers" where
  "Register name ctor drivers = drivers(name \<mapsto> ctor)"

text \<open>The two \<open>init\<close> functions that importing the backends runs.\<close>

definition registered :: "'d sql_open \<Rightarrow> 'd drivers" where
  "registered sqlOpen =
     Register ''sqlite'' (sqlite_New sqlOpen)
       (Register ''cockroachdb'' (\<lambda>dsn. postgres_New sqlOpen dsn engineCockroach)
         (Register ''postgres'' (\<lambda>dsn. postgres_New sqlOpen dsn enginePostgres) Map.empty))"

definition dao_New :: "'d drivers \<Rightarrow> string \<Rightarrow> string \<Rightarrow> goerr + 'd repository" where
  "dao_New drivers driver dsn =
     (case drivers driver of
        None \<Rightarrow> Inl (ErrText (''dao: unknown driver '' @ go_quote driver))
      | Some ctor \<Rightarrow> ctor dsn)"

subsection \<open>main.go: checks\<close>

definition sqlDriverNameFor :: "string \<Rightarrow> string" where
  "sqlDriverNameFor daoDriver =
     (if daoDriver = ''postgres'' \<or> daoDriver = ''cockroachdb'' then ''pgx''
      else if daoDriver = ''sqlite'' then ''sqlite''
      else [])"

fun check_env :: "environment \<Rightarrow> url_parse \<Rightarrow> (string \<Rightarrow> string) \<Rightarrow> string list \<Rightarrow> goerr option" where
  "check_env env parse missing [] = None"
| "check_env env parse missing (name # names) =
     (let v = env name in
      if v = [] then Some (ErrText (missing name))
      else (case ValidateEnvVarValue parse name v of
          Some err \<Rightarrow> Some err
        | None \<Rightarrow> check_env env parse missing names))"

declare check_env.simps [simp del]

definition validateAuthConfig :: "environment \<Rightarrow> url_parse \<Rightarrow> string \<Rightarrow> goerr option" where
  "validateAuthConfig env parse mode =
     (case RequiredAuthEnvVars ''api-service'' mode of (required, recognized) \<Rightarrow>
        if \<not> recognized
        then Some (ErrText (''internal error: no RequiredAuthEnvVars entry for api-service mode '' @ go_quote mode))
        else check_env env parse (\<lambda>name. name @ '' must be set in '' @ mode @ '' mode'') required)"

text \<open>The service is its token URL, its token source and the connector's base URL.\<close>

definition newOnboardingService :: "'w http_client \<Rightarrow> config \<Rightarrow> goerr + string \<times> token_source \<times> string" where
  "newOnboardingService hc cfg =
     (if cfg_IssuerTokenURL cfg = [] then Inl (ErrText ''ISSUER_TOKEN_URL must be set'')
      else if cfg_IDPConnectorBaseURL cfg = [] then Inl (ErrText ''IDP_CONNECTOR_BASE_URL must be set'')
      else
        bindE (NewHTTPTokenClient hc (cfg_IssuerTokenURL cfg)) (\<lambda>tokenURL.
        bindE (NewTokenSource (cfg_ConnectorClientID cfg) (cfg_ConnectorClientSecret cfg)) (\<lambda>tokens.
        bindE (NewHTTPConnectorClient hc (cfg_IDPConnectorBaseURL cfg)) (\<lambda>baseURL.
        Inr (tokenURL, tokens, baseURL)))))"

subsection \<open>main.go: the sweep\<close>

definition sweepDBConnectTimeout :: duration where "sweepDBConnectTimeout = 20 * second"

definition classifySweepDBConnectError :: "goerr \<Rightarrow> string" where
  "classifySweepDBConnectError err =
     (if errors_is err DeadlineExceeded then ''connect_timeout''
      else if contains_str (err_msg err) ''connection refused'' then ''connection_refused''
      else if contains_str (err_msg err) ''no such host'' then ''dns_error''
      else ''unknown'')"

definition sweep_interval :: "config \<Rightarrow> duration" where
  "sweep_interval cfg =
     (if cfg_SweepIntervalSeconds cfg = [] then 0
      else (case atoi (cfg_SweepIntervalSeconds cfg) of None \<Rightarrow> 0 | Some secs \<Rightarrow> wrap64 (secs * second)))"

text \<open>
  The libraries of the sweep: opening and pinging a handle, what \<open>DeleteExpired\<close> of a repository does, the run table behind
  a handle, the context of the signals and the clock.
\<close>

record ('d, 'v) sweep_lib =
  sl_sqlOpen :: "'d sql_open"
  sl_ping :: "'d \<Rightarrow> duration \<Rightarrow> goerr option"
  sl_sweeper :: "'d repository \<Rightarrow> 'v expiry_sweeper"
  sl_store :: "'d \<Rightarrow> string \<Rightarrow> sweep_store"
  sl_ctxErr :: "'v \<Rightarrow> goerr option"
  sl_now :: "'v \<Rightarrow> time"

datatype sweep_end =
    SweepFatal goerr
  | SweepUnreachable string
  | SweepDone "class_result list"

definition sweep_status :: "sweep_end \<Rightarrow> int" where
  "sweep_status e =
     (case e of
        SweepFatal err \<Rightarrow> 1
      | SweepUnreachable class \<Rightarrow> 1
      | SweepDone results \<Rightarrow> if list_ex (\<lambda>r. cr_Err r \<noteq> None) results then 1 else 0)"

definition sweep_recorder :: "('d, 'v) sweep_lib \<Rightarrow> config \<Rightarrow> 'v sweep_process run_recorder option" where
  "sweep_recorder lib cfg =
     (let driverName = sqlDriverNameFor (cfg_DBDriver cfg) in
      if driverName \<noteq> [] then
        (case sl_sqlOpen lib driverName (cfg_DBDSN cfg) of
           Inl err \<Rightarrow> None
         | Inr db \<Rightarrow> Some (store_recorder (sl_store lib db driverName)))
      else None)"

definition sweep_ping :: "('d, 'v) sweep_lib \<Rightarrow> config \<Rightarrow> sweep_end option" where
  "sweep_ping lib cfg =
     (let driverName = sqlDriverNameFor (cfg_DBDriver cfg) in
      if driverName \<noteq> [] then
        (case sl_sqlOpen lib driverName (cfg_DBDSN cfg) of
           Inl err \<Rightarrow> Some (SweepFatal (Wrap ''api-service: sweep: opening DB ping handle: '' err))
         | Inr pingDB \<Rightarrow> (case sl_ping lib pingDB sweepDBConnectTimeout of
             None \<Rightarrow> None
           | Some err \<Rightarrow> Some (SweepUnreachable (classifySweepDBConnectError err))))
      else None)"

text \<open>\<open>None\<close> is a sweep that never ends. The emitter starts empty.\<close>

definition runSweepMode :: "('d, 'v) sweep_lib \<Rightarrow> config \<Rightarrow> 'v sweep_process \<Rightarrow> (sweep_end \<times> 'v sweep_process) option" where
  "runSweepMode lib cfg w =
     (case dao_New (registered (sl_sqlOpen lib)) (cfg_DBDriver cfg) (cfg_DBDSN cfg) of
        Inl err \<Rightarrow> Some (SweepFatal (Wrap ''api-service: sweep: opening DAO repository: '' err), w)
      | Inr repo \<Rightarrow>
          (case sweep_ping lib cfg of
             Some e \<Rightarrow> Some (e, w)
           | None \<Rightarrow>
               let env = \<lparr>se_ctx_Err = (\<lambda>w. (sl_ctxErr lib (sp_tables w), w)), se_now = (\<lambda>w. (sl_now lib (sp_tables w), w)),
                     se_repo = (\<lambda>c t n. on_tables (sl_sweeper lib repo c t n)), se_emit = Some prom_metrics,
                     se_recorder = sweep_recorder lib cfg\<rparr> in
               (case Run env (sl_now lib (sp_tables w)) (sweep_interval cfg) (w\<lparr>sp_metrics := NewPrometheusMetricEmitter\<rparr>) of
                  None \<Rightarrow> None
                | Some (results, w') \<Rightarrow> Some (SweepDone results, w'))))"

subsection \<open>main.go: main\<close>

definition metricsAddr :: string where "metricsAddr = '':9101''"

datatype ('d, 'k) server =
    VerifierRouter config "'d repository option" "'d option"
  | IssuerRouter config "'k signing_key" "'d option"
  | PlainRouter string string

datatype ('d, 'k) startup =
    Fatal goerr
  | Sweeping config
  | Listening string "('d, 'k) server" "(string \<times> 'd \<times> string) option" \<comment> \<open>address, router, and the metrics server\<close>

record ('d, 'k) startup_lib =
  su_sqlOpen :: "'d sql_open"
  su_key_io :: "'k key_io"
  su_url :: url_parse

definition open_ping :: "'d sql_open \<Rightarrow> config \<Rightarrow> 'd option" where
  "open_ping sqlOpen cfg =
     (let driverName = sqlDriverNameFor (cfg_DBDriver cfg) in
      if driverName \<noteq> [] then (case sqlOpen driverName (cfg_DBDSN cfg) of Inl err \<Rightarrow> None | Inr db \<Rightarrow> Some db) else None)"

definition main_api :: "('d, 'k) startup_lib \<Rightarrow> environment \<Rightarrow> file_io \<Rightarrow> ('d, 'k) startup" where
  "main_api lib env fi =
     (case Load env fi of
        Inl err \<Rightarrow> Fatal (Wrap ''api-service: loading config: '' err)
      | Inr cfg \<Rightarrow>
          (case validateAuthConfig env (su_url lib) (cfg_AppMode cfg) of
             Some err \<Rightarrow> Fatal (Wrap ''api-service: '' err)
           | None \<Rightarrow>
               if cfg_AppMode cfg = ''sweep'' then Sweeping cfg
               else
                 (let addr = (if cfg_HTTPAddr cfg = [] then '':8080'' else cfg_HTTPAddr cfg) in
                  if cfg_AppMode cfg = ''verifier'' then
                    (let repo = (case dao_New (registered (su_sqlOpen lib)) (cfg_DBDriver cfg) (cfg_DBDSN cfg) of
                           Inl err \<Rightarrow> None | Inr repo \<Rightarrow> Some repo);
                         pingDB = open_ping (su_sqlOpen lib) cfg in
                     Listening addr (VerifierRouter cfg repo pingDB)
                       (map_option (\<lambda>db. (metricsAddr, db, sqlDriverNameFor (cfg_DBDriver cfg))) pingDB))
                  else if cfg_AppMode cfg = ''issuer'' then
                    (case LoadSigningKey (su_key_io lib) (cfg_JWTSigningKeyPath cfg) of
                       Inl err \<Rightarrow> Fatal (Wrap ''api-service: loading JWT signing key: '' err)
                     | Inr key \<Rightarrow>
                         let issuerDB = (if cfg_IssuerDBDSN cfg \<noteq> []
                             then (case su_sqlOpen lib ''pgx'' (cfg_IssuerDBDSN cfg) of Inl err \<Rightarrow> None | Inr db \<Rightarrow> Some db)
                             else None) in
                         Listening addr (IssuerRouter cfg key issuerDB) None)
                  else Listening addr (PlainRouter ''api-service'' (cfg_AppMode cfg)) None)))"

subsection \<open>cmd/idp-connector/main.go\<close>

definition connector_validateAuthConfig :: "environment \<Rightarrow> url_parse \<Rightarrow> goerr option" where
  "connector_validateAuthConfig env parse =
     (case RequiredAuthEnvVars ''idp-connector'' [] of (required, recognized) \<Rightarrow>
        if \<not> recognized then Some (ErrText ''internal error: no RequiredAuthEnvVars entry for idp-connector'')
        else check_env env parse (\<lambda>name. name @ '' must be set'') required)"

datatype vendor_choice = HTTPVendor string | StubVendor stub_vendor

datatype connector_startup = ConnectorFatal goerr | ConnectorListening string config vendor_choice

definition demo_identity :: identity where
  "demo_identity = \<lparr>id_Name = ''Jane Demo'', id_Phone = ''+15555550100'', id_StreetAddress = ''1 Demo Way'',
     id_Locality = ''Demoville'', id_Region = ''CA'', id_PostalCode = ''94000'', id_Country = ''US''\<rparr>"

definition main_connector :: "'w http_client \<Rightarrow> url_parse \<Rightarrow> environment \<Rightarrow> file_io \<Rightarrow> connector_startup" where
  "main_connector hc parse env fi =
     (case Load env fi of
        Inl err \<Rightarrow> ConnectorFatal (Wrap ''idp-connector: loading config: '' err)
      | Inr cfg \<Rightarrow>
          (case connector_validateAuthConfig env parse of
             Some err \<Rightarrow> ConnectorFatal (Wrap ''idp-connector: '' err)
           | None \<Rightarrow>
               let addr = (if cfg_HTTPAddr cfg = [] then '':8081'' else cfg_HTTPAddr cfg) in
               if cfg_IDPABCBaseURL cfg \<noteq> [] then
                 (case NewHTTPVendorClient hc (cfg_IDPABCBaseURL cfg) of
                    Inl err \<Rightarrow> ConnectorFatal (Wrap ''idp-connector: configuring vendor client: '' err)
                  | Inr baseURL \<Rightarrow> ConnectorListening addr cfg (HTTPVendor baseURL))
               else ConnectorListening addr cfg
                 (StubVendor (Seed ''demo-user'' ''demo-password'' demo_identity NewStubVendorClient))))"

end
