(* ===== verification/ClientStoreSpec.thy ===== *)
theory ClientStoreSpec
  imports ClientStore
begin

section \<open>What the client store guarantees\<close>

text \<open>
  The PHC string carries its own parameters (round trip, at the widths the code reads them); a hash verifies the
  secret it was made from and needs no rehash; the array parser accepts exactly the plain literals; and the
  interface \<open>client_store\<close> of the token handler with the PostgreSQL store as its provider.
\<close>

subsection \<open>PHC strings\<close>

lemma param_of:
  "CHR ''='' \<notin> set name \<Longrightarrow> n \<le> 4294967295 \<Longrightarrow> parsePHCParam (name @ CHR ''='' # utoa n) name = Inr n"
  by (simp add: parsePHCParam_def cut_sep parse_uint32_utoa)

lemma sep_free [simp]: "CHR ''$'' \<notin> set (utoa n)" "CHR '','' \<notin> set (utoa n)"
  "CHR ''$'' \<notin> set (b64_encode std_alphabet s)"
  by (simp_all add: not_digit_notin_utoa b64_encode_free)

lemma split_phc:
  "split_on CHR ''$'' (''$argon2id$v='' @ utoa v @ ''$m='' @ utoa m @ '',t='' @ utoa t @ '',p='' @ utoa p @ ''$'' @
     b64_encode std_alphabet a @ ''$'' @ b64_encode std_alphabet b) =
   [[], ''argon2id'', ''v='' @ utoa v, ''m='' @ utoa m @ '',t='' @ utoa t @ '',p='' @ utoa p,
    b64_encode std_alphabet a, b64_encode std_alphabet b]"
  using split_on_sep [of "CHR ''$''" "[]"] split_on_sep [of "CHR ''$''" "''argon2id''"]
    split_on_sep [of "CHR ''$''" "''v='' @ utoa v"]
    split_on_sep [of "CHR ''$''" "''m='' @ utoa m @ '',t='' @ utoa t @ '',p='' @ utoa p"]
    split_on_sep [of "CHR ''$''" "b64_encode std_alphabet a"] split_on_free [of "CHR ''$''" "b64_encode std_alphabet b"]
  by simp

lemma split_params:
  "split_on CHR '','' (''m='' @ utoa m @ '',t='' @ utoa t @ '',p='' @ utoa p) = [''m='' @ utoa m, ''t='' @ utoa t, ''p='' @ utoa p]"
  using split_on_sep [of "CHR '',''" "''m='' @ utoa m"] split_on_sep [of "CHR '',''" "''t='' @ utoa t"]
    split_on_free [of "CHR '',''" "''p='' @ utoa p"]
  by simp

lemma parse_encode:
  assumes "0 \<le> m" "m < 2 ^ 32" "0 \<le> t" "t < 2 ^ 32" "0 \<le> p" "p < 2 ^ 32"
  shows "parsePHC (encodePHC m t p salt hash) =
    Inr \<lparr>ph_memory = of_int m, ph_time = of_int t, ph_threads = of_int p, ph_salt = salt, ph_hash = hash\<rparr>"
proof -
  obtain m' t' p' :: nat where n: "m = int m'" "t = int t'" "p = int p'"
    using assms(1,3,5) by (metis nonneg_int_cases)
  have v: "itoa phcVersion = utoa 19" by (simp add: phcVersion_def itoa_def)
  have "parsePHCParam (''v='' @ utoa 19) ''v'' = Inr 19" "parsePHCParam (''m='' @ utoa m') ''m'' = Inr m'"
      "parsePHCParam (''t='' @ utoa t') ''t'' = Inr t'" "parsePHCParam (''p='' @ utoa p') ''p'' = Inr p'"
    using param_of [of "''v''" 19] param_of [of "''m''" m'] param_of [of "''t''" t'] param_of [of "''p''" p'] assms n
    by simp_all
  moreover have "itoa m = utoa m'" "itoa t = utoa t'" "itoa p = utoa p'" by (simp_all add: n itoa_def)
  ultimately show ?thesis
    unfolding parsePHC_def encodePHC_def v
    by (simp only: split_phc split_params list.case) (simp add: b64_field_def b64_decode_encode phcVersion_def n)
qed

text \<open>
  A PHC string carries its own parameters: parsing the string made for a memory cost, a time cost, a number of
  threads, a salt and a hash gives exactly those back, for every cost that fits the width the code reads it with.
\<close>
theorem phc_round_trip:
  assumes "0 \<le> m" "m < 2 ^ 32" "0 \<le> t" "t < 2 ^ 32" "0 \<le> p" "p < 2 ^ 8"
  shows "\<exists>r. parsePHC (encodePHC m t p salt hash) = Inr r \<and> uint (ph_memory r) = m \<and> uint (ph_time r) = t \<and>
    uint (ph_threads r) = p \<and> ph_salt r = salt \<and> ph_hash r = hash"
proof -
  have "uint (of_int m :: 32 word) = m" "uint (of_int t :: 32 word) = t" "uint (of_int p :: 8 word) = p"
    using assms by (simp_all add: unsigned_of_int take_bit_int_eq_self)
  moreover have "p < 2 ^ 32" using assms(6) by simp
  ultimately show ?thesis using parse_encode [of m t p salt hash] assms(1-5) by simp
qed

theorem phc_round_trip_witness:
  "\<exists>r. parsePHC (encodePHC 65536 1 4 ''salt'' ''hash'') = Inr r \<and> uint (ph_threads r) = 4"
  using phc_round_trip [of 65536 1 4 "''salt''" "''hash''"] by auto

text \<open>A number of threads that does not fit a byte is read modulo 256: 257 as 1, and 256 as 0, which the Argon2 library refuses
with a panic.\<close>

lemma phc_threads_truncated:
  "parsePHC (encodePHC 65536 1 257 salt hash) =
     Inr \<lparr>ph_memory = 65536, ph_time = 1, ph_threads = 1, ph_salt = salt, ph_hash = hash\<rparr>"
  "parsePHC (encodePHC 65536 1 256 salt hash) =
     Inr \<lparr>ph_memory = 65536, ph_time = 1, ph_threads = 0, ph_salt = salt, ph_hash = hash\<rparr>"
  by (simp_all add: parse_encode)

subsection \<open>Hash and verify\<close>

text \<open>Argon2id is a function of its arguments, and its output has the length asked for.\<close>

definition argon2_ok ::
  "(string \<Rightarrow> string \<Rightarrow> 32 word \<Rightarrow> 32 word \<Rightarrow> 8 word \<Rightarrow> 32 word \<Rightarrow> string) \<Rightarrow> 's crypto \<Rightarrow> bool" where
  "argon2_ok f cr \<longleftrightarrow> (\<forall>pw salt t m p k s. fst (cr_IDKey cr pw salt t m p k s) = f pw salt t m p k \<and>
     length (f pw salt t m p k) = unat k)"

lemma argon2_okD:
  assumes "argon2_ok f cr"
  shows "cr_IDKey cr pw salt t m p k s = (h, s') \<Longrightarrow> h = f pw salt t m p k" "length (f pw salt t m p k) = unat k"
  using assms unfolding argon2_ok_def by (metis fst_conv)+

lemma hashSecret_Inr:
  assumes "argon2_ok f cr" "hashSecret cr secret s = (Inr h, s1)"
  obtains salt where "h = encodePHC 65536 1 4 salt (f secret salt 1 65536 4 32)"
proof -
  obtain salt s2 where "cr_rand cr argon2SaltLen s = (Inr salt, s2)"
    and k: "(case cr_IDKey cr secret salt 1 65536 4 32 s2 of (hash, s1) \<Rightarrow>
       (Inr (encodePHC 65536 1 4 salt hash), s1)) = (Inr h :: goerr + string, s1)"
    using assms(2) by (auto simp: hashSecret_def bindS_eq_Inr map_errS_eq_Inr argon2_consts)
  obtain hash s3 where "cr_IDKey cr secret salt 1 65536 4 32 s2 = (hash, s3)" by fastforce
  moreover from this have "hash = f secret salt 1 65536 4 32" by (rule argon2_okD(1) [OF assms(1)])
  ultimately show thesis using k that [of salt] by simp
qed

lemma verify_encoded:
  assumes "argon2_ok f cr"
  shows "fst (verifySecret cr pw (encodePHC 65536 1 4 salt (f secret salt 1 65536 4 32)) s) \<longleftrightarrow>
    f pw salt 1 65536 4 32 = f secret salt 1 65536 4 32"
proof -
  have "length (f secret salt 1 65536 4 32) = 32" by (simp add: argon2_okD(2) [OF assms])
  then show ?thesis
    using argon2_okD(1) [OF assms]
    by (auto simp: verifySecret_def parse_encode split: prod.splits)
qed

lemma needsRehash_encoded: "\<not> needsRehash (encodePHC 65536 1 4 salt hash)"
  by (simp add: needsRehash_def parse_encode argon2_consts)

lemma hashSecret_only:
  assumes "argon2_ok f cr" "hashSecret cr secret s = (Inr h, s1)"
  shows "fst (verifySecret cr secret h s2) \<and> \<not> needsRehash h \<and>
    (fst (verifySecret cr other h s3) \<longrightarrow> (\<exists>salt. f other salt 1 65536 4 32 = f secret salt 1 65536 4 32))"
  using hashSecret_Inr [OF assms] verify_encoded [OF assms(1)] needsRehash_encoded by metis

lemma hashSecret_verifies:
  assumes "argon2_ok f cr" "hashSecret cr secret s = (Inr h, s1)"
  shows "fst (verifySecret cr secret h s2)" "\<not> needsRehash h"
  using hashSecret_only [OF assms] by blast+

text \<open>
  C11. A freshly hashed secret verifies, needs no rehash, and verifies no other secret except at the price of an
  Argon2id collision.
\<close>
theorem hash_then_verify:
  assumes "argon2_ok f cr" "hashSecret cr secret s = (Inr h, s1)"
  shows "fst (verifySecret cr secret h s2) \<and> \<not> needsRehash h \<and>
    (fst (verifySecret cr other h s3) \<longrightarrow> (\<exists>salt. f other salt 1 65536 4 32 = f secret salt 1 65536 4 32))"
  by (rule hashSecret_only [OF assms])

definition toy_crypto :: "'s crypto" where
  "toy_crypto = \<lparr>cr_IDKey = (\<lambda>pw salt t m p k s. (take (unat k) (pw @ replicate (unat k) CHR 0x00), s)),
     cr_rand = (\<lambda>n. retS (replicate n CHR 0x01))\<rparr>"

lemma toy_argon2_ok: "argon2_ok (\<lambda>pw salt t m p k. take (unat k) (pw @ replicate (unat k) CHR 0x00)) toy_crypto"
  by (auto simp: argon2_ok_def toy_crypto_def min_def)

theorem hash_then_verify_witness:
  "\<exists>h. hashSecret toy_crypto ''secret'' () = (Inr h, ()) \<and> fst (verifySecret toy_crypto ''secret'' h ())"
proof -
  obtain h where "hashSecret toy_crypto ''secret'' () = (Inr h, ())"
    by (simp add: hashSecret_def toy_crypto_def bindS_def map_errS_def)
  with hash_then_verify [OF toy_argon2_ok this] show ?thesis by blast
qed

subsection \<open>Array literals\<close>

definition plain_element :: "string \<Rightarrow> bool" where
  "plain_element e \<longleftrightarrow> e \<noteq> [] \<and> (\<forall>c \<in> set e. c \<notin> {CHR '','', CHR ''{'', CHR ''}'', CHR 0x22, CHR 0x5C})"

fun join_with :: "char \<Rightarrow> string list \<Rightarrow> string" where
  "join_with d [] = []"
| "join_with d [e] = e"
| "join_with d (e # es) = e @ d # join_with d es"

lemma split_join: "ps \<noteq> [] \<Longrightarrow> \<forall>p \<in> set ps. d \<notin> set p \<Longrightarrow> split_on d (join_with d ps) = ps"
  by (induction d ps rule: join_with.induct) (simp_all add: split_on_free split_on_sep)

lemma join_split: "join_with d (split_on d s) = s"
proof (induction s)
  case (Cons c s)
  then show ?case by (cases "split_on d s"; cases "tl (split_on d s)") auto
qed simp

lemma split_parts: "p \<in> set (split_on d s) \<Longrightarrow> d \<notin> set p"
  by (induction s arbitrary: p) (auto split: list.splits if_splits)

text \<open>
  The array parser accepts exactly the plain array literals: it answers the elements of a literal whose elements
  are non-empty and free of the array syntax, and reports an error on every other text.
\<close>
theorem text_array_exact:
  "parsePostgresTextArray raw = Inr elems \<longleftrightarrow>
     list_all plain_element elems \<and> raw = CHR ''{'' # join_with CHR '','' elems @ ''}''"
proof (cases "length raw < 2 \<or> hd raw \<noteq> CHR ''{'' \<or> List.last raw \<noteq> CHR ''}''")
  case True
  have "raw \<noteq> CHR ''{'' # x @ ''}''" for x using True by (auto simp: last_append)
  then show ?thesis using True by (simp add: parsePostgresTextArray_def)
next
  case False
  define inner where "inner = butlast (tl raw)"
  have raw: "raw = CHR ''{'' # inner @ ''}''"
    using False by (cases raw; cases "tl raw" rule: rev_cases) (auto simp: inner_def)
  have parse: "parsePostgresTextArray raw = (if inner = [] then Inr []
      else case find (\<lambda>e. e = [] \<or> contains_any e [CHR ''{'', CHR ''}'', CHR 0x22, CHR 0x5C]) (split_on CHR '','' inner) of
        Some e \<Rightarrow> Inl (ErrText (''unsupported array element '' @ go_quote e @ '' in '' @ go_quote raw @
          '' '' @ [CHR 0xE2, CHR 0x80, CHR 0x94] @ '' only plain unquoted values are supported''))
      | None \<Rightarrow> Inr (split_on CHR '','' inner))"
    using False by (simp only: parsePostgresTextArray_def inner_def [symmetric] Let_def if_False append_assoc)
  have "find (\<lambda>e. e = [] \<or> contains_any e [CHR ''{'', CHR ''}'', CHR 0x22, CHR 0x5C]) (split_on CHR '','' inner) = None \<longleftrightarrow>
      list_all plain_element (split_on CHR '','' inner)"
    using split_parts [of _ "CHR '',''" inner]
    by (auto simp: find_None_iff list_all_iff plain_element_def contains_any_def list_ex_iff)
  then have A: "parsePostgresTextArray raw = Inr elems \<longleftrightarrow>
      (if inner = [] then elems = [] else elems = split_on CHR '','' inner \<and> list_all plain_element elems)"
    unfolding parse by (auto split: option.splits)
  have D: "raw = CHR ''{'' # join_with CHR '','' elems @ ''}'' \<longleftrightarrow> inner = join_with CHR '','' elems"
    by (simp add: raw)
  show ?thesis
  proof (cases "elems = []")
    case True
    have "elems \<noteq> split_on CHR '','' inner" using True split_on_nonempty [of "CHR '',''" inner] by metis
    then show ?thesis using True unfolding A D by simp
  next
    case ne: False
    show ?thesis
    proof (cases "list_all plain_element elems")
      case True
      have "elems = split_on CHR '','' inner \<longleftrightarrow> inner = join_with CHR '','' elems"
        using split_join [OF ne, of "CHR '',''"] join_split [of "CHR '',''" inner] True
        by (metis list_all_iff plain_element_def insertI1)
      moreover have "join_with CHR '','' elems \<noteq> []"
        using True ne by (cases elems rule: remdups_adj.cases) (auto simp: plain_element_def)
      ultimately show ?thesis using True ne unfolding A D by (cases "inner = []") simp_all
    qed (use ne in \<open>simp add: A\<close>)
  qed
qed

subsection \<open>The store behind the token handler\<close>

text \<open>
  The interface \<open>ClientStore\<close> as a contract on a view \<open>tbl\<close> of the state: \<open>Get\<close> changes nothing and answers the
  table's record; a successful \<open>UpdateSecretHash\<close> changes the one hash; a failed one changes nothing.
\<close>

locale client_store =
  fixes st :: "'s client_store"
    and tbl :: "'s \<Rightarrow> string \<Rightarrow> client_record option"
    and inv :: "'s \<Rightarrow> bool"
  assumes get_state: "inv s \<Longrightarrow> cs_Get st cid s = (r, s') \<Longrightarrow> inv s' \<and> tbl s' = tbl s"
    and get_record: "inv s \<Longrightarrow> cs_Get st cid s = (Inr (Some rec), s') \<Longrightarrow> tbl s cid = Some rec"
    and update_inv: "inv s \<Longrightarrow> cs_UpdateSecretHash st cid h s = (x, s') \<Longrightarrow> inv s'"
    and update_ok: "inv s \<Longrightarrow> cs_UpdateSecretHash st cid h s = (Inr u, s') \<Longrightarrow>
      tbl s' = (tbl s)(cid := map_option (\<lambda>rec. rec\<lparr>cl_SecretHash := h\<rparr>) (tbl s cid))"
    and update_failed: "inv s \<Longrightarrow> cs_UpdateSecretHash st cid h s = (Inl err, s') \<Longrightarrow> tbl s' = tbl s"

definition clients :: "issuer_store \<Rightarrow> string \<Rightarrow> client_record option" where
  "clients s cid = (case client_row cid (is_rows s) of
     None \<Rightarrow> None
   | Some r \<Rightarrow> (case decode_client cid r of Inl _ \<Rightarrow> None | Inr rec \<Rightarrow> Some rec))"

definition unique_clients :: "issuer_store \<Rightarrow> bool" where
  "unique_clients s \<longleftrightarrow> distinct (map oc_client_id (is_rows s))"

lemma set_hash_id [simp]: "oc_client_id (set_hash cid h r) = oc_client_id r"
  by (simp add: set_hash_def)

lemma client_row_set_hash: "client_row c (map (set_hash cid h) rows) = map_option (set_hash cid h) (client_row c rows)"
  by (induction rows) (auto simp: client_row_def)

lemma client_rowD: "client_row cid rows = Some r \<Longrightarrow> r \<in> set rows \<and> oc_client_id r = cid"
  by (auto simp: client_row_def dest: find_SomeD)

lemma decode_set_hash:
  "oc_client_id r = cid \<Longrightarrow> oc_secret_state r = ''set'' \<Longrightarrow>
   decode_client cid (set_hash cid h r) =
     (case decode_client cid r of Inl e \<Rightarrow> Inl e | Inr rec \<Rightarrow> Inr (rec\<lparr>cl_SecretHash := h\<rparr>))"
  by (auto simp: decode_client_def set_hash_def split: sum.splits list.splits)

lemma clients_update:
  assumes "unique_clients s" "r \<in> set (is_rows s)" "oc_client_id r = cid" "oc_secret_state r = ''set''"
    and "is_rows s' = map (set_hash cid h) (is_rows s)"
  shows "clients s' = (clients s)(cid := map_option (\<lambda>rec. rec\<lparr>cl_SecretHash := h\<rparr>) (clients s cid))"
proof (rule ext)
  fix c
  have row: "client_row cid (is_rows s) = Some r"
  proof -
    obtain q where q: "client_row cid (is_rows s) = Some q"
      using assms(2,3) by (cases "client_row cid (is_rows s)") (auto simp: client_row_def find_None_iff)
    then have "q = r" using client_rowD [OF q] assms(1-3) by (auto simp: unique_clients_def distinct_map inj_on_def)
    then show ?thesis using q by simp
  qed
  show "clients s' c = ((clients s)(cid := map_option (\<lambda>rec. rec\<lparr>cl_SecretHash := h\<rparr>) (clients s cid))) c"
  proof (cases "c = cid")
    case True
    then show ?thesis
      using row decode_set_hash [OF assms(3,4), of h]
      by (simp add: clients_def assms(5) client_row_set_hash split: sum.splits)
  next
    case False
    have "set_hash cid h q = q" if "client_row c (is_rows s) = Some q" for q
      using client_rowD [OF that] False by (simp add: set_hash_def)
    then show ?thesis using False by (auto simp: clients_def assms(5) client_row_set_hash split: option.splits)
  qed
qed

lemma issuer_exec_Inr: "issuer_exec fault f s = (Inr x, s') \<Longrightarrow> f (is_rows s) = Inr (x, is_rows s')"
  by (auto simp: issuer_exec_def Let_def split: option.splits sum.splits)

lemma issuer_exec_Inl: "issuer_exec fault f s = (Inl x, s') \<Longrightarrow> is_rows s' = is_rows s"
  by (auto simp: issuer_exec_def Let_def split: option.splits sum.splits)

lemma pcs_Get_rows: "pcs_Get fault cid s = (r, s') \<Longrightarrow> is_rows s' = is_rows s"
  by (auto simp: pcs_Get_def split: prod.splits sum.splits option.splits if_splits
      dest!: issuer_exec_Inl issuer_exec_Inr)

lemma pcs_Update_cases:
  assumes "pcs_UpdateSecretHash fault cid h s = (x, s')"
  shows "(\<exists>err. x = Inl err) \<and> is_rows s' = is_rows s \<or>
    x = Inr () \<and> list_ex (\<lambda>r. oc_client_id r = cid \<and> oc_secret_state r = ''set'') (is_rows s) \<and>
      is_rows s' = map (set_hash cid h) (is_rows s)"
proof -
  let ?hit = "list_ex (\<lambda>r. oc_client_id r = cid \<and> oc_secret_state r = ''set'') (is_rows s)"
  let ?f = "\<lambda>rows. Inr (list_ex (\<lambda>r. oc_client_id r = cid \<and> oc_secret_state r = ''set'') rows, map (set_hash cid h) rows)"
  obtain r s1 where e: "issuer_exec fault ?f s = (r, s1)" by fastforce
  have id: "map (set_hash cid h) (is_rows s) = is_rows s" if "\<not> ?hit"
    using that by (intro map_idI) (auto simp: set_hash_def list_ex_iff)
  show ?thesis
  proof (cases r)
    case (Inl err)
    then have "(\<exists>err. x = Inl err) \<and> s' = s1"
      using assms e by (auto simp: pcs_UpdateSecretHash_def bindS_def map_errS_def)
    moreover have "is_rows s1 = is_rows s" by (rule issuer_exec_Inl [OF e [unfolded Inl]])
    ultimately show ?thesis by simp
  next
    case (Inr hit)
    have h: "hit = ?hit" "is_rows s1 = map (set_hash cid h) (is_rows s)"
      using issuer_exec_Inr [OF e [unfolded Inr]] by simp_all
    have "(if hit then x = Inr () else \<exists>err. x = Inl err) \<and> s' = s1"
      using assms e Inr by (auto simp: pcs_UpdateSecretHash_def bindS_def map_errS_def)
    then show ?thesis using h id by (cases hit) auto
  qed
qed

interpretation pg_clients: client_store "PostgresClientStore fault" clients unique_clients for fault
proof unfold_locales
  fix s s' cid r
  assume "cs_Get (PostgresClientStore fault) cid s = (r, s')" "unique_clients s"
  then show "unique_clients s' \<and> clients s' = clients s"
    by (auto simp: PostgresClientStore_def unique_clients_def clients_def fun_eq_iff dest: pcs_Get_rows)
next
  fix s s' cid rec
  assume "cs_Get (PostgresClientStore fault) cid s = (Inr (Some rec), s')"
  then show "clients s cid = Some rec"
    by (auto simp: PostgresClientStore_def pcs_Get_def clients_def split: prod.splits sum.splits option.splits if_splits
        dest!: issuer_exec_Inr)
next
  fix s s' cid h x
  assume u: "unique_clients s" and c: "cs_UpdateSecretHash (PostgresClientStore fault) cid h s = (x, s')"
  have "pcs_UpdateSecretHash fault cid h s = (x, s')" using c by (simp add: PostgresClientStore_def)
  then have "is_rows s' = is_rows s \<or> is_rows s' = map (set_hash cid h) (is_rows s)"
    using pcs_Update_cases by blast
  then show "unique_clients s'" using u by (elim disjE) (simp_all add: unique_clients_def comp_def)
next
  fix s s' cid h u
  assume u: "unique_clients s" and c: "cs_UpdateSecretHash (PostgresClientStore fault) cid h s = (Inr u, s')"
  have "pcs_UpdateSecretHash fault cid h s = (Inr u, s')" using c by (simp add: PostgresClientStore_def)
  from pcs_Update_cases [OF this] obtain r where "r \<in> set (is_rows s)" "oc_client_id r = cid" "oc_secret_state r = ''set''"
      "is_rows s' = map (set_hash cid h) (is_rows s)"
    unfolding list_ex_iff by blast
  then show "clients s' = (clients s)(cid := map_option (\<lambda>rec. rec\<lparr>cl_SecretHash := h\<rparr>) (clients s cid))"
    by (rule clients_update [OF u])
next
  fix s s' cid h err
  assume c: "cs_UpdateSecretHash (PostgresClientStore fault) cid h s = (Inl err, s')"
  have "pcs_UpdateSecretHash fault cid h s = (Inl err, s')" using c by (simp add: PostgresClientStore_def)
  then have "is_rows s' = is_rows s" using pcs_Update_cases by blast
  then show "clients s' = clients s" by (auto simp: clients_def fun_eq_iff)
qed

end
