(* ===== verification/JwksSpec.thy ===== *)
theory JwksSpec
  imports Jwks Budget
begin

section \<open>What the key cache guarantees beyond failing closed\<close>

text \<open>
  The unknown-kid refetch is bounded whatever kids are asked for, the cold-start errors, and a concrete
  run. The bound is an instance of the \<open>budget\<close> contract, as the rate limiter's is.
\<close>

subsection \<open>Unknown-kid refetches\<close>

definition reserve_call :: "'w jwks_env \<Rightarrow> string \<Rightarrow> 'w jstate \<Rightarrow> bool \<times> 'w jstate" where
  "reserve_call e kid s = (case reserveUnknownKidRetry e kid s of (r, s') \<Rightarrow> (r = Inr True, s'))"

text \<open>Reservations younger than the start \<open>lo\<close> of a window.\<close>

definition recent :: "time \<Rightarrow> (string, time) alist \<Rightarrow> nat" where
  "recent lo al = length (filter (\<lambda>(k, t). lo \<le> t) al)"

definition kids_ok :: "'w jstate \<Rightarrow> bool" where
  "kids_ok s \<longleftrightarrow> distinct (map fst (jc_unknownKidRetryAt (fst s))) \<and>
     length (jc_unknownKidRetryAt (fst s)) \<le> jwksMaxTrackedUnknownKids"

lemma recent_le: "recent lo al \<le> length al" by (simp add: recent_def)

lemma recent_update_new:
  "distinct (map fst al) \<Longrightarrow> lo \<le> t \<Longrightarrow> (\<And>t0. map_of al k = Some t0 \<Longrightarrow> t0 < lo) \<Longrightarrow>
     recent lo (AList.update k t al) = Suc (recent lo al)"
  by (induction al) (auto simp: recent_def split: if_splits)

text \<open>Inside the window the sweep drops only reservations from before it.\<close>

lemma sweep_kids_window:
  assumes "jwks_env_ok clk e" "sweep_kids e al s = (Inr al', s')" "clk (snd s') < lo + jwksUnknownKidRefetchInterval"
  shows "recent lo al' = recent lo al \<and> (distinct (map fst al) \<longrightarrow> distinct (map fst al')) \<and> set al' \<subseteq> set al"
  using assms(2,3)
proof (induction al arbitrary: s al' s')
  case Nil
  then show ?case by simp
next
  case (Cons x al)
  obtain k t where x: "x = (k, t)" by fastforce
  obtain now w where n: "jwks_now e s = (Inr now, (fst s, w))" by (rule jwks_now_Inr)
  obtain al2 s2 where sw: "sweep_kids e al (fst s, w) = (Inr al2, s2)"
      "al' = (if jwksUnknownKidRefetchInterval \<le> time_sub now t then al2 else (k, t) # al2)" "s' = s2"
    using Cons.prems(1) n by (auto simp: x bindS_def split: prod.splits sum.splits)
  have "je_now e (snd s) = (now, w)" using n by (simp add: jwks_now_def split: prod.splits)
  then have "now \<le> clk w" using env_okD(1) [OF assms(1)] by blast
  also have "clk w \<le> clk (snd s2)" using sweep_kids_step [OF assms(1) sw(1)] by (simp add: advances_def)
  finally have lt: "now < lo + jwksUnknownKidRefetchInterval" using Cons.prems(2) sw(3) by simp
  have "t < lo" if "jwksUnknownKidRefetchInterval \<le> time_sub now t"
    using that lt time_sub_ge_iff [of jwksUnknownKidRefetchInterval now t]
    by (simp add: jwksUnknownKidRefetchInterval_def second_def min_duration_def max_duration_def)
  then show ?case using Cons.IH [OF sw(1)] Cons.prems(2) sw(2,3) by (auto simp: x recent_def)
qed

lemma reserve_window:
  assumes "jwks_env_ok clk e" "kids_ok s" "lo \<le> clk (snd s)"
    and "clk (snd (snd (reserve_call e kid s))) < lo + jwksUnknownKidRefetchInterval"
  shows "kids_ok (snd (reserve_call e kid s)) \<and>
    recent lo (jc_unknownKidRetryAt (fst (snd (reserve_call e kid s)))) =
      recent lo (jc_unknownKidRetryAt (fst s)) + (if fst (reserve_call e kid s) then 1 else 0)"
proof -
  let ?al = "jc_unknownKidRetryAt (fst s)"
  obtain held s1 al s2 t w4 where h: "advances clk s s1" "fst s1 = fst s"
    "\<not> held \<longrightarrow> (\<forall>t0. map_of ?al kid = Some t0 \<longrightarrow>
       (\<exists>now \<le> clk (snd s1). jwksUnknownKidRefetchInterval \<le> time_sub now t0))"
    "sweep_kids e ?al s1 = (Inr al, s2)" "je_now e (snd s2) = (t, w4)" and
    eq: "reserveUnknownKidRetry e kid s =
      (if held then (Inr False, s1)
       else if jwksMaxTrackedUnknownKids \<le> length al
         then (Inr False, ((fst s)\<lparr>jc_unknownKidRetryAt := al\<rparr>, snd s2))
       else (Inr True, ((fst s)\<lparr>jc_unknownKidRetryAt := AList.update kid t al\<rparr>, w4)))"
    by (rule reserve_eq [OF assms(1), of s kid])
  have t: "clk (snd s2) \<le> t" "t \<le> clk w4" using env_okD(1) [OF assms(1) h(5)] by auto
  have sw: "clk (snd s1) \<le> clk (snd s2)" "length al \<le> length ?al" using sweep_kids_step [OF assms(1) h(4)]
    by (auto simp: advances_def)
  show ?thesis
  proof (cases held)
    case True
    then show ?thesis using assms(2) h(2) by (simp add: reserve_call_def eq kids_ok_def)
  next
    case False
    then have c2: "clk (snd s2) < lo + jwksUnknownKidRefetchInterval"
      using assms(4) t by (auto simp: reserve_call_def eq split: if_splits)
    have w: "recent lo al = recent lo ?al" "distinct (map fst al)" "set al \<subseteq> set ?al"
      using sweep_kids_window [OF assms(1) h(4) c2] assms(2) by (auto simp: kids_ok_def)
    have old: "t0 < lo" if m: "map_of al kid = Some t0" for t0
    proof -
      have "(kid, t0) \<in> set ?al" using map_of_SomeD [OF m] w(3) by blast
      then have "map_of ?al kid = Some t0" using assms(2) by (simp add: kids_ok_def)
      then obtain now where "now \<le> clk (snd s1)" "jwksUnknownKidRefetchInterval \<le> time_sub now t0"
        using h(3) False by blast
      then show ?thesis
        using c2 sw(1) time_sub_ge_iff [of jwksUnknownKidRefetchInterval now t0]
        by (simp add: jwksUnknownKidRefetchInterval_def second_def min_duration_def max_duration_def)
    qed
    have lo: "lo \<le> t" using t(1) sw(1) h(1) assms(3) by (auto simp: advances_def)
    show ?thesis
    proof (cases "jwksMaxTrackedUnknownKids \<le> length al")
      case True
      then show ?thesis using False w sw(2) assms(2) by (simp add: reserve_call_def eq kids_ok_def)
    next
      case room: False
      have "recent lo (AList.update kid t al) = Suc (recent lo al)"
        by (rule recent_update_new [OF w(2) lo old])
      then show ?thesis
        using False room w length_update_le [of kid t al]
        by (simp add: reserve_call_def eq kids_ok_def distinct_update)
    qed
  qed
qed

definition in_window :: "('w \<Rightarrow> time) \<Rightarrow> 'w jwks_env \<Rightarrow> time \<Rightarrow> string \<Rightarrow> 'w jstate \<Rightarrow> bool" where
  "in_window clk e lo kid s \<longleftrightarrow> lo \<le> clk (snd s) \<and>
     clk (snd (snd (reserve_call e kid s))) < lo + jwksUnknownKidRefetchInterval"

lemma jwks_budget:
  fixes clk :: "'w \<Rightarrow> time"
  assumes "jwks_env_ok clk e"
  shows "budget (reserve_call e) (in_window clk e lo) kids_ok
    (\<lambda>s. int jwksMaxTrackedUnknownKids - int (recent lo (jc_unknownKidRetryAt (fst s))))
    (\<lambda>kid granted. if granted then 1 else 0)"
proof unfold_locales
  fix s :: "'w jstate" and kid
  show "kids_ok s \<Longrightarrow> 0 \<le> int jwksMaxTrackedUnknownKids - int (recent lo (jc_unknownKidRetryAt (fst s)))"
    using recent_le [of lo "jc_unknownKidRetryAt (fst s)"] by (simp add: kids_ok_def)
  assume "kids_ok s" "in_window clk e lo kid s"
  then show "kids_ok (snd (reserve_call e kid s))"
    "(if fst (reserve_call e kid s) then 1 else 0) +
      (int jwksMaxTrackedUnknownKids - int (recent lo (jc_unknownKidRetryAt (fst (snd (reserve_call e kid s)))))) \<le>
      int jwksMaxTrackedUnknownKids - int (recent lo (jc_unknownKidRetryAt (fst s)))"
    using reserve_window [OF assms, of s lo kid] by (simp_all add: in_window_def)
qed

text \<open>
  C39. A flood of made-up key ids cannot hammer the issuer: however many kids are asked for, in any window
  of 30 seconds at most 64 out-of-band refetches are granted.
\<close>
theorem unknown_kid_refetches_bounded:
  assumes "jwks_env_ok clk e" "kids_ok s" "legal (in_window clk e lo) (reserve_call e) kids s"
  shows "total_cost (\<lambda>kid granted. if granted then 1 else 0) (fst (run_ops (reserve_call e) kids s)) \<le> 64"
  using budget.run_bounded [OF jwks_budget [OF assms(1)] assms(2,3)]
  by (simp add: jwksMaxTrackedUnknownKids_def)

subsection \<open>A concrete cache\<close>

text \<open>The world is the clock; nobody else touches the cache; the issuer publishes one small key.\<close>

definition demo_jwks :: json where
  "demo_jwks = JObj [(''keys'', JArr [JObj [(''kty'', JStr ''RSA''), (''kid'', JStr ''k1''), (''n'', JStr ''AQ''), (''e'', JStr ''Aw'')]])]"

definition demo_env :: "time jwks_env" where
  "demo_env = \<lparr>je_now = (\<lambda>w. (w, w)), je_yield = (\<lambda>s. s), je_newRequest = (\<lambda>_. None),
     je_do = (\<lambda>_ _. retS \<lparr>hp_status = 200, hp_body = Inr (Doc demo_jwks)\<rparr>), je_show = itoa\<rparr>"

lemma demo_env_ok: "jwks_env_ok (\<lambda>w. w) demo_env"
  by (simp add: jwks_env_ok_def demo_env_def advances_refl)

lemma demo_parse: "parseJWKS (Doc demo_jwks) = Inr [''k1'' \<mapsto> \<lparr>pk_N = 1, pk_E = 3\<rparr>]"
proof -
  have "b64_encode url_alphabet [CHR 0x01] = ''AQ''" "b64_encode url_alphabet [CHR 0x03] = ''Aw''"
    by (simp_all add: b64_encode_def url_alphabet_def byte_def)
  then have "b64_decode url_alphabet ''AQ'' = Some [CHR 0x01]" "b64_decode url_alphabet ''Aw'' = Some [CHR 0x03]"
    using b64_decode_encode [of url_alphabet] by (metis good_alphabets(2))+
  then show ?thesis
    by (simp add: parseJWKS_def demo_jwks_def decode_struct_def find_field_def jwks_response_fields_def
      dec_slice_def jwk_fields_def dec_str_def zero_jwk_def rsaPublicKeyFromJWK_def bytes_val_def byte_def)
qed

definition demo_cache :: jwks_cache where "demo_cache = NewJWKSCache ''http://issuer/jwks'' (15 * minute)"

lemma demo_cache_sel [simp]:
  "jc_keys demo_cache = None" "jc_ttl demo_cache = 15 * minute" "jc_maxStaleness demo_cache = 45 * minute"
  "jc_lastAttempt demo_cache = 0" "jc_unknownKidRetryAt demo_cache = []"
  by (simp_all add: demo_cache_def NewJWKSCache_def jwksMaxStalenessMultiple_def minute_def wrap64_id)

lemma demo_run:
  "KeyForKid demo_env None ''k1'' (demo_cache, 100 * second) =
     (Inr \<lparr>pk_N = 1, pk_E = 3\<rparr>,
      (demo_cache\<lparr>jc_keys := Some [''k1'' \<mapsto> \<lparr>pk_N = 1, pk_E = 3\<rparr>], jc_fetchedAt := 100 * second,
         jc_lastAttempt := 100 * second, jc_consecutiveFailures := 0, jc_staleAlerted := False\<rparr>, 100 * second))"
  by (simp add: KeyForKid_def refresh_due_def get_cache_def put_cache_def jwks_now_def unlock_def bindS_def catchS_def
      refresh_def jwks_fetch_def map_errS_def demo_env_def demo_parse lookupKey_def
      jwksMinRefreshRetryInterval_def time_sub_def second_def max_duration_def min_duration_def)

text \<open>
  The verifier fails closed on stale keys. Whatever the other goroutines do to the cache meanwhile,
  when \<open>KeyForKid\<close> returns a key, that key is the cache's entry for the token's kid, in a key set that was
  successfully fetched no longer than the staleness bound before the call began. (The configuration
  hypothesis is what \<open>NewJWKSCache\<close> sets up for every positive refresh interval below 97 years.)
\<close>
theorem jwks_fails_closed:
  assumes "jwks_env_ok clk e" "KeyForKid e cx kid (c, w) = (Inr key, (c', w'))"
    and "0 < jc_ttl c" "jc_ttl c \<le> jc_maxStaleness c" "jc_maxStaleness c < max_duration"
  shows "\<exists>keys. jc_keys c' = Some keys \<and> keys kid = Some key \<and> clk w - jc_maxStaleness c \<le> jc_fetchedAt c'"
  using assms by (rule KeyForKid_fresh)

theorem jwks_fails_closed_witness:
  "\<exists>keys. keys ''k1'' = Some \<lparr>pk_N = 1, pk_E = 3\<rparr> \<and> 100 * second - 45 * minute \<le> 100 * second \<and>
     jc_keys (fst (snd (KeyForKid demo_env None ''k1'' (demo_cache, 100 * second)))) = Some keys"
  using jwks_fails_closed [OF demo_env_ok demo_run] unfolding demo_run
  by (simp add: minute_def second_def max_duration_def)

theorem unknown_kid_refetches_bounded_witness:
  "fst (run_ops (reserve_call demo_env) [''a'', ''a'', ''b''] (demo_cache, 100 * second)) =
     [(''a'', True), (''a'', False), (''b'', True)] \<and>
   total_cost (\<lambda>kid granted. if granted then 1 else 0)
     (fst (run_ops (reserve_call demo_env) [''a'', ''a'', ''b''] (demo_cache, 100 * second))) \<le> 64"
proof -
  note ev = reserve_call_def reserveUnknownKidRetry_def bindS_def get_cache_def put_cache_def jwks_now_def demo_env_def
    jwksMaxTrackedUnknownKids_def jwksUnknownKidRefetchInterval_def second_def
  have run: "fst (run_ops (reserve_call demo_env) [''a'', ''a'', ''b''] (demo_cache, 100 * second)) =
     [(''a'', True), (''a'', False), (''b'', True)]"
    by (simp add: ev)
  have "legal (in_window (\<lambda>w. w) demo_env (90 * second)) (reserve_call demo_env) [''a'', ''a'', ''b''] (demo_cache, 100 * second)"
    by (simp add: ev in_window_def)
  moreover have "kids_ok (demo_cache, 100 * second)" by (simp add: kids_ok_def)
  ultimately show ?thesis
    using run unknown_kid_refetches_bounded [OF demo_env_ok] by blast
qed

subsection \<open>Cold start\<close>

text \<open>
  While no key set was ever fetched and the last attempt is less than five seconds old, \<open>KeyForKid\<close> fails with
  an error that is neither \<open>ErrJWKSUnreachable\<close> nor \<open>ErrJWKSStale\<close>, although the comment on
  \<open>ErrJWKSUnreachable\<close> says it covers the cold-start case: the middleware logs such a request as an ordinary
  authentication failure.
\<close>
lemma jwks_cold_backoff:
  assumes "jc_keys c = None" "\<And>s. je_yield e s = s" "je_now e w = (t, w1)"
    and "time_sub t (jc_lastAttempt c) < jwksMinRefreshRetryInterval"
  shows "KeyForKid e cx kid (c, w) = (Inl (ErrText ''api: JWKS cache not yet populated''), (c, w1))"
  using assms
  by (simp add: KeyForKid_def refresh_due_def get_cache_def jwks_now_def unlock_def bindS_def enforceStaleness_def)

end
