(* ===== verification/VerifierSpec.thy ===== *)
theory VerifierSpec
  imports JwtMiddleware JwksSpec
begin

section \<open>The verifier's authentication, end to end\<close>

text \<open>
  The middleware with the JWKS cache as its key source, and the concrete library and requests on which the theorems
  of \<open>JwtMiddleware\<close> and of this theory are exercised: a library that knows one good token.
\<close>

definition demo_header :: jwt_header where
  "demo_header = \<lparr>jh_alg = ''RS256'', jh_kid = Some ''k1''\<rparr>"

definition demo_claims :: jwt_claims where
  "demo_claims = \<lparr>cl_Scope = ''profile:search'', cl_Subject = ''qa'', cl_Issuer = ''iss'',
     cl_Audience = [''aud''], cl_IssuedAt = Some (50 * second), cl_ExpiresAt = Some (350 * second), cl_ID = ''''\<rparr>"

definition demo_lib :: "time jstate jwt_lib" where
  "demo_lib = \<lparr>jl_header = (\<lambda>t. if t = ''good'' then Some demo_header else None),
     jl_claims = (\<lambda>t. if t = ''good'' then Some demo_claims else None),
     jl_verifies = (\<lambda>key t. key = \<lparr>pk_N = 1, pk_E = 3\<rparr>), jl_now = snd\<rparr>"

definition lib_parse :: "'s jwt_lib \<Rightarrow> 's jwt_parse" where
  "lib_parse L algs iss kf tok s =
     (case (jl_header L tok, jl_claims L tok) of
        (Some h, Some c) \<Rightarrow>
          if jh_alg h \<notin> set algs then (Inl (ErrText ''signing method is invalid''), s)
          else (case kf h s of
             (Inl err, s1) \<Rightarrow> (Inl (Wrap ''token is unverifiable: '' err), s1)
           | (Inr key, s1) \<Rightarrow>
               if jl_verifies L key tok \<and> (iss = [] \<or> cl_Issuer c = iss) \<and> unexpired c (jl_now L s1)
               then (Inr (c, True), s1) else (Inl (ErrText ''token is invalid''), s1))
      | _ \<Rightarrow> (Inl (ErrText ''token is malformed''), s))"

lemma lib_parse_ok: "jwt_lib_ok L (lib_parse L)"
  unfolding jwt_lib_ok_def
  by (auto simp: lib_parse_def jwks_outage_def split: option.splits prod.splits sum.splits if_splits)

definition demo_verifier :: "time jstate jwt_verifier" where
  "demo_verifier = \<lparr>jv_parse = lib_parse demo_lib, jv_keys = KeyForKid demo_env, jv_issuer = ''iss'', jv_audience = ''aud''\<rparr>"

lemma demo_scope: "singleScope ''profile:search'' = Inr ScopeSearch"
proof -
  have "GoStrings.fields ''profile:search'' = [''profile:search'']"
    by (rule fields_visible) (simp_all add: visible_def byte_def)
  then show ?thesis by (simp add: singleScope_iff recognized_scopes_def scope_defs)
qed

lemma demo_verified:
  "jwt_verify demo_verifier None ''good'' (demo_cache, 100 * second) =
     (Inr \<lparr>ac_Sub = ''qa'', ac_Scope = ScopeSearch\<rparr>, snd (KeyForKid demo_env None ''k1'' (demo_cache, 100 * second)))"
proof -
  have "unexpired demo_claims (100 * second)" by (simp add: unexpired_def demo_claims_def second_def)
  then have "jv_parse demo_verifier [jwtAlgorithm] ''iss'' (kid_keyfunc (KeyForKid demo_env) None) ''good''
      (demo_cache, 100 * second) = (Inr (demo_claims, True), snd (KeyForKid demo_env None ''k1'' (demo_cache, 100 * second)))"
    by (simp add: demo_verifier_def lib_parse_def demo_lib_def demo_header_def kid_keyfunc_def jwtAlgorithm_def demo_run)
      (simp add: demo_claims_def)
  moreover have "hasAudience (cl_Audience demo_claims) (jv_audience demo_verifier)"
      "cl_Subject demo_claims = ''qa''" "singleScope (cl_Scope demo_claims) = Inr ScopeSearch"
      "jv_issuer demo_verifier = ''iss''" "jv_keys demo_verifier = KeyForKid demo_env"
    by (simp_all add: demo_verifier_def hasAudience_def demo_claims_def demo_scope)
  ultimately show ?thesis by (simp add: jwt_verify_def bindS_def)
qed

definition bearer_request :: request where
  "bearer_request = example_request ScopeReadOwn\<lparr>hr_auth := None, hr_header := (\<lambda>_. ''Bearer  good'')\<rparr>"

definition echo_handler :: "'s http_handler" where
  "echo_handler r s = (json_response 200 (case hr_auth r of None \<Rightarrow> JNull | Some ac \<Rightarrow> JStr (ac_Sub ac)), s)"

lemma bearer_good: "bearerToken bearer_request = Some ''good''"
proof -
  have "trim_space (CHR '' '' # ''good'') = ''good''"
    by (simp add: trim_space_def trim_left.simps space_len_def trim_right.simps space_suffix_visible visible_def byte_def)
  then show ?thesis by (simp add: bearerToken_def bearer_request_def equal_fold_def)
qed

lemma demo_next:
  "NewJWTMiddleware demo_verifier None echo_handler bearer_request (demo_cache, 100 * second) =
     (json_response 200 (JStr ''qa''), snd (KeyForKid demo_env None ''k1'' (demo_cache, 100 * second)))"
proof -
  have "hr_ctx bearer_request = None" by (simp add: bearer_request_def)
  then show ?thesis by (simp add: NewJWTMiddleware_def bearer_good demo_verified echo_handler_def)
qed

theorem jwt_next_only_verified_witness:
  "\<exists>s1 ac. token_accepted demo_lib demo_verifier None ''good'' (demo_cache, 100 * second) s1 ac \<and>
     echo_handler (bearer_request\<lparr>hr_auth := Some ac\<rparr>) s1 =
       (json_response 200 (JStr ''qa''), snd (KeyForKid demo_env None ''k1'' (demo_cache, 100 * second)))"
proof -
  have "jwt_lib_ok demo_lib (jv_parse demo_verifier)" by (simp add: demo_verifier_def lib_parse_ok)
  moreover have "json_response 200 (JStr ''qa'') \<noteq> writeUnauthorized"
    by (simp add: json_response_def writeUnauthorized_def writeError_def)
  moreover have "hr_ctx bearer_request = None" by (simp add: bearer_request_def)
  ultimately show ?thesis
    using jwt_next_only_verified [of demo_lib demo_verifier None echo_handler bearer_request "(demo_cache, 100 * second)"]
    unfolding demo_next bearer_good by (metis Pair_inject option.inject)
qed

text \<open>
  C22. With the JWKS cache as its key source the middleware authenticates a request only with a fresh key: the
  key that verified the token is the one a successfully fetched key set holds under the token's kid, and
  that set was fetched no longer than the staleness bound before the request.
\<close>
theorem verified_by_fresh_key:
  assumes "jwt_lib_ok L (jv_parse v)" "jv_keys v = KeyForKid e" "jwks_env_ok clk e"
    and "0 < jc_ttl c" "jc_ttl c \<le> jc_maxStaleness c" "jc_maxStaleness c < max_duration"
    and "jwt_verify v cx tok (c, w) = (Inr ac, (c', w'))"
  shows "\<exists>h kid key keys. jl_header L tok = Some h \<and> jh_kid h = Some kid \<and> jl_verifies L key tok \<and>
    jc_keys c' = Some keys \<and> keys kid = Some key \<and> clk w - jc_maxStaleness c \<le> jc_fetchedAt c'"
proof -
  obtain h kid key where t: "jl_header L tok = Some h" "jh_kid h = Some kid" "jl_verifies L key tok"
    "KeyForKid e cx kid (c, w) = (Inr key, (c', w'))"
    using jwt_verify_Inr [OF assms(1,7)] assms(2) unfolding token_accepted_def by auto
  then show ?thesis using KeyForKid_fresh [OF assms(3) t(4) assms(4-6)] by blast
qed

theorem verified_by_fresh_key_witness:
  "\<exists>key keys. jl_verifies demo_lib key ''good'' \<and> keys ''k1'' = Some key \<and>
     jc_keys (fst (snd (jwt_verify demo_verifier None ''good'' (demo_cache, 100 * second)))) = Some keys"
proof -
  obtain c' w' where k: "snd (KeyForKid demo_env None ''k1'' (demo_cache, 100 * second)) = (c', w')" by fastforce
  have "jwt_lib_ok demo_lib (jv_parse demo_verifier)" "jv_keys demo_verifier = KeyForKid demo_env"
    by (simp_all add: demo_verifier_def lib_parse_ok)
  from verified_by_fresh_key [OF this demo_env_ok, of demo_cache None "''good''" "100 * second"]
  show ?thesis
    using k by (auto simp: demo_verified demo_lib_def demo_header_def minute_def max_duration_def)
qed

end
