(* ===== verification/Triple.thy ===== *)
theory Triple
  imports ApiCore
begin

section \<open>Pre- and postconditions of handler operations\<close>

text \<open>\<open>triple E P m Q\<close>: from a state with \<open>P\<close> an answer \<open>x\<close> leaves a state with \<open>Q x\<close>, an early return \<open>e\<close> one
with \<open>E e\<close>.\<close>

definition triple :: "('e \<Rightarrow> 's \<Rightarrow> bool) \<Rightarrow> ('s \<Rightarrow> bool) \<Rightarrow> ('s, 'e, 'a) op \<Rightarrow> ('a \<Rightarrow> 's \<Rightarrow> bool) \<Rightarrow> bool" where
  "triple E P m Q \<longleftrightarrow> (\<forall>s. P s \<longrightarrow> (case m s of (Inl e, s') \<Rightarrow> E e s' | (Inr x, s') \<Rightarrow> Q x s'))"

lemma tripleI: "(\<And>s e s'. P s \<Longrightarrow> m s = (Inl e, s') \<Longrightarrow> E e s') \<Longrightarrow>
    (\<And>s x s'. P s \<Longrightarrow> m s = (Inr x, s') \<Longrightarrow> Q x s') \<Longrightarrow> triple E P m Q"
  by (auto simp: triple_def split: prod.splits sum.splits)

lemma triple_bindS: "triple E P m R \<Longrightarrow> (\<And>x. triple E (R x) (k x) Q) \<Longrightarrow> triple E P (bindS m k) Q"
  by (fastforce simp: triple_def bindS_def split: prod.splits sum.splits)

lemma triple_if:
  "(b \<Longrightarrow> triple E P m Q) \<Longrightarrow> (\<not> b \<Longrightarrow> triple E P n Q) \<Longrightarrow> triple E P (if b then m else n) Q"
  by simp

lemma triple_option:
  "(p = None \<Longrightarrow> triple E P m Q) \<Longrightarrow> (\<And>x. p = Some x \<Longrightarrow> triple E P (k x) Q) \<Longrightarrow>
   triple E P (case p of None \<Rightarrow> m | Some x \<Rightarrow> k x) Q"
  by (cases p) simp_all

lemma triple_failS: "(\<And>s. P s \<Longrightarrow> E e s) \<Longrightarrow> triple E P (failS e) Q"
  by (simp add: triple_def)

lemma triple_denyS: "(\<And>s. P s \<Longrightarrow> E e (f s)) \<Longrightarrow> triple E P (denyS f e) Q"
  by (simp add: triple_def)

lemma triple_execS: "(\<And>s. P s \<Longrightarrow> Q () (f s)) \<Longrightarrow> triple E P (execS f) Q"
  by (simp add: triple_def)

lemma triple_or_write: "triple (\<lambda>e. E (f e)) P m Q \<Longrightarrow> triple E P (or_write f m) Q"
  by (fastforce simp: triple_def or_write_def map_errS_def split: prod.splits sum.splits)

lemma triple_pre: "triple E (\<lambda>_. True) m Q \<Longrightarrow> triple E P m Q"
  by (simp add: triple_def)

lemma triple_run: "triple E P m E \<Longrightarrow> P s \<Longrightarrow> run_handler m s = (resp, s') \<Longrightarrow> E resp s'"
  by (cases "m s"; cases "fst (m s)") (auto simp: triple_def run_handler_def)

lemma triple_catchS:
  "triple (\<lambda>e s. R1 e s) P m R2 \<Longrightarrow> (\<And>e. triple E (R1 e) (h e) Q) \<Longrightarrow> (\<And>x. triple E (R2 x) (k x) Q) \<Longrightarrow>
   triple E P (catchS m h k) Q"
  by (fastforce simp: triple_def catchS_def split: prod.splits sum.splits)

lemma triple_retS: "(\<And>s. P s \<Longrightarrow> Q x s) \<Longrightarrow> triple E P (retS x) Q"
  by (simp add: triple_def)

lemma triple_conseq: "triple E P m Q \<Longrightarrow> (\<And>s. P' s \<Longrightarrow> P s) \<Longrightarrow> (\<And>e s. E e s \<Longrightarrow> E' e s) \<Longrightarrow>
    (\<And>x s. Q x s \<Longrightarrow> Q' x s) \<Longrightarrow> triple E' P' m Q'"
  by (fastforce simp: triple_def split: prod.splits sum.splits)

lemma triple_prod: "(\<And>a b. p = (a, b) \<Longrightarrow> triple E P (k a b) Q) \<Longrightarrow> triple E P (case p of (a, b) \<Rightarrow> k a b) Q"
  by (cases p) simp

end
