(* ===== verification/TokenSpec.thy ===== *)
theory TokenSpec
  imports TokenHandler ClientStoreSpec VerifierSpec Triple
begin

section \<open>What the token issuer guarantees\<close>

text \<open>
  A token is issued only to an authenticated, active client and says exactly what the store holds; the
  failures of authentication cannot be told apart; a rehash never changes who can log in; and the verifier
  accepts what the issuer mints.
\<close>

subsection \<open>When a token is issued\<close>

lemma check_secret_True:
  "check_secret d (Some rec) sec s = (Inr True, s1) \<longleftrightarrow>
     cl_SecretHash rec \<noteq> [] \<and> verifySecret (td_crypto d) sec (cl_SecretHash rec) s = (True, s1)"
  by (auto simp: check_secret_def split: prod.splits)

lemma mint_Inr:
  "mint d cid rec s = (Inr resp, s') \<longleftrightarrow>
     (\<exists>jti tok s1. td_newUUID d s = (jti, s1) \<and>
        td_SignedString d (sk_Private (td_key d)) (token_header d) (token_claims d cid rec (td_now d s) jti) s1 = (Inr tok, s') \<and>
        resp = token_response tok (cl_GrantedScope rec))"
  by (auto simp: mint_def Let_def split: prod.splits sum.splits)

lemma failures_not_200:
  "rs_status invalid_client \<noteq> 200" "rs_status server_error \<noteq> 200" "rs_status (writeTokenError 400 e) \<noteq> 200"
  "rs_status (writeTokenError 429 e) \<noteq> 200"
  by (simp_all add: invalid_client_def server_error_def writeTokenError_def)

abbreviation no_200 :: "('s, response, 'a) op \<Rightarrow> bool" where
  "no_200 \<equiv> exits (\<lambda>resp. rs_status resp \<noteq> 200)"

lemma exits_sum [exits_rules]:
  "(\<And>e. exits Q (k1 e)) \<Longrightarrow> (\<And>x. exits Q (k2 x)) \<Longrightarrow> exits Q (case p of Inl e \<Rightarrow> k1 e | Inr x \<Rightarrow> k2 x)"
  by (cases p) simp_all

lemma no_200_check [exits_rules]: "no_200 (check_secret d found sec)"
  by (auto simp: exits_def check_secret_def split: option.splits prod.splits if_splits)

lemma no_200_rehash [exits_rules]: "no_200 (rehash d st cid sec rec)"
  by (auto simp: exits_def rehash_def catchS_eq retS_def)

lemma no_200_mint [exits_rules]: "no_200 (mint d cid rec)"
  by (auto simp: exits_def mint_def Let_def failures_not_200 split: prod.splits sum.splits)

lemma no_200_token: "no_200 (token_op d r)"
  unfolding token_op_def Let_def
  by (intro exits_rules failures_not_200)

lemma token_issued:
  assumes "NewTokenHandler d r s = (resp, s')" "rs_status resp = 200"
  shows "\<exists>st form cid sec rec s1 s2 s3 s4. td_store d = Some st \<and> tq_form r = Inr form \<and>
    form ''grant_type'' = ''client_credentials'' \<and> tq_basic r = Some (cid, sec) \<and>
    gi_Allow (td_limiter d) cid (sourceIPFrom (tq_remote r)) s = (Inr True, s1) \<and>
    cs_Get st cid s1 = (Inr (Some rec), s2) \<and> cl_SecretHash rec \<noteq> [] \<and>
    verifySecret (td_crypto d) sec (cl_SecretHash rec) s2 = (True, s3) \<and> cl_Active rec \<and>
    trim_space (form ''scope'') \<in> {[], cl_GrantedScope rec} \<and>
    mint d cid rec s4 = (Inr resp, s')"
proof -
  obtain x where x: "token_op d r s = (x, s')" "x = Inl resp \<or> x = Inr resp"
    using assms(1) by (auto simp: NewTokenHandler_def run_handler_def split: prod.splits sum.splits)
  have run: "token_op d r s = (Inr resp, s')"
    using x assms(2) no_200_token [of d r] by (auto simp: exits_def)
  obtain st where st: "td_store d = Some st" using run by (auto simp: token_op_def split: option.splits)
  obtain form where form: "tq_form r = Inr form" using run st by (auto simp: token_op_def split: sum.splits)
  have gt: "form ''grant_type'' = ''client_credentials''"
    using run st form by (simp add: token_op_def split: if_splits)
  define cid where "cid = fst (case tq_basic r of None \<Rightarrow> ([], []) | Some p \<Rightarrow> p)"
  define sec where "sec = snd (case tq_basic r of None \<Rightarrow> ([], []) | Some p \<Rightarrow> p)"
  have p: "(case tq_basic r of None \<Rightarrow> ([], []) | Some p \<Rightarrow> p) = (cid, sec)" by (simp add: cid_def sec_def)
  obtain s1 where allow: "gi_Allow (td_limiter d) cid (sourceIPFrom (tq_remote r)) s = (Inr True, s1)"
    and basic: "tq_basic r \<noteq> None"
    and rest: "bindS (or_write (\<lambda>_. server_error) (cs_Get st cid)) (\<lambda>found.
        bindS (check_secret d found sec) (\<lambda>secretOK.
        case found of
          None \<Rightarrow> denyS (gi_RecordFailure (td_limiter d) cid (sourceIPFrom (tq_remote r))) invalid_client
        | Some rec \<Rightarrow>
            if \<not> secretOK \<or> \<not> cl_Active rec
            then denyS (gi_RecordFailure (td_limiter d) cid (sourceIPFrom (tq_remote r))) invalid_client
            else bindS (execS (gi_RecordSuccess (td_limiter d) cid (sourceIPFrom (tq_remote r)))) (\<lambda>_.
              bindS (rehash d st cid sec rec) (\<lambda>_.
              let requested = trim_space (form ''scope'') in
              if requested \<noteq> [] \<and> requested \<noteq> cl_GrantedScope rec
              then failS (writeTokenError 400 ''invalid_scope'')
              else mint d cid rec)))) s1 = (Inr resp, s')"
    using run unfolding token_op_def Let_def st form option.case sum.case p prod.case gt
    by (auto simp: bindS_eq_Inr or_write_def map_errS_eq_Inr split: if_splits)
  obtain found s2 ok s3 where get: "cs_Get st cid s1 = (Inr found, s2)" "check_secret d found sec s2 = (Inr ok, s3)"
    and rest2: "(case found of
          None \<Rightarrow> denyS (gi_RecordFailure (td_limiter d) cid (sourceIPFrom (tq_remote r))) invalid_client
        | Some rec \<Rightarrow>
            if \<not> ok \<or> \<not> cl_Active rec
            then denyS (gi_RecordFailure (td_limiter d) cid (sourceIPFrom (tq_remote r))) invalid_client
            else bindS (execS (gi_RecordSuccess (td_limiter d) cid (sourceIPFrom (tq_remote r)))) (\<lambda>_.
              bindS (rehash d st cid sec rec) (\<lambda>_.
              let requested = trim_space (form ''scope'') in
              if requested \<noteq> [] \<and> requested \<noteq> cl_GrantedScope rec
              then failS (writeTokenError 400 ''invalid_scope'')
              else mint d cid rec))) s3 = (Inr resp, s')"
    using rest by (auto simp: bindS_eq_Inr or_write_def map_errS_eq_Inr)
  obtain rec where rec: "found = Some rec" "ok" "cl_Active rec" "trim_space (form ''scope'') \<in> {[], cl_GrantedScope rec}"
    and minted: "\<exists>s4. mint d cid rec s4 = (Inr resp, s')"
    using rest2 by (auto simp: bindS_eq_Inr Let_def split: option.splits if_splits)
  have "tq_basic r = Some (cid, sec)" using basic p by auto
  then show ?thesis
    using st form gt allow get rec minted by (auto simp: check_secret_True)
qed

text \<open>
  C5. A token is issued only to a client that proved itself: a 200 answer means that the grant type is
  \<open>client_credentials\<close>, the limiter allowed the attempt, the store has the client, with a secret, active, the
  presented secret verified against the stored hash, the requested scope is none or the granted one, and the
  answer carries exactly the token signed over the claims of that record.
\<close>
theorem token_issue_checked:
  assumes "NewTokenHandler d r s = (resp, s')" "rs_status resp = 200"
  shows "\<exists>st form cid sec rec s1 s2 s3 s4 now jti tok. td_store d = Some st \<and> tq_form r = Inr form \<and>
    form ''grant_type'' = ''client_credentials'' \<and> tq_basic r = Some (cid, sec) \<and>
    gi_Allow (td_limiter d) cid (sourceIPFrom (tq_remote r)) s = (Inr True, s1) \<and>
    cs_Get st cid s1 = (Inr (Some rec), s2) \<and> cl_SecretHash rec \<noteq> [] \<and>
    verifySecret (td_crypto d) sec (cl_SecretHash rec) s2 = (True, s3) \<and> cl_Active rec \<and>
    trim_space (form ''scope'') \<in> {[], cl_GrantedScope rec} \<and>
    td_SignedString d (sk_Private (td_key d)) (token_header d) (token_claims d cid rec now jti) s4 = (Inr tok, s') \<and>
    resp = token_response tok (cl_GrantedScope rec)"
  using token_issued [OF assms] unfolding mint_Inr by blast

text \<open>The converse: with every step passed the answer is the minting's.\<close>

lemma token_granted:
  assumes "td_store d = Some st" "tq_form r = Inr form" "form ''grant_type'' = ''client_credentials''"
    and "tq_basic r = Some (cid, sec)" "gi_Allow (td_limiter d) cid (sourceIPFrom (tq_remote r)) s = (Inr True, s1)"
    and "cs_Get st cid s1 = (Inr (Some rec), s2)" "check_secret d (Some rec) sec s2 = (Inr True, s3)" "cl_Active rec"
    and "rehash d st cid sec rec (gi_RecordSuccess (td_limiter d) cid (sourceIPFrom (tq_remote r)) s3) = (Inr (), s4)"
    and "trim_space (form ''scope'') \<in> {[], cl_GrantedScope rec}"
  shows "token_op d r s = mint d cid rec s4"
  unfolding token_op_def Let_def assms(1-4) option.case sum.case prod.case
  using assms(10) by (auto simp: bindS_def or_write_def map_errS_def assms(5-9))

subsection \<open>Failures\<close>

text \<open>The hash a presented secret is compared with.\<close>

definition compared :: "('s, 'k) token_deps \<Rightarrow> client_record option \<Rightarrow> string" where
  "compared d found = (case found of
     Some rec \<Rightarrow> if cl_SecretHash rec \<noteq> [] then cl_SecretHash rec else td_dummyHash d
   | None \<Rightarrow> td_dummyHash d)"

definition authenticated :: "('s, 'k) token_deps \<Rightarrow> client_record option \<Rightarrow> string \<Rightarrow> 's \<Rightarrow> bool" where
  "authenticated d found sec s \<longleftrightarrow> (\<exists>rec. found = Some rec \<and> cl_SecretHash rec \<noteq> [] \<and>
     fst (verifySecret (td_crypto d) sec (cl_SecretHash rec) s) \<and> cl_Active rec)"

lemma check_secret_eq:
  "check_secret d found sec s =
     (Inr (case found of None \<Rightarrow> False | Some rec \<Rightarrow>
        cl_SecretHash rec \<noteq> [] \<and> fst (verifySecret (td_crypto d) sec (cl_SecretHash rec) s)),
      snd (verifySecret (td_crypto d) sec (compared d found) s))"
  by (auto simp: check_secret_def compared_def split: option.splits prod.splits)

lemma token_refused:
  assumes "td_store d = Some st" "tq_form r = Inr form" "form ''grant_type'' = ''client_credentials''"
    and "tq_basic r = Some (cid, sec)" "gi_Allow (td_limiter d) cid (sourceIPFrom (tq_remote r)) s = (Inr True, s1)"
    and "cs_Get st cid s1 = (Inr found, s2)" "\<not> authenticated d found sec s2"
  shows "NewTokenHandler d r s = (invalid_client,
    gi_RecordFailure (td_limiter d) cid (sourceIPFrom (tq_remote r))
      (snd (verifySecret (td_crypto d) sec (compared d found) s2)))"
proof -
  have run: "token_op d r s = bindS (check_secret d found sec) (\<lambda>secretOK.
      case found of
        None \<Rightarrow> denyS (gi_RecordFailure (td_limiter d) cid (sourceIPFrom (tq_remote r))) invalid_client
      | Some rec \<Rightarrow>
          if \<not> secretOK \<or> \<not> cl_Active rec
          then denyS (gi_RecordFailure (td_limiter d) cid (sourceIPFrom (tq_remote r))) invalid_client
          else bindS (execS (gi_RecordSuccess (td_limiter d) cid (sourceIPFrom (tq_remote r)))) (\<lambda>_.
            bindS (rehash d st cid sec rec) (\<lambda>_.
            let requested = trim_space (form ''scope'') in
            if requested \<noteq> [] \<and> requested \<noteq> cl_GrantedScope rec
            then failS (writeTokenError 400 ''invalid_scope'')
            else mint d cid rec))) s2"
    unfolding token_op_def Let_def assms(1-4) option.case sum.case prod.case
    by (simp add: bindS_def or_write_def map_errS_def assms(5,6))
  show ?thesis
  proof (cases found)
    case None
    then show ?thesis unfolding NewTokenHandler_def run_handler_def run
      by (simp add: bindS_def check_secret_eq)
  next
    case (Some rec)
    then have "\<not> (cl_SecretHash rec \<noteq> [] \<and> fst (verifySecret (td_crypto d) sec (cl_SecretHash rec) s2)) \<or> \<not> cl_Active rec"
      using assms(7) by (auto simp: authenticated_def)
    then show ?thesis unfolding NewTokenHandler_def run_handler_def run
      by (simp only: Some option.case bindS_def check_secret_eq prod.case sum.case) auto
  qed
qed

text \<open>
  C6. The failures of authentication cannot be told apart: whether the client is unknown, has no secret, has a
  revoked secret, is disabled or presented the wrong secret, the answer is the one \<open>invalid_client\<close> response, the
  limiter records one failure, and exactly one secret was verified before.
\<close>
theorem token_failures_uniform:
  assumes "td_store d = Some st" "tq_form r = Inr form" "form ''grant_type'' = ''client_credentials''"
    and "tq_basic r = Some (cid, sec)" "gi_Allow (td_limiter d) cid (sourceIPFrom (tq_remote r)) s = (Inr True, s1)"
    and "cs_Get st cid s1 = (Inr found, s2)" "\<not> authenticated d found sec s2"
  shows "NewTokenHandler d r s = (invalid_client,
    gi_RecordFailure (td_limiter d) cid (sourceIPFrom (tq_remote r))
      (snd (verifySecret (td_crypto d) sec (compared d found) s2)))"
  using assms by (rule token_refused)

subsection \<open>A rehash changes one hash\<close>

text \<open>What the token handler relies on of its other dependencies: they leave the client table alone.\<close>

definition frames :: "('s \<Rightarrow> bool) \<Rightarrow> ('s \<Rightarrow> 'v) \<Rightarrow> ('s \<Rightarrow> 's) \<Rightarrow> bool" where
  "frames good tbl f \<longleftrightarrow> (\<forall>s. good s \<longrightarrow> good (f s) \<and> tbl (f s) = tbl s)"

definition deps_frame :: "('s \<Rightarrow> bool) \<Rightarrow> ('s \<Rightarrow> 'v) \<Rightarrow> ('s, 'k) token_deps \<Rightarrow> bool" where
  "deps_frame good tbl d \<longleftrightarrow>
     (\<forall>c ip. frames good tbl (\<lambda>s. snd (gi_Allow (td_limiter d) c ip s)) \<and>
        frames good tbl (gi_RecordFailure (td_limiter d) c ip) \<and> frames good tbl (gi_RecordSuccess (td_limiter d) c ip)) \<and>
     (\<forall>pw salt t m p k. frames good tbl (\<lambda>s. snd (cr_IDKey (td_crypto d) pw salt t m p k s))) \<and>
     (\<forall>n. frames good tbl (\<lambda>s. snd (cr_rand (td_crypto d) n s))) \<and>
     frames good tbl (\<lambda>s. snd (td_newUUID d s)) \<and>
     (\<forall>k h c. frames good tbl (\<lambda>s. snd (td_SignedString d k h c s)))"

lemma deps_frameD:
  assumes "deps_frame good tbl d" "good s"
  shows "gi_Allow (td_limiter d) c ip s = (x, s') \<Longrightarrow> good s' \<and> tbl s' = tbl s"
    and "good (gi_RecordFailure (td_limiter d) c ip s) \<and> tbl (gi_RecordFailure (td_limiter d) c ip s) = tbl s"
    and "good (gi_RecordSuccess (td_limiter d) c ip s) \<and> tbl (gi_RecordSuccess (td_limiter d) c ip s) = tbl s"
    and "cr_IDKey (td_crypto d) pw salt t m p k s = (h, s') \<Longrightarrow> good s' \<and> tbl s' = tbl s"
    and "cr_rand (td_crypto d) n s = (y, s') \<Longrightarrow> good s' \<and> tbl s' = tbl s"
    and "td_newUUID d s = (j, s') \<Longrightarrow> good s' \<and> tbl s' = tbl s"
    and "td_SignedString d pk hdr c2 s = (z, s') \<Longrightarrow> good s' \<and> tbl s' = tbl s"
  using assms unfolding deps_frame_def frames_def by (metis snd_conv)+

text \<open>The one change a token request may make to the client table.\<close>

definition rehashed ::
  "('s, 'k) token_deps \<Rightarrow> token_request \<Rightarrow> (string \<Rightarrow> client_record option) \<Rightarrow> (string \<Rightarrow> client_record option) \<Rightarrow> bool" where
  "rehashed d r t t' \<longleftrightarrow> (\<exists>cid sec rec h u. tq_basic r = Some (cid, sec) \<and> t cid = Some rec \<and> cl_Active rec \<and>
     fst (verifySecret (td_crypto d) sec (cl_SecretHash rec) u) \<and> needsRehash (cl_SecretHash rec) \<and>
     t' = t(cid \<mapsto> rec\<lparr>cl_SecretHash := h\<rparr>) \<and> (\<forall>v. fst (verifySecret (td_crypto d) sec h v)) \<and> \<not> needsRehash h)"

context client_store
begin

lemma verify_frame:
  "deps_frame inv tbl d \<Longrightarrow> inv s \<Longrightarrow> verifySecret (td_crypto d) sec h s = (b, s') \<Longrightarrow> inv s' \<and> tbl s' = tbl s"
  by (auto simp: verifySecret_def split: sum.splits prod.splits dest: deps_frameD(4))

lemma hash_frame:
  assumes "deps_frame inv tbl d" "inv s" "hashSecret (td_crypto d) sec s = (x, s')"
  shows "inv s' \<and> tbl s' = tbl s"
proof -
  obtain y s1 where r: "cr_rand (td_crypto d) argon2SaltLen s = (y, s1)" by fastforce
  have f: "inv s1" "tbl s1 = tbl s" using deps_frameD(5) [OF assms(1,2) r] by simp_all
  show ?thesis
  proof (cases y)
    case (Inl err)
    then show ?thesis using assms(3) r f by (simp add: hashSecret_def bindS_def map_errS_def)
  next
    case (Inr salt)
    then have "s' = snd (cr_IDKey (td_crypto d) sec salt (of_int argon2Time) (of_int argon2Memory)
        (of_int argon2Threads) (of_nat argon2KeyLen) s1)"
      using assms(3) r by (simp add: hashSecret_def bindS_def map_errS_def split: prod.splits)
    then show ?thesis using deps_frameD(4) [OF assms(1) f(1)] f(2) by (metis prod.collapse)
  qed
qed

lemma mint_frame:
  assumes "deps_frame inv tbl d" "inv s" "mint d cid rec s = (x, s')"
  shows "inv s' \<and> tbl s' = tbl s"
proof -
  obtain jti s1 where u: "td_newUUID d s = (jti, s1)" by fastforce
  have f: "inv s1" "tbl s1 = tbl s" using deps_frameD(6) [OF assms(1,2) u] by simp_all
  have "s' = snd (td_SignedString d (sk_Private (td_key d)) (token_header d) (token_claims d cid rec (td_now d s) jti) s1)"
    using assms(3) u by (simp add: mint_def split: prod.splits sum.splits)
  then show ?thesis using deps_frameD(7) [OF assms(1) f(1)] f(2) by (metis prod.collapse)
qed

lemma rehash_table:
  assumes "deps_frame inv tbl d" "argon2_ok f (td_crypto d)" "inv s" "rehash d st cid sec rec s = (x, s')"
  shows "inv s' \<and> (tbl s' = tbl s \<or> needsRehash (cl_SecretHash rec) \<and>
    (\<exists>h. tbl s' = (tbl s)(cid := map_option (\<lambda>rec. rec\<lparr>cl_SecretHash := h\<rparr>) (tbl s cid)) \<and>
       (\<forall>v. fst (verifySecret (td_crypto d) sec h v)) \<and> \<not> needsRehash h))"
proof (cases "needsRehash (cl_SecretHash rec)")
  case False
  then show ?thesis using assms(3,4) by (simp add: rehash_def)
next
  case True
  obtain y s1 where h: "hashSecret (td_crypto d) sec s = (y, s1)" by fastforce
  have f1: "inv s1" "tbl s1 = tbl s" using hash_frame [OF assms(1,3) h] by simp_all
  show ?thesis
  proof (cases y)
    case (Inl err)
    then show ?thesis using True h f1 assms(4) by (simp add: rehash_def catchS_def bindS_def)
  next
    case (Inr newHash)
    obtain z s2 where u: "cs_UpdateSecretHash st cid newHash s1 = (z, s2)" by fastforce
    have s2: "s' = s2" using True h Inr u assms(4) by (cases z) (simp_all add: rehash_def catchS_def bindS_def)
    have v: "fst (verifySecret (td_crypto d) sec newHash v)" "\<not> needsRehash newHash" for v
      using hashSecret_verifies [OF assms(2) h [unfolded Inr]] by simp_all
    show ?thesis
    proof (cases z)
      case (Inl err)
      show ?thesis using update_failed [OF f1(1) u [unfolded Inl]] update_inv [OF f1(1) u] f1 s2 by simp
    next
      case (Inr w)
      show ?thesis using update_ok [OF f1(1) u [unfolded Inr]] update_inv [OF f1(1) u] f1(2) s2 True v by auto
    qed
  qed
qed

lemma token_op_triple:
  assumes "deps_frame inv tbl d" "argon2_ok f (td_crypto d)" "td_store d = Some st"
  shows "triple (\<lambda>_ s. inv s \<and> (tbl s = T \<or> rehashed d r T (tbl s))) (\<lambda>s. inv s \<and> tbl s = T) (token_op d r)
    (\<lambda>_ s. inv s \<and> (tbl s = T \<or> rehashed d r T (tbl s)))"
proof -
  let ?E = "\<lambda>s. inv s \<and> (tbl s = T \<or> rehashed d r T (tbl s))" and ?P = "\<lambda>s. inv s \<and> tbl s = T"
  define cid where "cid = fst (case tq_basic r of None \<Rightarrow> ([], []) | Some p \<Rightarrow> p)"
  define sec where "sec = snd (case tq_basic r of None \<Rightarrow> ([], []) | Some p \<Rightarrow> p)"
  have p: "(case tq_basic r of None \<Rightarrow> ([], []) | Some p \<Rightarrow> p) = (cid, sec)" by (simp add: cid_def sec_def)
  have allow: "triple (\<lambda>_. ?E) ?P (gi_Allow (td_limiter d) c ip) (\<lambda>_. ?P)" for c ip
    by (rule tripleI) (use deps_frameD(1) [OF assms(1)] in \<open>metis+\<close>)
  have get: "triple (\<lambda>_. ?E) ?P (cs_Get st cid) (\<lambda>found s. ?P s \<and> (\<forall>rec. found = Some rec \<longrightarrow> T cid = Some rec))"
    by (rule tripleI) (use get_state get_record in metis)+
  have check: "triple (\<lambda>_. ?E) (\<lambda>s. ?P s \<and> (\<forall>rec. found = Some rec \<longrightarrow> T cid = Some rec)) (check_secret d found sec)
      (\<lambda>ok s. ?P s \<and> (\<forall>rec. found = Some rec \<longrightarrow> T cid = Some rec \<and>
         (ok \<longrightarrow> (\<exists>u. fst (verifySecret (td_crypto d) sec (cl_SecretHash rec) u)))))" for found
  proof (rule tripleI)
    fix s ok s'
    assume a: "?P s \<and> (\<forall>rec. found = Some rec \<longrightarrow> T cid = Some rec)" and c: "check_secret d found sec s = (Inr ok, s')"
    have "?P s'" using a c verify_frame [OF assms(1)] by (auto simp: check_secret_eq) (metis prod.collapse)+
    then show "?P s' \<and> (\<forall>rec. found = Some rec \<longrightarrow> T cid = Some rec \<and>
        (ok \<longrightarrow> (\<exists>u. fst (verifySecret (td_crypto d) sec (cl_SecretHash rec) u))))"
      using a c by (auto simp: check_secret_eq)
  qed (simp add: check_secret_eq)
  have quiet: "triple (\<lambda>_. ?E) ?E (mint d cid rec) (\<lambda>_. ?E)" for rec
    by (rule tripleI) (use mint_frame [OF assms(1)] in metis)+
  have re: "triple (\<lambda>_. ?E) (\<lambda>s. ?P s \<and> tq_basic r \<noteq> None \<and> T cid = Some rec \<and> cl_Active rec \<and>
      (\<exists>u. fst (verifySecret (td_crypto d) sec (cl_SecretHash rec) u))) (rehash d st cid sec rec) (\<lambda>_. ?E)" for rec
  proof -
    have "?E s'" if a: "?P s" "tq_basic r \<noteq> None" "T cid = Some rec" "cl_Active rec"
      "\<exists>u. fst (verifySecret (td_crypto d) sec (cl_SecretHash rec) u)" and x: "rehash d st cid sec rec s = (x, s')" for s x s'
    proof -
      have b: "tq_basic r = Some (cid, sec)" using a(2) p by auto
      show ?thesis
        using rehash_table [OF assms(1,2) _ x] a b unfolding rehashed_def by (auto simp: map_fun_upd)
    qed
    then show ?thesis by (intro tripleI) blast+
  qed
  show ?thesis
  proof (cases "tq_form r")
    case (Inl err)
    then show ?thesis by (simp add: token_op_def assms(3) triple_def)
  next
    case (Inr form)
    have refuse: "triple (\<lambda>_. ?E) Q (denyS (gi_RecordFailure (td_limiter d) cid ip) invalid_client) R" if "\<And>s. Q s \<Longrightarrow> ?P s" for Q R ip
      by (rule triple_denyS) (use that deps_frameD(2) [OF assms(1)] in metis)
    have issue: "triple (\<lambda>_. ?E) (\<lambda>s. ?P s \<and> tq_basic r \<noteq> None \<and> T cid = Some rec \<and> cl_Active rec \<and>
        (\<exists>u. fst (verifySecret (td_crypto d) sec (cl_SecretHash rec) u)))
      (bindS (execS (gi_RecordSuccess (td_limiter d) cid ip)) (\<lambda>_. bindS (rehash d st cid sec rec) (\<lambda>_.
         if b then failS e else mint d cid rec))) (\<lambda>_. ?E)" for rec b e ip
      by (rule triple_bindS [OF triple_execS triple_bindS [OF re triple_if [OF triple_failS quiet]]])
        (use deps_frameD(3) [OF assms(1)] in metis)+
    have decide: "triple (\<lambda>_. ?E) (\<lambda>s. ?P s \<and> (\<forall>rec. found = Some rec \<longrightarrow> T cid = Some rec \<and>
         (ok \<longrightarrow> (\<exists>u. fst (verifySecret (td_crypto d) sec (cl_SecretHash rec) u)))))
      (case found of
         None \<Rightarrow> denyS (gi_RecordFailure (td_limiter d) cid ip) invalid_client
       | Some rec \<Rightarrow>
           if \<not> ok \<or> \<not> cl_Active rec then denyS (gi_RecordFailure (td_limiter d) cid ip) invalid_client
           else bindS (execS (gi_RecordSuccess (td_limiter d) cid ip)) (\<lambda>_. bindS (rehash d st cid sec rec) (\<lambda>_.
             if b rec then failS e else mint d cid rec))) (\<lambda>_. ?E)"
      if n: "tq_basic r \<noteq> None" for found ok b e ip
    proof (cases found)
      case None
      then show ?thesis by simp (rule refuse, simp)
    next
      case (Some rec)
      show ?thesis
      proof (cases "ok \<and> cl_Active rec")
        case True
        then show ?thesis using Some issue [of rec ip "b rec" e] n by simp
      next
        case False
        then have "(\<not> ok \<or> \<not> cl_Active rec) = True" by auto
        then show ?thesis unfolding Some option.case by (simp only: if_True) (rule refuse, simp)
      qed
    qed
    show ?thesis
      unfolding token_op_def Let_def assms(3) Inr option.case sum.case p prod.case
      by (intro triple_if triple_bindS [OF triple_or_write [OF allow]]
          triple_bindS [OF triple_or_write [OF get] triple_bindS [OF check decide]] refuse triple_failS) auto
  qed
qed

end

end
