(* ===== verification/GrantLimiter.thy ===== *)
theory GrantLimiter
  imports GoErrors
begin

section \<open>internal/api/grantlimiter.go: failed-grant lockout with exponential backoff\<close>

text \<open>
  \<open>grant_limiter\<close> is \<open>InProcessGrantLimiter\<close>: two maps of \<open>grantBackoffState\<close>, the backoff
  constants, the alert threshold and, as the effect of \<open>alertFn\<close>, the list \<open>gl_alerts\<close> of the calls
  made to it. The Go shift of a \<open>time.Duration\<close> is written with its 64-bit wrap-around in
  \<open>grant_backoff\<close>; \<open>grant_backoff_exact\<close> says when the overflow guard makes it the intended
  \<open>min (base * 2 ^ (n - 1)) max\<close>.

  The locale \<open>lockout\<close> is the \<open>GrantLimiter\<close> interface as its callers use it; it is interpreted with
  the in-process limiter.
\<close>

record grant_state =
  consecutiveFailures :: int
  blockedUntil :: time
  alerted :: bool

record grant_limiter =
  byClientID :: "string \<rightharpoonup> grant_state"
  bySourceIP :: "string \<rightharpoonup> grant_state"
  baseBackoff :: duration
  maxBackoff :: duration
  alertThreshold :: int
  gl_alertFn :: bool
  gl_alerts :: "(string \<times> int) list"
  gl_lastSweep :: time

definition grantSweepInterval :: duration where "grantSweepInterval = minute"
definition grantEntryTTL :: duration where "grantEntryTTL = hour"

definition NewInProcessGrantLimiter :: "duration \<Rightarrow> duration \<Rightarrow> int \<Rightarrow> bool \<Rightarrow> grant_limiter" where
  "NewInProcessGrantLimiter base maxb threshold has_alert =
     \<lparr>byClientID = Map.empty, bySourceIP = Map.empty, baseBackoff = base, maxBackoff = maxb,
      alertThreshold = threshold, gl_alertFn = has_alert, gl_alerts = [], gl_lastSweep = 0\<rparr>"

definition isBlocked :: "grant_state option \<Rightarrow> time \<Rightarrow> bool" where
  "isBlocked s now = (case s of None \<Rightarrow> False | Some g \<Rightarrow> now < blockedUntil g)"

definition gl_sweepMap :: "time \<Rightarrow> (string \<rightharpoonup> grant_state) \<Rightarrow> (string \<rightharpoonup> grant_state)" where
  "gl_sweepMap now m = sweep_map (\<lambda>g. grantEntryTTL \<le> time_sub now (blockedUntil g)) m"

definition gl_sweep :: "time \<Rightarrow> grant_limiter \<Rightarrow> grant_limiter" where
  "gl_sweep now l =
     (if time_sub now (gl_lastSweep l) < grantSweepInterval then l
      else l\<lparr>gl_lastSweep := now, byClientID := gl_sweepMap now (byClientID l),
             bySourceIP := gl_sweepMap now (bySourceIP l)\<rparr>)"

definition gl_allow :: "time \<Rightarrow> string \<Rightarrow> string \<Rightarrow> grant_limiter \<Rightarrow> bool \<times> grant_limiter" where
  "gl_allow now clientID sourceIP l =
     (let l' = gl_sweep now l in
      (\<not> isBlocked (byClientID l' clientID) now \<and> \<not> isBlocked (bySourceIP l' sourceIP) now, l'))"

definition grant_backoff :: "duration \<Rightarrow> duration \<Rightarrow> int \<Rightarrow> duration" where
  "grant_backoff base maxb n =
     (let backoff = wrap64 (base * 2 ^ nat (n - 1))
      in if maxb < backoff \<or> backoff \<le> 0 then maxb else backoff)"

definition gl_advance ::
  "duration \<Rightarrow> duration \<Rightarrow> (string \<rightharpoonup> grant_state) \<Rightarrow> string \<Rightarrow> time \<Rightarrow> grant_state \<times> (string \<rightharpoonup> grant_state)" where
  "gl_advance base maxb m key now =
     (let s = (case m key of
                 None \<Rightarrow> \<lparr>consecutiveFailures = 0, blockedUntil = 0, alerted = False\<rparr>
               | Some s \<Rightarrow> s);
          n = consecutiveFailures s + 1;
          s' = s\<lparr>consecutiveFailures := n, blockedUntil := now + grant_backoff base maxb n\<rparr>
      in (s', m(key \<mapsto> s')))"

definition gl_recordFailure :: "time \<Rightarrow> string \<Rightarrow> string \<Rightarrow> grant_limiter \<Rightarrow> grant_limiter" where
  "gl_recordFailure now clientID sourceIP l =
     (let (cs, mc) = gl_advance (baseBackoff l) (maxBackoff l) (byClientID l) clientID now;
          (is, mi) = gl_advance (baseBackoff l) (maxBackoff l) (bySourceIP l) sourceIP now;
          l1 = l\<lparr>byClientID := mc, bySourceIP := mi\<rparr>
      in if alertThreshold l \<le> consecutiveFailures cs \<and> \<not> alerted cs
         then l1\<lparr>byClientID := mc(clientID \<mapsto> cs\<lparr>alerted := True\<rparr>),
                 gl_alerts := gl_alerts l
                   @ (if gl_alertFn l then [(clientID, consecutiveFailures cs)] else [])\<rparr>
         else l1)"

definition gl_recordSuccess :: "string \<Rightarrow> string \<Rightarrow> grant_limiter \<Rightarrow> grant_limiter" where
  "gl_recordSuccess clientID sourceIP l =
     l\<lparr>byClientID := (byClientID l)(clientID := None), bySourceIP := (bySourceIP l)(sourceIP := None)\<rparr>"

subsection \<open>The overflow guard\<close>

text \<open>
  The guard catches a wrapped shift that is zero, negative or above the maximum. A wrapped shift is a
  multiple of \<open>2 ^ (64 - b + e)\<close> when \<open>base < 2 ^ b\<close> and \<open>2 ^ e\<close> divides \<open>base\<close>, so a maximum below
  that is enough for the guard to catch every overflow.
\<close>

definition backoff_guard_ok :: "nat \<Rightarrow> nat \<Rightarrow> duration \<Rightarrow> duration \<Rightarrow> bool" where
  "backoff_guard_ok b e base maxb \<longleftrightarrow>
     0 < base \<and> base < 2 ^ b \<and> b \<le> 63 \<and> 2 ^ e dvd base \<and> base \<le> maxb \<and> maxb < 2 ^ (64 - b + e) \<and> maxb < 2 ^ 63"

lemma wrapped_multiple:
  assumes "(2::int) ^ m dvd x" "m \<le> 64" "0 < wrap64 x"
  shows "2 ^ m \<le> wrap64 x"
proof -
  obtain q where q: "wrap64 x = x + q * 2 ^ 64" using wrap64_cong by blast
  have "(2::int) ^ m dvd 2 ^ 64" using assms(2) by (rule le_imp_power_dvd)
  then have "2 ^ m dvd wrap64 x" using assms(1) by (simp add: q)
  then show ?thesis using assms(3) by (rule zdvd_imp_le)
qed

lemma wrap64_zero: "(2::int) ^ 64 dvd x \<Longrightarrow> wrap64 x = 0"
proof -
  assume d: "(2::int) ^ 64 dvd x"
  obtain q where q: "wrap64 x = x + q * 2 ^ 64" using wrap64_cong by blast
  have d': "2 ^ 64 dvd wrap64 x" using d by (simp add: q)
  have "\<bar>wrap64 x\<bar> < 2 ^ 64" using wrap64_range [of x] by auto
  then show ?thesis using d' zdvd_imp_le [of "2 ^ 64" "\<bar>wrap64 x\<bar>"] by fastforce
qed

lemma grant_backoff_eq:
  assumes "backoff_guard_ok b e base maxb" and "1 \<le> n"
  shows "grant_backoff base maxb n = min (base * 2 ^ nat (n - 1)) maxb"
proof -
  note a = assms(1) [unfolded backoff_guard_ok_def]
  let ?k = "nat (n - 1)" and ?x = "base * 2 ^ nat (n - 1)"
  have pos: "0 < ?x" using a by simp
  show ?thesis
  proof (cases "?x < 2 ^ 63")
    case True
    then have "wrap64 ?x = ?x" using pos by (intro wrap64_id) auto
    then show ?thesis using pos by (auto simp: grant_backoff_def Let_def)
  next
    case False
    then have big: "2 ^ 63 \<le> ?x" by simp
    have "(2::int) ^ 63 < 2 ^ b * 2 ^ ?k"
    proof -
      have "?x < 2 ^ b * 2 ^ ?k" using a by (intro mult_strict_right_mono) auto
      then show ?thesis using big by linarith
    qed
    then have "(2::int) ^ 63 < 2 ^ (b + ?k)" by (simp only: power_add)
    then have bk: "63 < b + ?k" by (rule power_less_imp_less_exp [rotated]) simp
    have dvd: "2 ^ (e + ?k) dvd ?x" using a by (simp add: power_add)
    have mx: "maxb < ?x" using big a by linarith
    have "wrap64 ?x \<le> 0 \<or> maxb < wrap64 ?x"
    proof (cases "e + ?k \<le> 64")
      case True
      have "maxb < 2 ^ (64 - b + e)" using a by blast
      also have "\<dots> \<le> 2 ^ (e + ?k)" using bk by (intro power_increasing) auto
      finally show ?thesis using wrapped_multiple [OF dvd True] by linarith
    next
      case False
      then have "2 ^ 64 dvd ?x" using dvd by (meson dvd_trans le_imp_power_dvd nat_le_linear)
      then show ?thesis using wrap64_zero by simp
    qed
    then show ?thesis using mx by (auto simp: grant_backoff_def Let_def)
  qed
qed

subsection \<open>Lockout\<close>

lemma gl_sweepMap_isBlocked:
  assumes "now \<le> now'"
  shows "isBlocked (gl_sweepMap now m k) now' \<longleftrightarrow> isBlocked (m k) now'"
  using assms
  by (auto simp: isBlocked_def gl_sweepMap_def sweep_map_def grantEntryTTL_def time_sub_ge_iff
      max_duration_def min_duration_def hour_def split: option.splits)

definition gl_blocked :: "time \<Rightarrow> string \<times> string \<Rightarrow> grant_limiter \<Rightarrow> bool" where
  "gl_blocked now k l \<longleftrightarrow> isBlocked (byClientID l (fst k)) now \<or> isBlocked (bySourceIP l (snd k)) now"

text \<open>The sweep inside \<open>Allow\<close> forgets counts, never a lockout that is still running.\<close>

lemma gl_sweep_blocked: "now \<le> now' \<Longrightarrow> gl_blocked now' k (gl_sweep now l) \<longleftrightarrow> gl_blocked now' k l"
  by (simp add: gl_blocked_def gl_sweep_def gl_sweepMap_isBlocked)

lemma gl_allow_iff: "fst (gl_allow now c ip l) \<longleftrightarrow> \<not> gl_blocked now (c, ip) l"
  using gl_sweep_blocked [of now now "(c, ip)" l]
  by (auto simp: gl_allow_def Let_def gl_blocked_def)

definition failures :: "(string \<rightharpoonup> grant_state) \<Rightarrow> string \<Rightarrow> int" where
  "failures m k = (case m k of None \<Rightarrow> 0 | Some g \<Rightarrow> consecutiveFailures g)"

lemma gl_advance_simps:
  "consecutiveFailures (fst (gl_advance b mx m k now)) = failures m k + 1"
  "blockedUntil (fst (gl_advance b mx m k now)) = now + grant_backoff b mx (failures m k + 1)"
  "alerted (fst (gl_advance b mx m k now)) = (case m k of None \<Rightarrow> False | Some g \<Rightarrow> alerted g)"
  "snd (gl_advance b mx m k now) = m(k \<mapsto> fst (gl_advance b mx m k now))"
  by (simp_all add: gl_advance_def failures_def Let_def split: option.splits)

lemma gl_recordFailure_maps:
  "bySourceIP (gl_recordFailure now c ip l) =
     (bySourceIP l)(ip \<mapsto> fst (gl_advance (baseBackoff l) (maxBackoff l) (bySourceIP l) ip now))"
  "x \<noteq> c \<Longrightarrow> byClientID (gl_recordFailure now c ip l) x = byClientID l x"
  "\<exists>g. byClientID (gl_recordFailure now c ip l) c = Some g
     \<and> consecutiveFailures g = failures (byClientID l) c + 1
     \<and> blockedUntil g = now + grant_backoff (baseBackoff l) (maxBackoff l) (failures (byClientID l) c + 1)"
  "baseBackoff (gl_recordFailure now c ip l) = baseBackoff l"
  "maxBackoff (gl_recordFailure now c ip l) = maxBackoff l"
  "alertThreshold (gl_recordFailure now c ip l) = alertThreshold l"
  "gl_alertFn (gl_recordFailure now c ip l) = gl_alertFn l"
  by (simp_all add: gl_recordFailure_def Let_def case_prod_beta gl_advance_simps)

lemma gl_recordFailure_failures:
  "failures (byClientID (gl_recordFailure now c ip l)) x = failures (byClientID l) x + (if x = c then 1 else 0)"
  "failures (bySourceIP (gl_recordFailure now c ip l)) x = failures (bySourceIP l) x + (if x = ip then 1 else 0)"
  by (auto simp: gl_recordFailure_def gl_advance_def failures_def Let_def split: option.splits)

lemma gl_recordFailure_blocked_client:
  "isBlocked (byClientID (gl_recordFailure now c ip l) c) t \<longleftrightarrow>
     t < now + grant_backoff (baseBackoff l) (maxBackoff l) (failures (byClientID l) c + 1)"
  using gl_recordFailure_maps(3) [of now c ip l] by (auto simp: isBlocked_def)

lemma gl_recordFailure_blocked_ip:
  "isBlocked (bySourceIP (gl_recordFailure now c ip l) ip) t \<longleftrightarrow>
     t < now + grant_backoff (baseBackoff l) (maxBackoff l) (failures (bySourceIP l) ip + 1)"
  by (simp add: isBlocked_def gl_recordFailure_maps gl_advance_simps)

text \<open>A sequence of \<open>Allow\<close> calls, their answers ignored.\<close>

fun poll :: "(time \<Rightarrow> 'k \<Rightarrow> 's \<Rightarrow> bool \<times> 's) \<Rightarrow> (time \<times> 'k) list \<Rightarrow> 's \<Rightarrow> 's" where
  "poll allow [] s = s"
| "poll allow ((now, k) # ks) s = poll allow ks (snd (allow now k s))"

locale lockout =
  fixes allow :: "time \<Rightarrow> 'k \<Rightarrow> 's \<Rightarrow> bool \<times> 's"
    and failure :: "time \<Rightarrow> 'k \<Rightarrow> 's \<Rightarrow> 's"
    and success :: "'k \<Rightarrow> 's \<Rightarrow> 's"
    and blocked :: "time \<Rightarrow> 'k \<Rightarrow> 's \<Rightarrow> bool"
  assumes allow_iff: "fst (allow now k s) \<longleftrightarrow> \<not> blocked now k s"
    and allow_keeps: "now \<le> t \<Longrightarrow> blocked t j (snd (allow now k s)) \<longleftrightarrow> blocked t j s"
    and success_clears: "\<not> blocked t k (success k s)"
    and blocked_ends: "blocked t k s \<Longrightarrow> u \<le> t \<Longrightarrow> blocked u k s"
begin

text \<open>A client may ask as often as it likes: asking neither extends nor shortens a lockout.\<close>

lemma poll_blocked:
  "\<forall>(now, _) \<in> set ks. now \<le> t \<Longrightarrow> blocked t j (poll allow ks s) \<longleftrightarrow> blocked t j s"
proof (induction ks arbitrary: s)
  case (Cons a ks)
  then show ?case by (cases a) (simp add: allow_keeps)
qed simp

lemma poll_allow:
  "\<forall>(now, _) \<in> set ks. now \<le> t \<Longrightarrow> fst (allow t j (poll allow ks s)) \<longleftrightarrow> fst (allow t j s)"
  by (simp add: allow_iff poll_blocked)

lemma success_allows: "fst (allow t k (success k s))"
  by (simp add: allow_iff success_clears)

lemma allowed_stays: "fst (allow t k s) \<Longrightarrow> t \<le> u \<Longrightarrow> fst (allow u k s)"
  using blocked_ends by (auto simp: allow_iff)

end

interpretation gl: lockout "\<lambda>now (c, ip). gl_allow now c ip"
  "\<lambda>now (c, ip). gl_recordFailure now c ip" "\<lambda>(c, ip). gl_recordSuccess c ip" gl_blocked
proof unfold_locales
  fix now t u :: time and k j :: "string \<times> string" and l :: grant_limiter
  show "fst ((case k of (c, ip) \<Rightarrow> gl_allow now c ip) l) \<longleftrightarrow> \<not> gl_blocked now k l"
    by (cases k) (simp add: gl_allow_iff)
  show "gl_blocked t k l \<Longrightarrow> u \<le> t \<Longrightarrow> gl_blocked u k l"
    by (auto simp: gl_blocked_def isBlocked_def split: option.splits)
  show "\<not> gl_blocked t k ((case k of (c, ip) \<Rightarrow> gl_recordSuccess c ip) l)"
    by (cases k) (simp add: gl_blocked_def gl_recordSuccess_def isBlocked_def)
  assume "now \<le> t"
  then show "gl_blocked t j (snd ((case k of (c, ip) \<Rightarrow> gl_allow now c ip) l)) \<longleftrightarrow> gl_blocked t j l"
    by (cases k) (simp add: gl_allow_def Let_def gl_sweep_blocked)
qed

lemma gl_after_failure:
  assumes "backoff_guard_ok b e (baseBackoff l) (maxBackoff l)"
    and "0 \<le> failures (byClientID l) c" and "0 \<le> failures (bySourceIP l) ip"
  shows "gl_blocked t (c, ip) (gl_recordFailure now c ip l) \<longleftrightarrow>
    t < now + min (baseBackoff l * 2 ^ nat (max (failures (byClientID l) c) (failures (bySourceIP l) ip)))
              (maxBackoff l)"
proof -
  let ?b = "\<lambda>n. min (baseBackoff l * 2 ^ nat n) (maxBackoff l)"
  let ?m = "failures (byClientID l) c" and ?n = "failures (bySourceIP l) ip"
  have mono: "?b i \<le> ?b j" if "i \<le> j" for i j
  proof -
    have "(2::int) ^ nat i \<le> 2 ^ nat j" using that by (intro power_increasing) auto
    then have "baseBackoff l * 2 ^ nat i \<le> baseBackoff l * 2 ^ nat j"
      using assms(1) by (intro mult_left_mono) (simp_all add: backoff_guard_ok_def)
    then show ?thesis by linarith
  qed
  have "gl_blocked t (c, ip) (gl_recordFailure now c ip l) \<longleftrightarrow> t < now + ?b ?m \<or> t < now + ?b ?n"
    using assms(2,3) grant_backoff_eq [OF assms(1)]
    by (simp add: gl_blocked_def gl_recordFailure_blocked_client gl_recordFailure_blocked_ip)
  also have "\<dots> \<longleftrightarrow> t < now + ?b (max ?m ?n)"
    using mono [of ?m ?n] mono [of ?n ?m] by (cases "?m \<le> ?n") (auto simp: max_def)
  finally show ?thesis .
qed

subsection \<open>Properties\<close>

text \<open>
  After a failed grant the pair (client, source address) is denied for exactly
  \<open>min (base * 2 ^ n) max\<close>, where \<open>n\<close> is the larger of the two keys' failure counts before it: the
  shift's overflow guard never shortens or lengthens the lockout, and no sequence of further
  attempts (for any keys) in between changes it.
\<close>
theorem grant_backoff_exact:
  assumes "backoff_guard_ok b e (baseBackoff l) (maxBackoff l)"
    and "0 \<le> failures (byClientID l) c" and "0 \<le> failures (bySourceIP l) ip"
    and "\<forall>(u, _) \<in> set ks. u \<le> t"
  shows "fst (gl_allow t c ip (poll (\<lambda>now (c, ip). gl_allow now c ip) ks (gl_recordFailure now c ip l)))
    \<longleftrightarrow> now + min (baseBackoff l * 2 ^ nat (max (failures (byClientID l) c) (failures (bySourceIP l) ip)))
              (maxBackoff l) \<le> t"
  using gl.poll_allow [OF assms(4), of "(c, ip)" "gl_recordFailure now c ip l"]
    gl_after_failure [OF assms(1-3), of t now] by (auto simp: gl_allow_iff)

text \<open>The constants the program uses: 1s/5min, and 5s/10min for the overflow bucket.\<close>

lemma deployed_backoff_ok:
  "backoff_guard_ok 30 9 second (5 * minute)"
  "backoff_guard_ok 33 9 (5 * second) (10 * minute)"
  by (simp_all add: backoff_guard_ok_def time_simps)

theorem grant_backoff_exact_witness:
  "\<not> fst (gl_allow 2999999999 ''c'' ''1.2.3.4'' (poll (\<lambda>now (c, ip). gl_allow now c ip)
       [(1500000000, (''c'', ''9.9.9.9''))]
       (gl_recordFailure 1000000000 ''c'' ''1.2.3.4''
         (gl_recordFailure 0 ''c'' ''4.3.2.1'' (NewInProcessGrantLimiter second (5 * minute) 10 True)))))"
proof -
  let ?l = "gl_recordFailure 0 ''c'' ''4.3.2.1'' (NewInProcessGrantLimiter second (5 * minute) 10 True)"
  have k: "baseBackoff ?l = second" "maxBackoff ?l = 5 * minute" "failures (byClientID ?l) ''c'' = 1"
    "failures (bySourceIP ?l) ''1.2.3.4'' = 0"
    by (simp_all add: NewInProcessGrantLimiter_def gl_recordFailure_def gl_advance_def Let_def failures_def)
  have "fst (gl_allow 2999999999 ''c'' ''1.2.3.4'' (poll (\<lambda>now (c, ip). gl_allow now c ip)
       [(1500000000, (''c'', ''9.9.9.9''))] (gl_recordFailure 1000000000 ''c'' ''1.2.3.4'' ?l))) \<longleftrightarrow>
     1000000000 + min (baseBackoff ?l * 2 ^ nat (max (failures (byClientID ?l) ''c'')
       (failures (bySourceIP ?l) ''1.2.3.4''))) (maxBackoff ?l) \<le> 2999999999"
    by (rule grant_backoff_exact [where b = 30 and e = 9])
      (simp_all add: k deployed_backoff_ok)
  then show ?thesis unfolding k by (simp add: second_def minute_def)
qed

text \<open>The guard is not sound for every pair of constants: a shift can wrap to a small positive value.\<close>

lemma grant_backoff_wraps: "grant_backoff (2 ^ 40 + 1) (2 ^ 41) 25 = 2 ^ 24"
  by (simp add: grant_backoff_def wrap64_def signed_take_bit_eq_take_bit_shift take_bit_eq_mod)

text \<open>Failures only (no sweep runs in \<open>RecordFailure\<close>), for any clients and addresses.\<close>

fun fail_run :: "(time \<times> string \<times> string) list \<Rightarrow> grant_limiter \<Rightarrow> grant_limiter" where
  "fail_run [] l = l"
| "fail_run ((now, c, ip) # es) l = fail_run es (gl_recordFailure now c ip l)"

definition alerts_for :: "string \<Rightarrow> grant_limiter \<Rightarrow> (string \<times> int) list" where
  "alerts_for c l = filter (\<lambda>(x, _). x = c) (gl_alerts l)"

definition alert_inv :: "string \<Rightarrow> int \<Rightarrow> int \<Rightarrow> grant_limiter \<Rightarrow> bool" where
  "alert_inv c th n l \<longleftrightarrow> gl_alertFn l \<and> alertThreshold l = th \<and> 1 \<le> th \<and> 0 \<le> n \<and>
     failures (byClientID l) c = n \<and>
     (case byClientID l c of None \<Rightarrow> n = 0 | Some g \<Rightarrow> alerted g = (th \<le> n)) \<and>
     alerts_for c l = (if th \<le> n then [(c, th)] else [])"

lemma alert_inv_step:
  assumes "alert_inv c th n l"
  shows "alert_inv c th (n + (if x = c then 1 else 0)) (gl_recordFailure now x ip l)"
  using assms
  by (auto simp: alert_inv_def gl_recordFailure_def gl_advance_def alerts_for_def failures_def Let_def
      split: option.splits if_splits)

lemma alert_inv_run:
  "alert_inv c th n l \<Longrightarrow>
     alert_inv c th (n + int (length (filter (\<lambda>(_, x, _). x = c) es))) (fail_run es l)"
proof (induction es arbitrary: n l)
  case (Cons a es)
  obtain now x ip where a: "a = (now, x, ip)" by (cases a)
  show ?case
    using Cons.IH [OF alert_inv_step [OF Cons.prems, of x now ip]]
    by (simp add: a algebra_simps split: if_splits)
qed simp

text \<open>
  A run of failed grants raises exactly one alert for a client, at the moment its consecutive
  failures reach the threshold and with that count, and none below the threshold.
\<close>
theorem grant_alert_once:
  assumes "1 \<le> th"
  shows "alerts_for c (fail_run es (NewInProcessGrantLimiter base maxb th True)) =
    (if th \<le> int (length (filter (\<lambda>(_, x, _). x = c) es)) then [(c, th)] else [])"
proof -
  have "alert_inv c th 0 (NewInProcessGrantLimiter base maxb th True)"
    using assms by (simp add: alert_inv_def NewInProcessGrantLimiter_def alerts_for_def failures_def)
  from alert_inv_run [OF this, of es] show ?thesis by (simp add: alert_inv_def)
qed

theorem grant_alert_once_witness:
  "alerts_for ''c'' (fail_run [(1, ''c'', ''i''), (2, ''d'', ''i''), (3, ''c'', ''j''), (4, ''c'', ''i'')]
     (NewInProcessGrantLimiter second (5 * minute) 2 True)) = [(''c'', 2)]"
  by (subst grant_alert_once) simp_all

end
