(* ===== verification/Issuer.thy ===== *)
theory Issuer
  imports TokenSpec GrantLimiter
begin

section \<open>internal/app/issuer_router.go: the issuer assembled\<close>

text \<open>
  The token handler over the components \<open>NewIssuerRouter\<close> gives it: the PostgreSQL client store, the in-process
  grant limiter with its constants, and the libraries as functions. The state of the process is one record: the
  client table, the limiter, the clock, and how often Argon2id ran and random bytes were drawn.
\<close>

record issuer_world =
  iw_db :: issuer_store
  iw_limiter :: grant_limiter
  iw_now :: time
  iw_hashes :: nat
  iw_draws :: nat

record 'k issuer_lib =
  il_argon2 :: "string \<Rightarrow> string \<Rightarrow> 32 word \<Rightarrow> 32 word \<Rightarrow> 8 word \<Rightarrow> 32 word \<Rightarrow> string"
  il_rand :: "nat \<Rightarrow> nat \<Rightarrow> goerr + string"
  il_uuid :: "nat \<Rightarrow> string"
  il_sign :: "'k rsa_private_key \<Rightarrow> jwt_header \<Rightarrow> jwt_claims \<Rightarrow> goerr + string"

definition grantLimiterBaseBackoff :: duration where "grantLimiterBaseBackoff = 1 * second"
definition grantLimiterMaxBackoff :: duration where "grantLimiterMaxBackoff = 5 * minute"
definition grantLimiterAlertThreshold :: int where "grantLimiterAlertThreshold = 5"

definition issuer_limiter :: grant_limiter where
  "issuer_limiter = NewInProcessGrantLimiter grantLimiterBaseBackoff grantLimiterMaxBackoff grantLimiterAlertThreshold True"

definition on_db :: "(issuer_store, 'e, 'a) op \<Rightarrow> (issuer_world, 'e, 'a) op" where
  "on_db m w = (case m (iw_db w) of (x, db) \<Rightarrow> (x, w\<lparr>iw_db := db\<rparr>))"

definition issuer_clients :: "(nat \<Rightarrow> goerr option) \<Rightarrow> issuer_world client_store" where
  "issuer_clients fault = \<lparr>cs_Get = (\<lambda>c. on_db (cs_Get (PostgresClientStore fault) c)),
     cs_UpdateSecretHash = (\<lambda>c h. on_db (cs_UpdateSecretHash (PostgresClientStore fault) c h))\<rparr>"

definition issuer_grants :: "issuer_world grant_iface" where
  "issuer_grants = \<lparr>gi_Allow = (\<lambda>c ip w. case gl_allow (iw_now w) c ip (iw_limiter w) of
       (ok, l) \<Rightarrow> (Inr ok, w\<lparr>iw_limiter := l\<rparr>)),
     gi_RecordFailure = (\<lambda>c ip w. w\<lparr>iw_limiter := gl_recordFailure (iw_now w) c ip (iw_limiter w)\<rparr>),
     gi_RecordSuccess = (\<lambda>c ip w. w\<lparr>iw_limiter := gl_recordSuccess c ip (iw_limiter w)\<rparr>)\<rparr>"

definition issuer_crypto :: "'k issuer_lib \<Rightarrow> issuer_world crypto" where
  "issuer_crypto lib = \<lparr>cr_IDKey = (\<lambda>pw salt t m p k w. (il_argon2 lib pw salt t m p k, w\<lparr>iw_hashes := Suc (iw_hashes w)\<rparr>)),
     cr_rand = (\<lambda>n w. (il_rand lib (iw_draws w) n, w\<lparr>iw_draws := Suc (iw_draws w)\<rparr>))\<rparr>"

text \<open>\<open>issuerDB\<close> is \<open>None\<close> when the database was never configured: the store is the nil interface.\<close>

definition issuer_deps ::
  "'k issuer_lib \<Rightarrow> (nat \<Rightarrow> goerr option) option \<Rightarrow> 'k signing_key \<Rightarrow> string \<Rightarrow> string \<Rightarrow> (issuer_world, 'k) token_deps" where
  "issuer_deps lib issuerDB key issuer dummy =
     \<lparr>td_store = map_option issuer_clients issuerDB, td_limiter = issuer_grants, td_key = key, td_issuer = issuer,
      td_crypto = issuer_crypto lib, td_dummyHash = dummy, td_now = iw_now,
      td_newUUID = (\<lambda>w. (il_uuid lib (iw_draws w), w\<lparr>iw_draws := Suc (iw_draws w)\<rparr>)),
      td_NumericDate = (\<lambda>t. second * (t div second)),
      td_SignedString = (\<lambda>k h c w. (il_sign lib k h c, w))\<rparr>"

lemma issuer_deps_simps [simp]:
  "td_store (issuer_deps lib db key iss dummy) = map_option issuer_clients db"
  "td_limiter (issuer_deps lib db key iss dummy) = issuer_grants"
  "td_crypto (issuer_deps lib db key iss dummy) = issuer_crypto lib"
  "td_key (issuer_deps lib db key iss dummy) = key"
  "td_issuer (issuer_deps lib db key iss dummy) = iss"
  "td_dummyHash (issuer_deps lib db key iss dummy) = dummy"
  by (simp_all add: issuer_deps_def)

lemma issuer_crypto_ok: "(\<And>pw salt t m p k. length (il_argon2 lib pw salt t m p k) = unat k) \<Longrightarrow>
    argon2_ok (il_argon2 lib) (issuer_crypto lib)"
  by (simp add: argon2_ok_def issuer_crypto_def)

definition clients_at :: "time \<Rightarrow> issuer_world \<Rightarrow> bool" where
  "clients_at now w \<longleftrightarrow> unique_clients (iw_db w) \<and> iw_now w = now"

lemma issuer_frame: "deps_frame (clients_at now) (clients \<circ> iw_db) (issuer_deps lib db key iss dummy)"
  by (simp add: deps_frame_def clients_at_def frames_def issuer_grants_def issuer_crypto_def issuer_deps_def split: prod.splits)

interpretation issuer_store: client_store "issuer_clients fault" "clients \<circ> iw_db" "clients_at now" for fault now
proof unfold_locales
  fix now :: time and w w' :: issuer_world and cid h :: string
  note on = issuer_clients_def on_db_def clients_at_def
  show "clients_at now w' \<and> (clients \<circ> iw_db) w' = (clients \<circ> iw_db) w"
    if "clients_at now w" "cs_Get (issuer_clients fault) cid w = (r, w')" for r
    using that pg_clients.get_state [of "iw_db w"] by (auto simp: on split: prod.splits)
  show "(clients \<circ> iw_db) w cid = Some rec"
    if "clients_at now w" "cs_Get (issuer_clients fault) cid w = (Inr (Some rec), w')" for rec
    using that pg_clients.get_record [of "iw_db w"] by (auto simp: on split: prod.splits)
  show "clients_at now w'"
    if "clients_at now w" "cs_UpdateSecretHash (issuer_clients fault) cid h w = (x, w')" for x
    using that pg_clients.update_inv [of "iw_db w"] by (auto simp: on split: prod.splits)
  show "(clients \<circ> iw_db) w' =
      ((clients \<circ> iw_db) w)(cid := map_option (\<lambda>rec. rec\<lparr>cl_SecretHash := h\<rparr>) ((clients \<circ> iw_db) w cid))"
    if "clients_at now w" "cs_UpdateSecretHash (issuer_clients fault) cid h w = (Inr u, w')" for u
    using that pg_clients.update_ok [of "iw_db w"] by (auto simp: on split: prod.splits)
  show "(clients \<circ> iw_db) w' = (clients \<circ> iw_db) w"
    if "clients_at now w" "cs_UpdateSecretHash (issuer_clients fault) cid h w = (Inl err, w')" for err
    using that pg_clients.update_failed [of "iw_db w"] by (auto simp: on split: prod.splits)
qed

subsection \<open>Rehashing\<close>

lemma issuer_table:
  assumes "\<forall>pw salt t m p k. length (il_argon2 lib pw salt t m p k) = unat k" "unique_clients (iw_db w)"
    and "NewTokenHandler (issuer_deps lib db key iss dummy) r w = (resp, w')"
  shows "unique_clients (iw_db w') \<and> (clients (iw_db w') = clients (iw_db w) \<or>
    rehashed (issuer_deps lib db key iss dummy) r (clients (iw_db w)) (clients (iw_db w')))"
proof (cases db)
  case None
  then have "w' = w" using assms(3) by (simp add: NewTokenHandler_def token_op_def run_handler_def)
  then show ?thesis using assms(2) by simp
next
  case (Some fault)
  have "argon2_ok (il_argon2 lib) (td_crypto (issuer_deps lib db key iss dummy))"
    using assms(1) by (simp add: issuer_crypto_ok)
  from triple_run [OF issuer_store.token_op_triple [OF issuer_frame this], of fault "iw_now w" w "clients (iw_db w)"]
  show ?thesis using assms(2,3) Some by (simp add: NewTokenHandler_def clients_at_def)
qed

text \<open>
  C8. A token request never changes who can log in: whatever it answers, the client table stays as it was, except
  that the hash of the one active client that just proved its secret may be replaced by one that verifies that very
  secret and needs no further rehash. Names, scopes, audiences and states of all clients stay.
\<close>
theorem rehash_keeps_credentials:
  assumes "\<forall>pw salt t m p k. length (il_argon2 lib pw salt t m p k) = unat k" "unique_clients (iw_db w)"
    and "NewTokenHandler (issuer_deps lib db key iss dummy) r w = (resp, w')"
  shows "unique_clients (iw_db w') \<and> (clients (iw_db w') = clients (iw_db w) \<or>
    rehashed (issuer_deps lib db key iss dummy) r (clients (iw_db w)) (clients (iw_db w')))"
  using assms by (rule issuer_table)

subsection \<open>Lockout\<close>

definition basic_client :: "token_request \<Rightarrow> string" where
  "basic_client r = (case tq_basic r of None \<Rightarrow> [] | Some p \<Rightarrow> fst p)"

lemma failed_grant:
  assumes "NewTokenHandler (issuer_deps lib (Some fault) key iss dummy) r w = (invalid_client, w1)"
  shows "iw_now w1 = iw_now w \<and>
    iw_limiter w1 = gl_recordFailure (iw_now w) (basic_client r) (sourceIPFrom (tq_remote r))
      (snd (gl_allow (iw_now w) (basic_client r) (sourceIPFrom (tq_remote r)) (iw_limiter w)))"
proof -
  let ?D = "issuer_deps lib (Some fault) key iss dummy" and ?ip = "sourceIPFrom (tq_remote r)"
  define cid where "cid = basic_client r"
  define sec where "sec = (case tq_basic r of None \<Rightarrow> [] | Some p \<Rightarrow> snd p)"
  let ?L = "snd (gl_allow (iw_now w) cid ?ip (iw_limiter w))"
  let ?P = "\<lambda>v. iw_now v = iw_now w \<and> iw_limiter v = ?L"
  let ?E = "\<lambda>resp v. resp = invalid_client \<longrightarrow>
    iw_now v = iw_now w \<and> iw_limiter v = gl_recordFailure (iw_now w) cid ?ip ?L"
  have p: "(case tq_basic r of None \<Rightarrow> ([], []) | Some p \<Rightarrow> p) = (cid, sec)"
    by (simp add: cid_def sec_def basic_client_def split: option.split)
  have other: "server_error \<noteq> invalid_client" "writeTokenError 400 e \<noteq> invalid_client" "writeTokenError 429 e \<noteq> invalid_client"
      "token_response tok sc \<noteq> invalid_client" for e tok sc
    by (simp_all add: server_error_def invalid_client_def writeTokenError_def token_response_def)
  have allow: "triple ?E (\<lambda>v. v = w) (or_write (\<lambda>_. server_error) (gi_Allow (td_limiter ?D) cid ?ip)) (\<lambda>_. ?P)"
    by (simp add: or_write_def map_errS_def triple_def issuer_grants_def split: prod.splits)
  have get: "triple ?E ?P (or_write (\<lambda>_. server_error) (cs_Get (issuer_clients fault) cid)) (\<lambda>_. ?P)"
    by (simp add: or_write_def map_errS_def triple_def issuer_clients_def on_db_def other split: prod.splits sum.splits)
  have check: "triple ?E ?P (check_secret ?D found sec) (\<lambda>_. ?P)" for found
    by (auto simp: triple_def check_secret_eq verifySecret_def issuer_crypto_def split: sum.splits)
  have refuse: "triple ?E ?P (denyS (gi_RecordFailure (td_limiter ?D) cid ?ip) invalid_client) ?E"
    by (rule triple_denyS) (simp add: issuer_grants_def)
  have rehash: "triple ?E Q (rehash ?D st cid sec rec) (\<lambda>_ _. True)" for st rec Q
    by (rule tripleI) (auto simp: rehash_def catchS_eq retS_def split: if_splits)
  have mint: "triple ?E Q (mint ?D cid rec) ?E" for rec Q
    by (auto simp: triple_def mint_def Let_def other split: prod.splits sum.splits)
  have "triple ?E (\<lambda>v. v = w) (token_op ?D r) ?E"
  proof (cases "tq_form r")
    case (Inl err)
    then show ?thesis by (simp add: token_op_def triple_def other)
  next
    case (Inr form)
    have st: "td_store ?D = Some (issuer_clients fault)" by simp
    have decide: "triple ?E ?P
      (case found of
         None \<Rightarrow> denyS (gi_RecordFailure (td_limiter ?D) cid ?ip) invalid_client
       | Some rec \<Rightarrow>
           if \<not> ok \<or> \<not> cl_Active rec then denyS (gi_RecordFailure (td_limiter ?D) cid ?ip) invalid_client
           else bindS (execS (gi_RecordSuccess (td_limiter ?D) cid ?ip)) (\<lambda>_. bindS (rehash ?D (issuer_clients fault) cid sec rec) (\<lambda>_.
             if b rec then failS (writeTokenError 400 e) else mint ?D cid rec))) ?E" for found ok b e
      by (intro triple_option triple_if refuse triple_bindS [OF triple_execS triple_bindS [OF rehash triple_if [OF triple_failS mint]]])
        (simp_all add: other)
    show ?thesis
      unfolding token_op_def Let_def st Inr option.case sum.case p prod.case
      by (intro triple_if triple_bindS [OF allow] refuse
          triple_bindS [OF get triple_bindS [OF check decide]] triple_failS) (simp_all add: other)
  qed
  from triple_run [OF this] assms show ?thesis by (simp add: NewTokenHandler_def cid_def)
qed

text \<open>Whether a request is slowed down is the limiter's answer, and a slowed request touches nothing else.\<close>

lemma issuer_gate:
  fixes w :: issuer_world
  assumes "tq_form r = Inr form" "form ''grant_type'' = ''client_credentials''"
  defines "A \<equiv> gl_allow (iw_now w) (basic_client r) (sourceIPFrom (tq_remote r)) (iw_limiter w)"
  shows "\<not> fst A \<Longrightarrow> NewTokenHandler (issuer_deps lib (Some fault) key iss dummy) r w =
      (writeTokenError 429 ''slow_down'', w\<lparr>iw_limiter := snd A\<rparr>)"
    and "fst A \<Longrightarrow> fst (NewTokenHandler (issuer_deps lib (Some fault) key iss dummy) r w) \<noteq> writeTokenError 429 ''slow_down''"
proof -
  let ?D = "issuer_deps lib (Some fault) key iss dummy" and ?ip = "sourceIPFrom (tq_remote r)"
  let ?T = "\<lambda>_. True"
  let ?E = "\<lambda>resp _. resp \<noteq> writeTokenError 429 ''slow_down''"
  define cid where "cid = basic_client r"
  define sec where "sec = (case tq_basic r of None \<Rightarrow> [] | Some p \<Rightarrow> snd p)"
  have p: "(case tq_basic r of None \<Rightarrow> ([], []) | Some p \<Rightarrow> p) = (cid, sec)"
    by (simp add: cid_def sec_def basic_client_def split: option.split)
  have st: "td_store ?D = Some (issuer_clients fault)" by simp
  have other: "server_error \<noteq> writeTokenError 429 ''slow_down''" "invalid_client \<noteq> writeTokenError 429 ''slow_down''"
      "writeTokenError 400 e \<noteq> writeTokenError 429 ''slow_down''" "token_response tok sc \<noteq> writeTokenError 429 ''slow_down''"
    for e tok sc
    by (simp_all add: server_error_def invalid_client_def writeTokenError_def token_response_def)
  have get: "triple ?E ?T (or_write (\<lambda>_. server_error) m) (\<lambda>_. ?T)" for m :: "(issuer_world, goerr, 'z) op"
    by (simp add: triple_def or_write_def map_errS_def other split: prod.splits sum.splits)
  have check: "triple ?E ?T (check_secret ?D found sec) (\<lambda>_. ?T)" for found
    by (simp add: triple_def check_secret_eq)
  have refuse: "triple ?E ?T (denyS (gi_RecordFailure (td_limiter ?D) cid ?ip) invalid_client) ?E"
    by (rule triple_denyS) (simp add: other)
  have rehash: "triple ?E ?T (rehash ?D st cid sec rec) (\<lambda>_. ?T)" for st rec
    by (rule tripleI) (auto simp: rehash_def catchS_eq retS_def split: if_splits)
  have mint: "triple ?E ?T (mint ?D cid rec) ?E" for rec
    by (auto simp: triple_def mint_def Let_def other split: prod.splits sum.splits)
  have decide: "triple ?E ?T
    (case found of
       None \<Rightarrow> denyS (gi_RecordFailure (td_limiter ?D) cid ?ip) invalid_client
     | Some rec \<Rightarrow>
         if \<not> ok \<or> \<not> cl_Active rec then denyS (gi_RecordFailure (td_limiter ?D) cid ?ip) invalid_client
         else bindS (execS (gi_RecordSuccess (td_limiter ?D) cid ?ip)) (\<lambda>_. bindS (rehash ?D (issuer_clients fault) cid sec rec) (\<lambda>_.
           if b rec then failS (writeTokenError 400 e) else mint ?D cid rec))) ?E" for found ok b e
    by (intro triple_option triple_if refuse triple_bindS [OF triple_execS triple_bindS [OF rehash triple_if [OF triple_failS mint]]])
      (simp_all add: other)
  have gate: "gi_Allow (td_limiter ?D) cid ?ip w = (Inr (fst A), w\<lparr>iw_limiter := snd A\<rparr>)"
    by (simp add: issuer_grants_def A_def cid_def split: prod.splits)
  show "NewTokenHandler ?D r w = (writeTokenError 429 ''slow_down'', w\<lparr>iw_limiter := snd A\<rparr>)" if "\<not> fst A"
    unfolding NewTokenHandler_def run_handler_def token_op_def Let_def st assms(1,2) option.case sum.case p prod.case
    by (simp add: bindS_def or_write_def map_errS_def gate [simplified] that)
  show "fst (NewTokenHandler ?D r w) \<noteq> writeTokenError 429 ''slow_down''" if "fst A"
  proof -
    have allow: "triple ?E (\<lambda>v. v = w) (or_write (\<lambda>_. server_error) (gi_Allow (td_limiter ?D) cid ?ip)) (\<lambda>x _. x)"
      by (simp add: triple_def or_write_def map_errS_def gate [simplified] that)
    have lookup: "triple ?E ?T (bindS (or_write (\<lambda>_. server_error) (cs_Get (issuer_clients fault) cid)) (\<lambda>found.
        bindS (check_secret ?D found sec) (\<lambda>secretOK. case found of
          None \<Rightarrow> denyS (gi_RecordFailure (td_limiter ?D) cid ?ip) invalid_client
        | Some rec \<Rightarrow>
            if \<not> secretOK \<or> \<not> cl_Active rec then denyS (gi_RecordFailure (td_limiter ?D) cid ?ip) invalid_client
            else bindS (execS (gi_RecordSuccess (td_limiter ?D) cid ?ip)) (\<lambda>_. bindS (rehash ?D (issuer_clients fault) cid sec rec) (\<lambda>_.
              if trim_space (form ''scope'') \<noteq> [] \<and> trim_space (form ''scope'') \<noteq> cl_GrantedScope rec
              then failS (writeTokenError 400 ''invalid_scope'') else mint ?D cid rec))))) ?E"
      by (rule triple_bindS [OF get triple_bindS [OF check decide]])
    have "triple ?E (\<lambda>v. v = w) (token_op ?D r) ?E"
      unfolding token_op_def Let_def st assms(1,2) option.case sum.case p prod.case
      by (simp only: not_not simp_thms if_False)
        (intro triple_bindS [OF allow] triple_if triple_failS triple_pre [OF refuse] triple_pre [OF lookup], simp)
    from triple_run [OF this] show ?thesis by (metis NewTokenHandler_def prod.collapse)
  qed
qed

definition deployed_limiter :: "grant_limiter \<Rightarrow> bool" where
  "deployed_limiter l \<longleftrightarrow> baseBackoff l = grantLimiterBaseBackoff \<and> maxBackoff l = grantLimiterMaxBackoff \<and>
     (\<forall>k. 0 \<le> failures (byClientID l) k \<and> 0 \<le> failures (bySourceIP l) k)"

lemma deployed_start: "deployed_limiter issuer_limiter"
  by (simp add: deployed_limiter_def issuer_limiter_def NewInProcessGrantLimiter_def failures_def)

lemma failures_sweep: "0 \<le> failures m k \<Longrightarrow> 0 \<le> failures (gl_sweepMap now m) k"
  by (simp add: failures_def gl_sweepMap_def sweep_map_def split: option.splits)

lemma deployed_allow: "deployed_limiter l \<Longrightarrow> deployed_limiter (snd (gl_allow now c ip l))"
  by (simp add: deployed_limiter_def gl_allow_def gl_sweep_def Let_def failures_sweep)

lemma deployed_failure: "deployed_limiter l \<Longrightarrow> deployed_limiter (gl_recordFailure now c ip l)"
  unfolding deployed_limiter_def gl_recordFailure_failures gl_recordFailure_maps(4,5) by simp

text \<open>How long a failure locks a pair out, by the failures the limiter had counted before it.\<close>

definition lock_time :: "grant_limiter \<Rightarrow> string \<Rightarrow> string \<Rightarrow> duration" where
  "lock_time l c ip = min (second * 2 ^ nat (max (failures (byClientID l) c) (failures (bySourceIP l) ip))) (5 * minute)"

lemma deployed_backoff: "deployed_limiter l \<Longrightarrow> backoff_guard_ok 30 9 (baseBackoff l) (maxBackoff l)"
  by (simp add: deployed_limiter_def grantLimiterBaseBackoff_def grantLimiterMaxBackoff_def backoff_guard_ok_def time_simps)

lemma deployed_blocked:
  assumes "deployed_limiter l"
  shows "gl_blocked t (c, ip) (gl_recordFailure now c ip l) \<longleftrightarrow> t < now + lock_time l c ip"
  using gl_after_failure [OF deployed_backoff [OF assms]] assms
  by (simp add: deployed_limiter_def lock_time_def grantLimiterBaseBackoff_def grantLimiterMaxBackoff_def)

text \<open>
  C7. A failed authentication locks the caller out of the token endpoint: the next request of the same client from
  the same address, right or wrong, is answered \<open>slow_down\<close> exactly until the backoff has elapsed, which
  doubles from one second with each failure counted before and is capped at five minutes; a request answered
  so costs no password hash, reads no client and changes no count.
\<close>
theorem failed_grant_locks_out:
  assumes "NewTokenHandler (issuer_deps lib (Some fault) key iss dummy) r w = (invalid_client, w1)"
    and "deployed_limiter (iw_limiter w)"
    and "tq_form r' = Inr form" "form ''grant_type'' = ''client_credentials''"
    and "basic_client r' = basic_client r" "sourceIPFrom (tq_remote r') = sourceIPFrom (tq_remote r)"
    and "NewTokenHandler (issuer_deps lib (Some fault) key iss dummy) r' (w1\<lparr>iw_now := t\<rparr>) = (resp, w2)"
  defines "before \<equiv> snd (gl_allow (iw_now w) (basic_client r) (sourceIPFrom (tq_remote r)) (iw_limiter w))"
  shows "(resp = writeTokenError 429 ''slow_down'' \<longleftrightarrow>
      t < iw_now w + lock_time before (basic_client r) (sourceIPFrom (tq_remote r))) \<and>
    (resp = writeTokenError 429 ''slow_down'' \<longrightarrow>
      iw_hashes w2 = iw_hashes w1 \<and> iw_db w2 = iw_db w1 \<and> iw_limiter w2 = gl_sweep t (iw_limiter w1))"
proof -
  let ?c = "basic_client r" and ?ip = "sourceIPFrom (tq_remote r)"
  have l: "iw_limiter w1 = gl_recordFailure (iw_now w) ?c ?ip before"
    using failed_grant [OF assms(1)] by (simp add: before_def)
  have "deployed_limiter before" unfolding before_def by (rule deployed_allow [OF assms(2)])
  then have blocked: "gl_blocked t (?c, ?ip) (iw_limiter w1) \<longleftrightarrow> t < iw_now w + lock_time before ?c ?ip"
    by (simp add: l deployed_blocked)
  note gate = issuer_gate [OF assms(3,4), of "w1\<lparr>iw_now := t\<rparr>" lib fault key iss dummy, simplified, unfolded assms(5,6)]
  show ?thesis
  proof (cases "fst (gl_allow t ?c ?ip (iw_limiter w1))")
    case True
    then show ?thesis using gate(2) blocked assms(7) by (simp add: gl_allow_iff)
  next
    case False
    have "snd (gl_allow t ?c ?ip (iw_limiter w1)) = gl_sweep t (iw_limiter w1)" by (simp add: gl_allow_def Let_def)
    moreover have "t < iw_now w + lock_time before ?c ?ip" using False blocked by (simp add: gl_allow_iff)
    ultimately show ?thesis using gate(1) [OF False] assms(7) by simp
  qed
qed

end
