(* ===== verification/IdentityLimiter.thy ===== *)
theory IdentityLimiter
  imports GrantLimiter
begin

section \<open>internal/connector/identitylimiter.go: lockout per attempted identity\<close>

text \<open>
  \<open>identity_limiter\<close> is \<open>identityRateLimiter\<close>: a grant limiter for tracked identities, one for the
  shared overflow bucket, and the bounded table \<open>trackedAt\<close> (an association list, since its size is
  the point). \<open>hash_input\<close> is the byte string \<open>hashIdentity\<close> feeds to HMAC-SHA256; the keyed hash
  itself is the parameter \<open>hmac\<close>. The two clock reads of one call are the arguments \<open>now\<close> (the
  table) and \<open>now'\<close> (the limiter).
\<close>

record identity_limiter =
  il_underlying :: grant_limiter
  il_overflow :: grant_limiter
  trackedAt :: "(string, time) alist"
  il_lastSweep :: time

definition maxTrackedIdentities :: nat where "maxTrackedIdentities = 10000"
definition identityTrackedKeyTTL :: duration where "identityTrackedKeyTTL = hour"
definition identitySweepInterval :: duration where "identitySweepInterval = minute"
definition identityOverflowKey :: string where
  "identityOverflowKey = ''identity-limiter-overflow''"

definition NewIdentityRateLimiter :: identity_limiter where
  "NewIdentityRateLimiter =
     \<lparr>il_underlying = NewInProcessGrantLimiter (1 * second) (5 * minute) 10 False,
      il_overflow = NewInProcessGrantLimiter (5 * second) (10 * minute) 3 False,
      trackedAt = [], il_lastSweep = 0\<rparr>"

definition hash_input :: "string \<Rightarrow> string list \<Rightarrow> string" where
  "hash_input callerSub identityParts = callerSub @ concat (map (\<lambda>p. CHR 0x00 # p) identityParts)"

definition hashIdentity :: "(string \<Rightarrow> string) \<Rightarrow> string \<Rightarrow> string list \<Rightarrow> string" where
  "hashIdentity hmac callerSub identityParts = hmac (hash_input callerSub identityParts)"

definition il_sweep :: "time \<Rightarrow> identity_limiter \<Rightarrow> identity_limiter" where
  "il_sweep now l =
     (if time_sub now (il_lastSweep l) < identitySweepInterval then l
      else l\<lparr>il_lastSweep := now,
             trackedAt := sweep_alist (\<lambda>seenAt. identityTrackedKeyTTL \<le> time_sub now seenAt) (trackedAt l)\<rparr>)"

definition trackOrCheck :: "time \<Rightarrow> string \<Rightarrow> bool \<Rightarrow> identity_limiter \<Rightarrow> bool \<times> identity_limiter" where
  "trackOrCheck now key admitIfRoom l0 =
     (let l = il_sweep now l0 in
      case map_of (trackedAt l) key of
        Some _ \<Rightarrow> (True, l\<lparr>trackedAt := AList.update key now (trackedAt l)\<rparr>)
      | None \<Rightarrow>
          if \<not> admitIfRoom \<or> maxTrackedIdentities \<le> length (trackedAt l) then (False, l)
          else (True, l\<lparr>trackedAt := AList.update key now (trackedAt l)\<rparr>))"

definition il_allow_key :: "time \<Rightarrow> time \<Rightarrow> string \<Rightarrow> identity_limiter \<Rightarrow> bool \<times> identity_limiter" where
  "il_allow_key now now' key l =
     (let (t, l1) = trackOrCheck now key True l in
      if t then let (ok, u) = gl_allow now' key key (il_underlying l1) in (ok, l1\<lparr>il_underlying := u\<rparr>)
      else let (ok, v) = gl_allow now' identityOverflowKey identityOverflowKey (il_overflow l1)
           in (ok, l1\<lparr>il_overflow := v\<rparr>))"

definition il_failure_key :: "time \<Rightarrow> time \<Rightarrow> string \<Rightarrow> identity_limiter \<Rightarrow> identity_limiter" where
  "il_failure_key now now' key l =
     (let (t, l1) = trackOrCheck now key False l in
      if t then l1\<lparr>il_underlying := gl_recordFailure now' key key (il_underlying l1)\<rparr>
      else l1\<lparr>il_overflow :=
        gl_recordFailure now' identityOverflowKey identityOverflowKey (il_overflow l1)\<rparr>)"

definition il_success_key :: "time \<Rightarrow> string \<Rightarrow> identity_limiter \<Rightarrow> identity_limiter" where
  "il_success_key now key l =
     (let (t, l1) = trackOrCheck now key False l in
      if t then l1\<lparr>il_underlying := gl_recordSuccess key key (il_underlying l1)\<rparr>
      else l1\<lparr>il_overflow := gl_recordSuccess identityOverflowKey identityOverflowKey (il_overflow l1)\<rparr>)"

definition il_allow where
  "il_allow hmac now now' callerSub parts = il_allow_key now now' (hashIdentity hmac callerSub parts)"
definition il_recordFailure where
  "il_recordFailure hmac now now' callerSub parts =
     il_failure_key now now' (hashIdentity hmac callerSub parts)"
definition il_recordSuccess where
  "il_recordSuccess hmac now callerSub parts = il_success_key now (hashIdentity hmac callerSub parts)"

subsection \<open>The table stays bounded\<close>

text \<open>States after any sequence of calls, at any times and for any keys.\<close>

inductive il_reach :: "identity_limiter \<Rightarrow> bool" where
  il_new: "il_reach NewIdentityRateLimiter"
| il_do_allow: "il_reach l \<Longrightarrow> il_reach (snd (il_allow_key now now' key l))"
| il_do_failure: "il_reach l \<Longrightarrow> il_reach (il_failure_key now now' key l)"
| il_do_success: "il_reach l \<Longrightarrow> il_reach (il_success_key now key l)"

text \<open>Every entry of both maps of a grant limiter has its key in \<open>K\<close>.\<close>

definition gl_keys :: "string set \<Rightarrow> grant_limiter \<Rightarrow> bool" where
  "gl_keys K g \<longleftrightarrow> dom (byClientID g) \<subseteq> K \<and> dom (bySourceIP g) \<subseteq> K"

lemma gl_keys_allow: "gl_keys K g \<Longrightarrow> gl_keys K (snd (gl_allow now c ip g))"
  by (auto simp: gl_keys_def gl_allow_def Let_def gl_sweep_def gl_sweepMap_def sweep_map_def
      split: option.splits if_splits)

lemma gl_keys_failure: "gl_keys K g \<Longrightarrow> c \<in> K \<Longrightarrow> ip \<in> K \<Longrightarrow> gl_keys K (gl_recordFailure now c ip g)"
  by (auto simp: gl_keys_def gl_recordFailure_def gl_advance_def Let_def split: if_splits)

lemma gl_keys_success: "gl_keys K g \<Longrightarrow> gl_keys K (gl_recordSuccess c ip g)"
  by (auto simp: gl_keys_def gl_recordSuccess_def split: if_splits)

text \<open>The backoff constants are those of the constructor and no failure count is negative.\<close>

definition gl_cfg :: "duration \<Rightarrow> duration \<Rightarrow> grant_limiter \<Rightarrow> bool" where
  "gl_cfg base maxb g \<longleftrightarrow> baseBackoff g = base \<and> maxBackoff g = maxb \<and>
     (\<forall>k. 0 \<le> failures (byClientID g) k \<and> 0 \<le> failures (bySourceIP g) k)"

lemma gl_cfg_allow: "gl_cfg b m g \<Longrightarrow> gl_cfg b m (snd (gl_allow now c ip g))"
  by (auto simp: gl_cfg_def gl_allow_def Let_def gl_sweep_def gl_sweepMap_def sweep_map_def failures_def
      split: option.splits)

lemma gl_cfg_failure: "gl_cfg b m g \<Longrightarrow> gl_cfg b m (gl_recordFailure now c ip g)"
  by (auto simp: gl_cfg_def gl_recordFailure_maps(4,5) gl_recordFailure_failures)

lemma gl_cfg_success: "gl_cfg b m g \<Longrightarrow> gl_cfg b m (gl_recordSuccess c ip g)"
  by (auto simp: gl_cfg_def gl_recordSuccess_def failures_def split: option.splits)

definition il_wf :: "identity_limiter \<Rightarrow> bool" where
  "il_wf l \<longleftrightarrow> distinct (map fst (trackedAt l)) \<and> length (trackedAt l) \<le> maxTrackedIdentities \<and>
     gl_keys {identityOverflowKey} (il_overflow l) \<and> gl_cfg (5 * second) (10 * minute) (il_overflow l)"

lemma il_sweep_simps [simp]:
  "il_underlying (il_sweep now l) = il_underlying l" "il_overflow (il_sweep now l) = il_overflow l"
  by (simp_all add: il_sweep_def)

lemma il_sweep_wf: "il_wf l \<Longrightarrow> il_wf (il_sweep now l)"
  using length_sweep_alist [of _ "trackedAt l"]
  by (auto simp: il_wf_def il_sweep_def intro: sweep_alist_distinct order_trans)

lemma trackOrCheck_wf:
  assumes "il_wf l" shows "il_wf (snd (trackOrCheck now key b l))"
proof -
  have w: "il_wf (il_sweep now l)" using assms by (rule il_sweep_wf)
  show ?thesis
  proof (cases "map_of (trackedAt (il_sweep now l)) key")
    case None
    then have "length (AList.update key now (trackedAt (il_sweep now l))) = Suc (length (trackedAt (il_sweep now l)))"
      by (intro length_update_new) (simp add: map_of_None_iff_notin)
    with None w show ?thesis
      by (auto simp: trackOrCheck_def Let_def il_wf_def distinct_update)
  next
    case (Some t)
    then have "key \<in> fst ` set (trackedAt (il_sweep now l))"
      by (metis map_of_None_iff_notin option.distinct(1))
    then have "length (AList.update key now (trackedAt (il_sweep now l))) = length (trackedAt (il_sweep now l))"
      by (rule length_update_old)
    with Some w show ?thesis
      by (auto simp: trackOrCheck_def Let_def il_wf_def distinct_update)
  qed
qed

lemma trackOrCheck_limiters [simp]:
  "il_underlying (snd (trackOrCheck now key b l)) = il_underlying l"
  "il_overflow (snd (trackOrCheck now key b l)) = il_overflow l"
  by (simp_all add: trackOrCheck_def Let_def split: option.splits)

lemma il_wf_limiters [simp]:
  "il_wf (l\<lparr>il_underlying := u\<rparr>) = il_wf l"
  "il_wf l \<Longrightarrow> il_wf (l\<lparr>il_overflow := v\<rparr>) =
     (gl_keys {identityOverflowKey} v \<and> gl_cfg (5 * second) (10 * minute) v)"
  by (auto simp: il_wf_def)

lemma il_wf_keys:
  "il_wf l \<Longrightarrow> gl_keys {identityOverflowKey} (il_overflow l)"
  "il_wf l \<Longrightarrow> gl_cfg (5 * second) (10 * minute) (il_overflow l)"
  by (simp_all add: il_wf_def)

lemmas il_wf_simps = il_wf_keys trackOrCheck_wf gl_keys_allow gl_keys_failure gl_keys_success
  gl_cfg_allow gl_cfg_failure gl_cfg_success

lemma il_allow_wf: "il_wf l \<Longrightarrow> il_wf (snd (il_allow_key now now' key l))"
  by (simp add: il_allow_key_def Let_def case_prod_beta il_wf_simps)

lemma il_failure_wf: "il_wf l \<Longrightarrow> il_wf (il_failure_key now now' key l)"
  by (simp add: il_failure_key_def Let_def case_prod_beta il_wf_simps)

lemma il_success_wf: "il_wf l \<Longrightarrow> il_wf (il_success_key now key l)"
  by (simp add: il_success_key_def Let_def case_prod_beta il_wf_simps)

lemma il_reach_wf: "il_reach l \<Longrightarrow> il_wf l"
proof (induction rule: il_reach.induct)
  case il_new
  then show ?case
    by (simp add: il_wf_def gl_keys_def gl_cfg_def failures_def NewIdentityRateLimiter_def NewInProcessGrantLimiter_def)
qed (simp_all add: il_allow_wf il_failure_wf il_success_wf)

subsection \<open>Which bucket a call reaches\<close>

lemma tracked_kept:
  assumes "distinct (map fst (trackedAt l))" "map_of (trackedAt l) key = Some seen"
    and "now < seen + identityTrackedKeyTTL"
  shows "map_of (trackedAt (il_sweep now l)) key = Some seen"
proof -
  have "\<not> identityTrackedKeyTTL \<le> time_sub now seen"
    using assms(3) by (simp add: time_sub_ge_iff identityTrackedKeyTTL_def hour_def max_duration_def
        min_duration_def)
  then show ?thesis using assms(1,2) by (simp add: il_sweep_def map_of_sweep_alist)
qed

lemma trackOrCheck_tracked:
  assumes "distinct (map fst (trackedAt l))" "map_of (trackedAt l) key = Some seen"
    and "now < seen + identityTrackedKeyTTL"
  shows "fst (trackOrCheck now key b l)"
  using tracked_kept [OF assms] by (simp add: trackOrCheck_def Let_def)

lemma trackOrCheck_other:
  assumes "distinct (map fst (trackedAt l))" "map_of (trackedAt l) key = Some seen"
    and "now < seen + identityTrackedKeyTTL" "k \<noteq> key"
  shows "map_of (trackedAt (snd (trackOrCheck now k b l))) key = Some seen"
  using tracked_kept [OF assms(1-3)] assms(4)
  by (auto simp: trackOrCheck_def Let_def update_conv' split: option.splits)

lemma trackOrCheck_distinct: "il_wf l \<Longrightarrow> distinct (map fst (trackedAt (snd (trackOrCheck now k b l))))"
  using trackOrCheck_wf [of l now k b] by (simp add: il_wf_def)

lemma trackOrCheck_full:
  assumes "length (trackedAt l) = maxTrackedIdentities" "map_of (trackedAt l) key = None"
    and "time_sub now (il_lastSweep l) < identitySweepInterval"
  shows "trackOrCheck now key b l = (False, l)"
  using assms by (simp add: trackOrCheck_def Let_def il_sweep_def)

lemma il_allow_tracked:
  "fst (trackOrCheck now key True l) \<Longrightarrow>
     fst (il_allow_key now now' key l) \<longleftrightarrow> \<not> gl_blocked now' (key, key) (il_underlying l)"
  by (simp add: il_allow_key_def Let_def case_prod_beta gl_allow_iff)

lemma gl_blocked_other:
  "k \<noteq> key \<Longrightarrow> gl_blocked t (key, key) (gl_recordFailure now k k g) = gl_blocked t (key, key) g"
  "k \<noteq> key \<Longrightarrow> gl_blocked t (key, key) (gl_recordSuccess k k g) = gl_blocked t (key, key) g"
  by (simp_all add: gl_blocked_def gl_recordFailure_maps gl_recordSuccess_def)

subsection \<open>Properties\<close>

text \<open>
  Attempts on one identity neither lock out nor unlock another one: for an identity tracked
  within the last hour, a failure or a success recorded for a different identity does not change
  whether it is admitted.
\<close>
theorem identity_isolation:
  assumes "il_reach l" and "map_of (trackedAt l) key = Some seen"
    and "now \<le> u" and "u < seen + identityTrackedKeyTTL" and "k \<noteq> key"
  shows "fst (il_allow_key u u' key (il_failure_key now now' k l)) = fst (il_allow_key u u' key l) \<and>
         fst (il_allow_key u u' key (il_success_key now k l)) = fst (il_allow_key u u' key l)"
proof -
  have wf: "il_wf l" using assms(1) by (rule il_reach_wf)
  then have d: "distinct (map fst (trackedAt l))" by (simp add: il_wf_def)
  let ?t = "trackOrCheck now k False l"
  have now: "now < seen + identityTrackedKeyTTL" using assms(3,4) by linarith
  note seen = trackOrCheck_other [OF d assms(2) now assms(5), of False]
  have tr: "fst (trackOrCheck u key True l)" by (rule trackOrCheck_tracked [OF d assms(2,4)])
  have "trackedAt (il_failure_key now now' k l) = trackedAt (snd ?t)"
    "trackedAt (il_success_key now k l) = trackedAt (snd ?t)"
    by (simp_all add: il_failure_key_def il_success_key_def Let_def case_prod_beta)
  then have "fst (trackOrCheck u key True (il_failure_key now now' k l))"
    "fst (trackOrCheck u key True (il_success_key now k l))"
    using seen trackOrCheck_distinct [OF wf, of now k False] assms(4)
    by (auto intro!: trackOrCheck_tracked)
  then show ?thesis
    using tr assms(5)
    by (auto simp: il_allow_tracked gl_blocked_other il_failure_key_def il_success_key_def Let_def
        case_prod_beta)
qed

theorem identity_isolation_witness:
  "\<exists>l. il_reach l \<and> \<not> fst (il_allow_key 5 6 ''a'' (il_success_key 4 ''b'' (il_failure_key 2 3 ''a'' l)))"
proof -
  let ?N = NewIdentityRateLimiter
  let ?u1 = "snd (gl_allow 1 ''a'' ''a'' (il_underlying ?N))"
  let ?l1 = "?N\<lparr>trackedAt := [(''a'', 0)], il_underlying := ?u1\<rparr>"
  let ?l2 = "?N\<lparr>trackedAt := [(''a'', 2)], il_underlying := gl_recordFailure 3 ''a'' ''a'' ?u1\<rparr>"
  have n: "il_lastSweep ?N = 0" "trackedAt ?N = []" by (simp_all add: NewIdentityRateLimiter_def)
  note sub = time_sub_def max_duration_def min_duration_def
  have "snd (il_allow_key 0 1 ''a'' ?N) = ?l1"
    using n by (simp add: il_allow_key_def trackOrCheck_def il_sweep_def identitySweepInterval_def
        minute_def maxTrackedIdentities_def Let_def case_prod_beta)
  then have r1: "il_reach ?l1" using il_do_allow [OF il_new, of 0 1 "''a''"] by simp
  have f: "il_failure_key 2 3 ''a'' ?l1 = ?l2"
    using n by (simp add: il_failure_key_def trackOrCheck_def il_sweep_def identitySweepInterval_def
        minute_def Let_def sub)
  then have r: "il_reach ?l2" using il_do_failure [OF r1, of 2 3 "''a''"] by simp
  have t: "map_of (trackedAt ?l2) ''a'' = Some 2" by simp
  have tr: "fst (trackOrCheck 5 ''a'' True ?l2)"
    using il_reach_wf [OF r] by (intro trackOrCheck_tracked [OF _ t])
      (simp_all add: il_wf_def identityTrackedKeyTTL_def hour_def)
  have "gl_blocked 6 (''a'', ''a'') (gl_recordFailure 3 ''a'' ''a'' ?u1)"
    by (simp add: gl_blocked_def gl_recordFailure_blocked_client gl_allow_def gl_sweep_def Let_def sub
          NewIdentityRateLimiter_def NewInProcessGrantLimiter_def failures_def grant_backoff_def
          grantSweepInterval_def time_simps wrap64_id)
  then have "\<not> fst (il_allow_key 5 6 ''a'' ?l2)" by (simp add: il_allow_tracked [OF tr])
  moreover have "fst (il_allow_key 5 6 ''a'' (il_failure_key 4 4 ''b'' ?l2)) = fst (il_allow_key 5 6 ''a'' ?l2) \<and>
      fst (il_allow_key 5 6 ''a'' (il_success_key 4 ''b'' ?l2)) = fst (il_allow_key 5 6 ''a'' ?l2)"
    by (rule identity_isolation [OF r t]) (simp_all add: identityTrackedKeyTTL_def hour_def)
  ultimately show ?thesis using f r1 by auto
qed

text \<open>A full table is reachable.\<close>

lemma il_fill:
  "n \<le> maxTrackedIdentities \<Longrightarrow> \<exists>l. il_reach l \<and> length (trackedAt l) = n \<and> il_lastSweep l = 0 \<and>
     fst ` set (trackedAt l) = (\<lambda>i. replicate i CHR ''a'') ` {..<n}"
proof (induction n)
  case 0
  have "trackedAt NewIdentityRateLimiter = [] \<and> il_lastSweep NewIdentityRateLimiter = 0"
    by (simp add: NewIdentityRateLimiter_def)
  then show ?case using il_new by fastforce
next
  case (Suc n)
  then obtain l where l: "il_reach l" "length (trackedAt l) = n" "il_lastSweep l = 0"
    "fst ` set (trackedAt l) = (\<lambda>i. replicate i CHR ''a'') ` {..<n}" by auto
  let ?k = "replicate n CHR ''a''"
  have "?k \<notin> fst ` set (trackedAt l)" using l(4) by auto
  then have none: "map_of (trackedAt l) ?k = None" by (simp add: map_of_None_iff_notin)
  have t: "trackOrCheck 0 ?k True l = (True, l\<lparr>trackedAt := AList.update ?k 0 (trackedAt l)\<rparr>)"
    using none l Suc.prems by (simp add: trackOrCheck_def il_sweep_def identitySweepInterval_def
        minute_def Let_def)
  let ?l' = "snd (il_allow_key 0 0 ?k l)"
  have "trackedAt ?l' = AList.update ?k 0 (trackedAt l)" "il_lastSweep ?l' = 0"
    using l(3) by (simp_all add: il_allow_key_def t case_prod_beta Let_def)
  moreover have "length (AList.update ?k 0 (trackedAt l)) = Suc n"
    using none l(2) by (subst length_update_new) (simp_all add: map_of_None_iff_notin)
  moreover have "fst ` set (AList.update ?k 0 (trackedAt l)) = (\<lambda>i. replicate i CHR ''a'') ` {..<Suc n}"
    using l(4) dom_update [of ?k 0 "trackedAt l"]
    by (simp add: dom_map_of_conv_image_fst lessThan_Suc)
  moreover have "il_reach ?l'" by (intro il_do_allow l)
  ultimately show ?case by (intro exI [of _ ?l'] conjI) simp_all
qed

text \<open>
  The table never tracks more than 10000 identities, and past that bound a new identity is not
  let through unlimited: after a failed attempt on one untracked identity every other untracked
  identity is denied for at least five seconds.
\<close>
theorem identity_overflow_lockout:
  assumes "il_reach l" and "length (trackedAt l) = maxTrackedIdentities"
    and "map_of (trackedAt l) k = None" and "map_of (trackedAt l) k' = None"
    and "time_sub now (il_lastSweep l) < identitySweepInterval"
    and "time_sub u (il_lastSweep l) < identitySweepInterval"
    and "u' < now' + 5 * second"
  shows "\<not> fst (il_allow_key u u' k' (il_failure_key now now' k l))"
proof -
  have cfg: "gl_cfg (5 * second) (10 * minute) (il_overflow l)"
    using il_reach_wf [OF assms(1)] by (simp add: il_wf_def)
  let ?g = "il_overflow l" and ?o = identityOverflowKey
  let ?n = "nat (max (failures (byClientID ?g) ?o) (failures (bySourceIP ?g) ?o))"
  have "5 * second * 1 \<le> 5 * second * 2 ^ ?n" by (intro mult_left_mono) (simp_all add: second_def)
  then have "5 * second \<le> min (5 * second * 2 ^ ?n) (10 * minute)" by (simp add: time_simps)
  then have "u' < now' + min (baseBackoff ?g * 2 ^ ?n) (maxBackoff ?g)"
    using assms(7) cfg unfolding gl_cfg_def by (simp only:)
  then have "gl_blocked u' (?o, ?o) (gl_recordFailure now' ?o ?o ?g)"
    using cfg deployed_backoff_ok(2) by (subst gl_after_failure) (auto simp: gl_cfg_def)
  moreover have "il_failure_key now now' k l = l\<lparr>il_overflow := gl_recordFailure now' ?o ?o ?g\<rparr>"
    using trackOrCheck_full [OF assms(2,3,5), of False] by (simp add: il_failure_key_def)
  ultimately show ?thesis
    using trackOrCheck_full [of "l\<lparr>il_overflow := gl_recordFailure now' ?o ?o ?g\<rparr>" k' u True] assms
    by (simp add: il_allow_key_def Let_def case_prod_beta gl_allow_iff)
qed

theorem identity_overflow_lockout_witness:
  "\<exists>l. il_reach l \<and> \<not> fst (il_allow_key 8 9 ''new'' (il_failure_key 6 7 ''other'' l))"
proof -
  obtain l where l: "il_reach l" "length (trackedAt l) = maxTrackedIdentities" "il_lastSweep l = 0"
    "fst ` set (trackedAt l) = (\<lambda>i. replicate i CHR ''a'') ` {..<maxTrackedIdentities}"
    using il_fill [of maxTrackedIdentities] by auto
  have other: "set w \<subseteq> {CHR ''a''}" if "w \<in> fst ` set (trackedAt l)" for w
    using that l(4) by (auto simp: set_replicate_conv_if split: if_splits)
  have "''other'' \<notin> fst ` set (trackedAt l)" "''new'' \<notin> fst ` set (trackedAt l)"
    using other [of "''other''"] other [of "''new''"] by auto
  then have "\<not> fst (il_allow_key 8 9 ''new'' (il_failure_key 6 7 ''other'' l))"
    using l by (intro identity_overflow_lockout)
      (simp_all add: map_of_None_iff_notin time_sub_def identitySweepInterval_def time_simps
        max_duration_def min_duration_def)
  then show ?thesis using l(1) by blast
qed

text \<open>
  Two different (caller, identity parts) pairs with the same number of parts are hashed from
  different byte strings, as long as no component contains a NUL byte.
\<close>
theorem hash_input_injective:
  assumes "hash_input c ps = hash_input c' ps'"
    and "list_all (\<lambda>p. CHR 0x00 \<notin> set p) (c # ps)" and "list_all (\<lambda>p. CHR 0x00 \<notin> set p) (c' # ps')"
  shows "c = c' \<and> ps = ps'"
proof -
  have split: "a = b \<and> as = bs"
    if "a @ concat (map (\<lambda>p. CHR 0x00 # p) as) = b @ concat (map (\<lambda>p. CHR 0x00 # p) bs)"
      and "list_all (\<lambda>p. CHR 0x00 \<notin> set p) (a # as)" "list_all (\<lambda>p. CHR 0x00 \<notin> set p) (b # bs)"
    for a b :: string and as bs
    using that
  proof (induction as arbitrary: a b bs)
    case Nil
    show ?case
    proof (cases bs)
      case (Cons y bs')
      then have "CHR 0x00 \<in> set a" using Nil.prems(1) by auto
      then show ?thesis using Nil.prems(2) by simp
    qed (use Nil in simp)
  next
    case (Cons x as)
    have "bs \<noteq> []"
    proof
      assume "bs = []"
      then have "CHR 0x00 \<in> set b" using Cons.prems(1) by auto
      then show False using Cons.prems(3) by simp
    qed
    then obtain y bs' where bs: "bs = y # bs'" by (cases bs) auto
    with Cons.prems have "a = b \<and> x @ concat (map (\<lambda>p. CHR 0x00 # p) as)
        = y @ concat (map (\<lambda>p. CHR 0x00 # p) bs')"
      by (simp add: sep_split)
    with Cons.IH [of x y bs'] Cons.prems bs show ?case by simp
  qed
  show ?thesis using assms by (intro split) (simp_all add: hash_input_def)
qed

theorem hash_input_injective_witness:
  "hash_input ''svc'' [''1|2'', ''3''] \<noteq> hash_input ''svc'' [''1'', ''2|3'']"
  using hash_input_injective [of "''svc''" "[''1|2'', ''3'']" "''svc''" "[''1'', ''2|3'']"] by auto

text \<open>With a NUL byte in a component the parts can be shifted, as the file's comment allows for.\<close>

lemma hash_input_nul: "hash_input ''svc'' [[CHR 0x00], []] = hash_input ''svc'' [[], [CHR 0x00]]"
  by (simp add: hash_input_def)

end
