(* ===== verification/Connector.thy ===== *)
theory Connector
  imports Vendor TokenHandler IdentityLimiter
begin

section \<open>internal/connector/handlers.go: /auth and /identity\<close>

text \<open>
  Both handlers step by step over \<open>connector_deps\<close>: the vendor client, the limiter per caller and source address
  (the interface of the token handler's), the optional limiter per attempted identity, the optional audit log, and the clock
  with \<open>time.Sleep\<close>. An early return is \<open>Inl\<close> its response. What \<open>io.LimitReader\<close> leaves of the body is \<open>hr_body\<close>.
\<close>

definition identityFailureFloor :: duration where "identityFailureFloor = 100 * millisecond"

record 's identity_gate =
  ig_allow :: "ctx \<Rightarrow> string \<Rightarrow> string list \<Rightarrow> ('s, goerr, bool) op"
  ig_recordFailure :: "string \<Rightarrow> string list \<Rightarrow> 's \<Rightarrow> 's"
  ig_recordSuccess :: "string \<Rightarrow> string list \<Rightarrow> 's \<Rightarrow> 's"

record 's connector_deps =
  cd_Vendor :: "'s vendor_client"
  cd_Limiter :: "'s grant_iface"
  cd_IdentityLimiter :: "'s identity_gate option"
  cd_AuditLog :: "'s audit_log option"
  cd_now :: "'s \<Rightarrow> time"
  cd_sleep :: "duration \<Rightarrow> 's \<Rightarrow> 's"

definition identityGateAllow :: "'s identity_gate option \<Rightarrow> ctx \<Rightarrow> string \<Rightarrow> string list \<Rightarrow> ('s, goerr, bool) op" where
  "identityGateAllow l cx callerSub parts = (case l of None \<Rightarrow> retS True | Some g \<Rightarrow> ig_allow g cx callerSub parts)"

definition identityGateRecordFailure :: "'s identity_gate option \<Rightarrow> string \<Rightarrow> string list \<Rightarrow> 's \<Rightarrow> 's" where
  "identityGateRecordFailure l callerSub parts s = (case l of None \<Rightarrow> s | Some g \<Rightarrow> ig_recordFailure g callerSub parts s)"

definition identityGateRecordSuccess :: "'s identity_gate option \<Rightarrow> string \<Rightarrow> string list \<Rightarrow> 's \<Rightarrow> 's" where
  "identityGateRecordSuccess l callerSub parts s = (case l of None \<Rightarrow> s | Some g \<Rightarrow> ig_recordSuccess g callerSub parts s)"

definition connector_sourceIPFrom :: "request \<Rightarrow> string" where
  "connector_sourceIPFrom r = (case SplitHostPort (hr_remote r) of None \<Rightarrow> hr_remote r | Some host \<Rightarrow> host)"

definition identity_error :: "int \<Rightarrow> string \<Rightarrow> response" where
  "identity_error status e = json_response status (JObj [(''error'', JStr e)])"

definition writeIdentityFailure :: response where
  "writeIdentityFailure = identity_error 401 ''identity_lookup_failed''"

definition waitForFloor :: "'s connector_deps \<Rightarrow> time \<Rightarrow> 's \<Rightarrow> 's" where
  "waitForFloor d start s =
     (let remaining = identityFailureFloor - time_sub (cd_now d s) start in
      if 0 < remaining then cd_sleep d remaining s else s)"

definition logAuditOutcome :: "'s audit_log option \<Rightarrow> string \<Rightarrow> audit_kind \<Rightarrow> 's \<Rightarrow> 's" where
  "logAuditOutcome auditLog sub kind s =
     (case auditLog of
        None \<Rightarrow> s
      | Some a \<Rightarrow> al_log a \<lparr>ae_Sub = sub, ae_Scope = ScopeConnectorIdentityLookup, ae_Kind = kind, ae_RecordIDs = [],
          ae_ReasonCode = [], ae_Timestamp = al_now a s\<rparr> s)"

definition attempt_failed :: "'s connector_deps \<Rightarrow> string \<Rightarrow> string \<Rightarrow> string list \<Rightarrow> 's \<Rightarrow> 's" where
  "attempt_failed d sub sourceIP parts s =
     logAuditOutcome (cd_AuditLog d) sub AuditAuthnFailure
       (identityGateRecordFailure (cd_IdentityLimiter d) sub parts (gi_RecordFailure (cd_Limiter d) sub sourceIP s))"

definition attempt_succeeded :: "'s connector_deps \<Rightarrow> string \<Rightarrow> string \<Rightarrow> string list \<Rightarrow> 's \<Rightarrow> 's" where
  "attempt_succeeded d sub sourceIP parts s =
     logAuditOutcome (cd_AuditLog d) sub AuditSuccess
       (identityGateRecordSuccess (cd_IdentityLimiter d) sub parts (gi_RecordSuccess (cd_Limiter d) sub sourceIP s))"

definition caller_sub :: "request \<Rightarrow> string" where
  "caller_sub r = (case hr_auth r of None \<Rightarrow> [] | Some ac \<Rightarrow> ac_Sub ac)"

definition request_doc :: "request \<Rightarrow> req_body" where
  "request_doc r = (case hr_body r of None \<Rightarrow> BadJson | Some b \<Rightarrow> b)"

definition auth_body_fields :: "(string \<times> string) field_decoder list" where
  "auth_body_fields = [(''username'', dec_str (\<lambda>x (u, p). (x, p))), (''password'', dec_str (\<lambda>x (u, p). (u, x)))]"

definition identity_body_fields :: "(string \<times> string) field_decoder list" where
  "identity_body_fields = [(''phone'', dec_str (\<lambda>x (p, n). (x, n))), (''name'', dec_str (\<lambda>x (p, n). (p, x)))]"

text \<open>The two gates and the body, which the handlers share: the answer is the decoded body.\<close>

definition gated :: "'s connector_deps \<Rightarrow> request \<Rightarrow> (string \<times> string) field_decoder list \<Rightarrow>
    (string \<times> string \<Rightarrow> string list) \<Rightarrow> ('s, response, string \<times> string) op" where
  "gated d r fs parts =
     bindS (or_write (\<lambda>_. identity_error 500 ''server_error'') (gi_Allow (cd_Limiter d) (caller_sub r) (connector_sourceIPFrom r)))
       (\<lambda>allowed.
     if \<not> allowed then failS (identity_error 429 ''slow_down'')
     else (case decode_struct False fs ([], []) (request_doc r) of
         None \<Rightarrow> failS (identity_error 400 ''invalid_request'')
       | Some body \<Rightarrow>
           bindS (or_write (\<lambda>_. identity_error 500 ''server_error'')
               (identityGateAllow (cd_IdentityLimiter d) (hr_ctx r) (caller_sub r) (parts body)))
             (\<lambda>identityAllowed. if \<not> identityAllowed then failS (identity_error 429 ''slow_down'') else retS body)))"

definition auth_op :: "'s connector_deps \<Rightarrow> request \<Rightarrow> ('s, response, response) op" where
  "auth_op d r =
     bindS (gated d r auth_body_fields (\<lambda>(username, _). [username])) (\<lambda>(username, password).
     catchS (vc_Authenticate (cd_Vendor d) (hr_ctx r) username password)
       (\<lambda>err. denyS (attempt_failed d (caller_sub r) (connector_sourceIPFrom r) [username])
          (identity_error 401 ''vendor_authentication_failed''))
       (\<lambda>accessToken. bindS (execS (attempt_succeeded d (caller_sub r) (connector_sourceIPFrom r) [username])) (\<lambda>_.
          retS (json_response 200 (JObj [(''access_token'', JStr accessToken)])))))"

definition NewAuthHandler :: "'s connector_deps \<Rightarrow> 's http_handler" where
  "NewAuthHandler d r = run_handler (auth_op d r)"

definition identity_response_json :: "identity \<Rightarrow> json" where
  "identity_response_json i = JObj [(''name'', JStr (id_Name i)), (''phone'', JStr (id_Phone i)),
     (''street_address'', JStr (id_StreetAddress i)), (''locality'', JStr (id_Locality i)), (''region'', JStr (id_Region i)),
     (''postal_code'', JStr (id_PostalCode i)), (''country'', JStr (id_Country i))]"

definition vendorAccessTokenHeader :: string where "vendorAccessTokenHeader = ''X-Vendor-Access-Token''"

definition identity_op :: "'s connector_deps \<Rightarrow> request \<Rightarrow> time \<Rightarrow> ('s, response, response) op" where
  "identity_op d r start =
     bindS (gated d r identity_body_fields (\<lambda>(phone, name). [phone, name])) (\<lambda>(phone, name).
     let refuse = denyS (\<lambda>s. waitForFloor d start
           (attempt_failed d (caller_sub r) (connector_sourceIPFrom r) [phone, name] s)) writeIdentityFailure;
         token = trim_space (hr_header r vendorAccessTokenHeader) in
     if token = [] then refuse
     else catchS (vc_FetchIdentity (cd_Vendor d) (hr_ctx r) token phone name)
       (\<lambda>err. refuse)
       (\<lambda>i. bindS (execS (attempt_succeeded d (caller_sub r) (connector_sourceIPFrom r) [phone, name])) (\<lambda>_.
          retS (json_response 200 (identity_response_json i)))))"

definition NewIdentityHandler :: "'s connector_deps \<Rightarrow> 's http_handler" where
  "NewIdentityHandler d r s = run_handler (identity_op d r (cd_now d s)) s"

end
