(* ===== verification/ConnectorSpec.thy ===== *)
theory ConnectorSpec
  imports Connector Triple Rely
begin

section \<open>What the connector guarantees\<close>

subsection \<open>One failure, one delay\<close>

text \<open>No dependency turns the clock back, and \<open>time.Sleep\<close> sleeps at least as long as asked.\<close>

definition forward :: "('s \<Rightarrow> time) \<Rightarrow> ('s \<Rightarrow> 's) \<Rightarrow> bool" where
  "forward now f \<longleftrightarrow> (\<forall>s. now s \<le> now (f s))"

definition connector_clock_ok :: "'s connector_deps \<Rightarrow> bool" where
  "connector_clock_ok d \<longleftrightarrow>
     (\<forall>n s. 0 < n \<longrightarrow> cd_now d s + n \<le> cd_now d (cd_sleep d n s)) \<and>
     (\<forall>c ip. forward (cd_now d) (\<lambda>s. snd (gi_Allow (cd_Limiter d) c ip s)) \<and>
        forward (cd_now d) (gi_RecordFailure (cd_Limiter d) c ip) \<and> forward (cd_now d) (gi_RecordSuccess (cd_Limiter d) c ip)) \<and>
     (\<forall>g. cd_IdentityLimiter d = Some g \<longrightarrow> (\<forall>cx c ps. forward (cd_now d) (\<lambda>s. snd (ig_allow g cx c ps s)) \<and>
        forward (cd_now d) (ig_recordFailure g c ps) \<and> forward (cd_now d) (ig_recordSuccess g c ps))) \<and>
     (\<forall>a ev. cd_AuditLog d = Some a \<longrightarrow> forward (cd_now d) (al_log a ev)) \<and>
     (\<forall>cx tok ph nm. forward (cd_now d) (\<lambda>s. snd (vc_FetchIdentity (cd_Vendor d) cx tok ph nm s)))"

interpretation clock: rely "\<lambda>s s'. now s \<le> now s'" for now :: "'s \<Rightarrow> time"
  by unfold_locales auto

lemma clock_step:
  assumes "connector_clock_ok d"
  shows "cd_now d s \<le> cd_now d (attempt_failed d sub ip ps s)"
    and "gi_Allow (cd_Limiter d) c ip s = (x, s') \<Longrightarrow> cd_now d s \<le> cd_now d s'"
    and "identityGateAllow (cd_IdentityLimiter d) cx c ps s = (x, s') \<Longrightarrow> cd_now d s \<le> cd_now d s'"
    and "vc_FetchIdentity (cd_Vendor d) cx tok ph nm s = (z, s') \<Longrightarrow> cd_now d s \<le> cd_now d s'"
proof -
  note ok = assms [unfolded connector_clock_ok_def forward_def]
  have f: "cd_now d s \<le> cd_now d (gi_RecordFailure (cd_Limiter d) sub ip s)" using ok by blast
  have g: "cd_now d s \<le> cd_now d (identityGateRecordFailure (cd_IdentityLimiter d) sub ps s)" for s
    using ok by (simp add: identityGateRecordFailure_def split: option.split)
  have a: "cd_now d s \<le> cd_now d (logAuditOutcome (cd_AuditLog d) sub k s)" for k s
    using ok by (simp add: logAuditOutcome_def split: option.split)
  show "cd_now d s \<le> cd_now d (attempt_failed d sub ip ps s)"
    unfolding attempt_failed_def by (rule order_trans [OF f order_trans [OF g a]])
  show "cd_now d s \<le> cd_now d s'" if "gi_Allow (cd_Limiter d) c ip s = (x, s')"
  proof -
    have "cd_now d s \<le> cd_now d (snd (gi_Allow (cd_Limiter d) c ip s))" using ok by blast
    then show ?thesis using that by simp
  qed
  show "cd_now d s \<le> cd_now d s'" if e: "identityGateAllow (cd_IdentityLimiter d) cx c ps s = (x, s')"
  proof (cases "cd_IdentityLimiter d")
    case None
    then show ?thesis using e by (simp add: identityGateAllow_def)
  next
    case (Some gt)
    then have "cd_now d s \<le> cd_now d (snd (ig_allow gt cx c ps s))" using ok by blast
    then show ?thesis using e Some by (simp add: identityGateAllow_def)
  qed
  show "cd_now d s \<le> cd_now d s'" if "vc_FetchIdentity (cd_Vendor d) cx tok ph nm s = (z, s')"
  proof -
    have "cd_now d s \<le> cd_now d (snd (vc_FetchIdentity (cd_Vendor d) cx tok ph nm s))" using ok by blast
    then show ?thesis using that by simp
  qed
qed

lemma gated_clock:
  assumes "connector_clock_ok d"
  shows "moves (\<lambda>s s'. cd_now d s \<le> cd_now d s') (gated d r fs parts)"
proof -
  let ?R = "\<lambda>s s'. cd_now d s \<le> cd_now d s'"
  have allow: "moves ?R (gi_Allow (cd_Limiter d) c ip)" for c ip
    by (rule movesI) (rule clock_step(2) [OF assms])
  have ident: "moves ?R (identityGateAllow (cd_IdentityLimiter d) cx c ps)" for cx c ps
    by (rule movesI) (rule clock_step(3) [OF assms])
  have "moves ?R (case decode_struct False fs ([], []) (request_doc r) of
         None \<Rightarrow> failS (identity_error 400 ''invalid_request'')
       | Some body \<Rightarrow>
           bindS (map_errS (\<lambda>_. identity_error 500 ''server_error'')
               (identityGateAllow (cd_IdentityLimiter d) (hr_ctx r) (caller_sub r) (parts body)))
             (\<lambda>identityAllowed. if \<not> identityAllowed then failS (identity_error 429 ''slow_down'') else retS body))"
    by (cases "decode_struct False fs ([], []) (request_doc r)") (simp, simp only: option.case, intro clock.moves_rules ident)
  then show ?thesis
    unfolding gated_def or_write_def by (intro clock.moves_rules allow)
qed

lemma waitForFloor_floor:
  assumes "connector_clock_ok d" "start \<le> cd_now d s"
  shows "start + identityFailureFloor \<le> cd_now d (waitForFloor d start s)"
proof (cases "0 < identityFailureFloor - time_sub (cd_now d s) start")
  case True
  then have "cd_now d s + (identityFailureFloor - time_sub (cd_now d s) start) \<le> cd_now d (waitForFloor d start s)"
    using assms(1) by (simp add: connector_clock_ok_def waitForFloor_def)
  moreover have "time_sub (cd_now d s) start \<le> cd_now d s - start"
    using assms(2) by (simp add: time_sub_def min_duration_def)
  ultimately show ?thesis by linarith
next
  case False
  then have "identityFailureFloor \<le> time_sub (cd_now d s) start" by simp
  then have "identityFailureFloor \<le> cd_now d s - start"
    by (simp add: time_sub_ge_iff identityFailureFloor_def millisecond_def max_duration_def min_duration_def)
  then show ?thesis using False by (simp add: waitForFloor_def)
qed

lemma gated_Inl: "gated d r fs parts s = (Inl resp, s') \<Longrightarrow> rs_status resp \<noteq> 401"
  by (auto simp: gated_def bindS_eq_Inl or_write_def map_errS_eq_Inl identity_error_def json_response_def
      split: if_splits option.splits)

text \<open>
  C25. The failures of /identity cannot be told apart: whether the vendor token is missing or blank, or the vendor refused it
  for whatever reason, the answer is one and the same response, it leaves no earlier than 100 ms after the request
  arrived, and the attempt was counted once, by both limiters and the audit log, before it.
\<close>
theorem identity_failures_uniform:
  assumes "connector_clock_ok d" "NewIdentityHandler d r s = (resp, s')" "rs_status resp = 401"
  shows "resp = writeIdentityFailure \<and> cd_now d s + identityFailureFloor \<le> cd_now d s' \<and>
    (\<exists>phone name s1. s' = waitForFloor d (cd_now d s)
       (attempt_failed d (caller_sub r) (connector_sourceIPFrom r) [phone, name] s1))"
proof -
  obtain x where x: "identity_op d r (cd_now d s) s = (x, s')" "x = Inl resp \<or> x = Inr resp"
    using assms(2) by (auto simp: NewIdentityHandler_def run_handler_def split: prod.splits sum.splits)
  let ?fail = "\<lambda>ph nm. attempt_failed d (caller_sub r) (connector_sourceIPFrom r) [ph, nm]"
  obtain y s1 where g: "gated d r identity_body_fields (\<lambda>(phone, name). [phone, name]) s = (y, s1)" by fastforce
  have c1: "cd_now d s \<le> cd_now d s1" using movesD [OF gated_clock [OF assms(1)] g] .
  obtain ph nm where y: "y = Inr (ph, nm)"
    using x assms(3) g gated_Inl [of d r identity_body_fields "\<lambda>(phone, name). [phone, name]" s resp s']
    by (cases y) (auto simp: identity_op_def bindS_def)
  let ?tok = "trim_space (hr_header r vendorAccessTokenHeader)"
  have rest: "(if ?tok = [] then denyS (\<lambda>s1. waitForFloor d (cd_now d s) (?fail ph nm s1)) writeIdentityFailure
     else catchS (vc_FetchIdentity (cd_Vendor d) (hr_ctx r) ?tok ph nm)
       (\<lambda>err. denyS (\<lambda>s1. waitForFloor d (cd_now d s) (?fail ph nm s1)) writeIdentityFailure)
       (\<lambda>i. bindS (execS (attempt_succeeded d (caller_sub r) (connector_sourceIPFrom r) [ph, nm])) (\<lambda>_.
          retS (json_response 200 (identity_response_json i))))) s1 = (x, s')"
    using x(1) g y by (simp add: identity_op_def bindS_def Let_def)
  have "\<exists>s2. cd_now d s \<le> cd_now d s2 \<and> x = Inl writeIdentityFailure \<and> s' = waitForFloor d (cd_now d s) (?fail ph nm s2)"
  proof (cases "?tok = []")
    case True
    then show ?thesis using rest c1 by auto
  next
    case False
    obtain z s2 where v: "vc_FetchIdentity (cd_Vendor d) (hr_ctx r) ?tok ph nm s1 = (z, s2)" by fastforce
    have c2: "cd_now d s \<le> cd_now d s2" using clock_step(4) [OF assms(1) v] c1 by simp
    show ?thesis
    proof (cases z)
      case (Inl err)
      then show ?thesis using rest False v c2 by (auto simp: catchS_def)
    next
      case (Inr i)
      then have "rs_status resp = 200" using rest False v x(2) by (auto simp: catchS_def bindS_def json_response_def)
      then show ?thesis using assms(3) by simp
    qed
  qed
  then obtain s2 where s2: "cd_now d s \<le> cd_now d s2" "x = Inl writeIdentityFailure"
    "s' = waitForFloor d (cd_now d s) (?fail ph nm s2)" by blast
  have "cd_now d s \<le> cd_now d (?fail ph nm s2)" using clock_step(1) [OF assms(1)] s2(1) order_trans by blast
  from waitForFloor_floor [OF assms(1) this] s2 x(2) show ?thesis by auto
qed

end
