(* ===== verification/ConnectorRouter.thy ===== *)
theory ConnectorRouter
  imports ConnectorSpec
begin

section \<open>internal/app/connector_router.go: the connector assembled\<close>

text \<open>
  The handlers over the components \<open>NewConnectorRouter\<close> gives them: one grant limiter with its constants, the
  identity limiter, the audit log as a list, and any vendor client over its own state. The clock stands still
  within a request except in \<open>time.Sleep\<close>.
\<close>

record 'v connector_world =
  cw_vendor :: 'v
  cw_calls :: nat
  cw_limiter :: grant_limiter
  cw_identity :: identity_limiter
  cw_audit :: "audit_event list"
  cw_now :: time

definition connectorVendorLimiterBaseBackoff :: duration where "connectorVendorLimiterBaseBackoff = 1 * second"
definition connectorVendorLimiterMaxBackoff :: duration where "connectorVendorLimiterMaxBackoff = 5 * minute"
definition connectorVendorLimiterAlertThreshold :: int where "connectorVendorLimiterAlertThreshold = 5"

definition connector_start :: "'v \<Rightarrow> 'v connector_world" where
  "connector_start v = \<lparr>cw_vendor = v, cw_calls = 0,
     cw_limiter = NewInProcessGrantLimiter connectorVendorLimiterBaseBackoff connectorVendorLimiterMaxBackoff
       connectorVendorLimiterAlertThreshold True,
     cw_identity = NewIdentityRateLimiter, cw_audit = [], cw_now = 0\<rparr>"

text \<open>A call of the vendor, counted.\<close>

definition on_vendor :: "('v, 'e, 'a) op \<Rightarrow> ('v connector_world, 'e, 'a) op" where
  "on_vendor m w = (case m (cw_vendor w) of (x, v) \<Rightarrow> (x, w\<lparr>cw_vendor := v, cw_calls := Suc (cw_calls w)\<rparr>))"

definition connector_grants :: "'v connector_world grant_iface" where
  "connector_grants = \<lparr>gi_Allow = (\<lambda>c ip w. case gl_allow (cw_now w) c ip (cw_limiter w) of
       (ok, l) \<Rightarrow> (Inr ok, w\<lparr>cw_limiter := l\<rparr>)),
     gi_RecordFailure = (\<lambda>c ip w. w\<lparr>cw_limiter := gl_recordFailure (cw_now w) c ip (cw_limiter w)\<rparr>),
     gi_RecordSuccess = (\<lambda>c ip w. w\<lparr>cw_limiter := gl_recordSuccess c ip (cw_limiter w)\<rparr>)\<rparr>"

definition connector_gate :: "(string \<Rightarrow> string) \<Rightarrow> 'v connector_world identity_gate" where
  "connector_gate hmac = \<lparr>ig_allow = (\<lambda>cx c ps w. case il_allow hmac (cw_now w) (cw_now w) c ps (cw_identity w) of
       (ok, l) \<Rightarrow> (Inr ok, w\<lparr>cw_identity := l\<rparr>)),
     ig_recordFailure = (\<lambda>c ps w. w\<lparr>cw_identity := il_recordFailure hmac (cw_now w) (cw_now w) c ps (cw_identity w)\<rparr>),
     ig_recordSuccess = (\<lambda>c ps w. w\<lparr>cw_identity := il_recordSuccess hmac (cw_now w) c ps (cw_identity w)\<rparr>)\<rparr>"

definition connector_audit :: "'v connector_world audit_log" where
  "connector_audit = \<lparr>al_log = (\<lambda>ev w. w\<lparr>cw_audit := cw_audit w @ [ev]\<rparr>), al_now = cw_now\<rparr>"

definition connector_deps_of :: "(string \<Rightarrow> string) \<Rightarrow> 'v vendor_client \<Rightarrow> 'v connector_world connector_deps" where
  "connector_deps_of hmac vendor =
     \<lparr>cd_Vendor = \<lparr>vc_Authenticate = (\<lambda>cx u p. on_vendor (vc_Authenticate vendor cx u p)),
        vc_FetchIdentity = (\<lambda>cx t ph nm. on_vendor (vc_FetchIdentity vendor cx t ph nm))\<rparr>,
      cd_Limiter = connector_grants, cd_IdentityLimiter = Some (connector_gate hmac), cd_AuditLog = Some connector_audit,
      cd_now = cw_now, cd_sleep = (\<lambda>n w. w\<lparr>cw_now := cw_now w + n\<rparr>)\<rparr>"

lemmas connector_wiring = connector_deps_of_def connector_grants_def connector_gate_def connector_audit_def

lemma connector_deps_simps [simp]:
  "cd_Limiter (connector_deps_of hmac v) = connector_grants"
  "cd_IdentityLimiter (connector_deps_of hmac v) = Some (connector_gate hmac)"
  "cd_AuditLog (connector_deps_of hmac v) = Some connector_audit"
  by (simp_all add: connector_deps_of_def)

lemma connector_clock: "connector_clock_ok (connector_deps_of hmac v)"
  by (simp add: connector_clock_ok_def forward_def connector_wiring on_vendor_def split: prod.split)

subsection \<open>A locked identity stays locked\<close>

text \<open>The identity a request to /auth attempts, as the identity limiter keys it; \<open>None\<close> when the body does not decode.\<close>

definition attempted :: "(string \<Rightarrow> string) \<Rightarrow> request \<Rightarrow> string option" where
  "attempted hmac r = map_option (\<lambda>(username, _). hashIdentity hmac (caller_sub r) [username])
     (decode_struct False auth_body_fields ([], []) (request_doc r))"

text \<open>Identity \<open>k\<close> is tracked since \<open>seen\<close> and locked out at time \<open>t\<close>.\<close>

definition locked_identity :: "string \<Rightarrow> time \<Rightarrow> time \<Rightarrow> 'v connector_world \<Rightarrow> bool" where
  "locked_identity k seen t w \<longleftrightarrow> il_wf (cw_identity w) \<and> map_of (trackedAt (cw_identity w)) k = Some seen \<and>
     gl_blocked t (k, k) (il_underlying (cw_identity w))"

lemma il_others_keep:
  assumes "il_wf l" "map_of (trackedAt l) k = Some seen" "u < seen + identityTrackedKeyTTL" "k' \<noteq> k" "u \<le> t"
    and "l' = snd (il_allow_key u u k' l) \<or> l' = il_failure_key u u k' l \<or> l' = il_success_key u k' l"
  shows "il_wf l' \<and> map_of (trackedAt l') k = Some seen \<and>
    gl_blocked t (k, k) (il_underlying l') = gl_blocked t (k, k) (il_underlying l)"
proof -
  have d: "distinct (map fst (trackedAt l))" using assms(1) by (simp add: il_wf_def)
  have wf: "il_wf l'" using assms(6) il_allow_wf [OF assms(1)] il_failure_wf [OF assms(1)] il_success_wf [OF assms(1)] by auto
  have t: "map_of (trackedAt l') k = Some seen"
    using assms(6) trackOrCheck_other [OF d assms(2,3,4)]
    by (auto simp: il_allow_key_def il_failure_key_def il_success_key_def Let_def case_prod_beta)
  have a: "gl_blocked t (k, k) (snd (gl_allow u c ip g)) = gl_blocked t (k, k) g" for c ip g
    using gl_sweep_blocked [OF assms(5)] by (simp add: gl_allow_def Let_def)
  have "gl_blocked t (k, k) (il_underlying l') = gl_blocked t (k, k) (il_underlying l)"
    using assms(6)
    by (elim disjE) (simp_all add: gl_blocked_other [OF assms(4)] a il_allow_key_def il_failure_key_def
        il_success_key_def Let_def case_prod_beta)
  with wf t show ?thesis by simp
qed

lemma attempt_world:
  "attempt_failed (connector_deps_of hmac v) sub ip [u] w = w\<lparr>cw_limiter := gl_recordFailure (cw_now w) sub ip (cw_limiter w),
     cw_identity := il_failure_key (cw_now w) (cw_now w) (hashIdentity hmac sub [u]) (cw_identity w),
     cw_audit := cw_audit w @ [\<lparr>ae_Sub = sub, ae_Scope = ScopeConnectorIdentityLookup, ae_Kind = AuditAuthnFailure,
       ae_RecordIDs = [], ae_ReasonCode = [], ae_Timestamp = cw_now w\<rparr>]\<rparr>"
  "attempt_succeeded (connector_deps_of hmac v) sub ip [u] w = w\<lparr>cw_limiter := gl_recordSuccess sub ip (cw_limiter w),
     cw_identity := il_success_key (cw_now w) (hashIdentity hmac sub [u]) (cw_identity w),
     cw_audit := cw_audit w @ [\<lparr>ae_Sub = sub, ae_Scope = ScopeConnectorIdentityLookup, ae_Kind = AuditSuccess,
       ae_RecordIDs = [], ae_ReasonCode = [], ae_Timestamp = cw_now w\<rparr>]\<rparr>"
  by (simp_all add: attempt_failed_def attempt_succeeded_def logAuditOutcome_def identityGateRecordFailure_def
      identityGateRecordSuccess_def connector_wiring il_recordFailure_def il_recordSuccess_def)

lemma locked_triple:
  assumes "attempted hmac r \<noteq> Some k" "u \<le> t" "u < seen + identityTrackedKeyTTL"
  shows "triple (\<lambda>_. locked_identity k seen t) (\<lambda>w. locked_identity k seen t w \<and> cw_now w = u)
    (auth_op (connector_deps_of hmac v) r) (\<lambda>_. locked_identity k seen t)"
proof -
  let ?D = "connector_deps_of hmac v" and ?L = "locked_identity k seen t"
  let ?P = "\<lambda>w. ?L w \<and> cw_now w = u"
  have allow: "triple (\<lambda>_. ?L) ?P (or_write (\<lambda>_. e) (gi_Allow (cd_Limiter ?D) c ip)) (\<lambda>_. ?P)" for c ip e
    by (simp add: triple_def or_write_def map_errS_def connector_grants_def locked_identity_def split: prod.split)
  have other: "hashIdentity hmac (caller_sub r) [user] \<noteq> k"
    if "decode_struct False auth_body_fields ([], []) (request_doc r) = Some (user, pw)" for user pw
    using assms(1) that by (simp add: attempted_def)
  have keep: "?L (w\<lparr>cw_identity := l'\<rparr>)"
    if "?L w" "k' \<noteq> k" "l' = snd (il_allow_key u u k' (cw_identity w)) \<or> l' = il_failure_key u u k' (cw_identity w) \<or>
      l' = il_success_key u k' (cw_identity w)" for w l' k'
    using il_others_keep [OF _ _ assms(3) that(2) assms(2) that(3)] that(1) by (simp add: locked_identity_def)
  have extra: "?L (w\<lparr>cw_limiter := g, cw_identity := l, cw_audit := a\<rparr>) = ?L (w\<lparr>cw_identity := l\<rparr>)" for w g l a
    by (simp add: locked_identity_def)
  have gate: "triple (\<lambda>_. ?L) ?P (or_write (\<lambda>_. e) (identityGateAllow (cd_IdentityLimiter ?D) cx (caller_sub r) [user])) (\<lambda>_. ?P)"
    if "decode_struct False auth_body_fields ([], []) (request_doc r) = Some (user, pw)" for user pw cx e
  proof -
    have "?L (w\<lparr>cw_identity := snd (il_allow_key u u (hashIdentity hmac (caller_sub r) [user]) (cw_identity w))\<rparr>)" if "?L w" for w
      by (rule keep [OF that other]) (use \<open>decode_struct _ _ _ _ = _\<close> in auto)
    then show ?thesis
      by (auto simp: triple_def or_write_def map_errS_def identityGateAllow_def connector_gate_def il_allow_def case_prod_beta)
  qed
  have gated: "triple (\<lambda>_. ?L) ?P (gated ?D r auth_body_fields (\<lambda>(username, _). [username]))
      (\<lambda>(user, pw) w. ?P w \<and> decode_struct False auth_body_fields ([], []) (request_doc r) = Some (user, pw))"
    unfolding gated_def
    by (intro triple_bindS [OF allow] triple_if triple_failS triple_option)
      (auto intro!: triple_bindS [OF gate [simplified]] triple_if triple_failS triple_retS)
  have vend: "triple (\<lambda>_. ?P) ?P (vc_Authenticate (cd_Vendor ?D) cx user pw) (\<lambda>_. ?P)" for cx user pw
    by (auto simp: triple_def connector_deps_of_def on_vendor_def locked_identity_def split: prod.splits sum.splits)
  have bad: "?L (attempt_failed ?D (caller_sub r) ip [user] w)" "?L (attempt_succeeded ?D (caller_sub r) ip [user] w)"
    if "?P w" "decode_struct False auth_body_fields ([], []) (request_doc r) = Some (user, pw)" for w user pw ip
    using keep [OF _ other [OF that(2)], of w] that(1) unfolding attempt_world extra by blast+
  show ?thesis
    unfolding auth_op_def
  proof (rule triple_bindS [OF gated])
    fix body :: "string \<times> string"
    obtain user pw where b: "body = (user, pw)" by fastforce
    show "triple (\<lambda>_. ?L) (case body of (user, pw) \<Rightarrow> \<lambda>w. ?P w \<and>
          decode_struct False auth_body_fields ([], []) (request_doc r) = Some (user, pw))
      (case body of (username, password) \<Rightarrow>
         catchS (vc_Authenticate (cd_Vendor ?D) (hr_ctx r) username password)
           (\<lambda>err. denyS (attempt_failed ?D (caller_sub r) (connector_sourceIPFrom r) [username])
              (identity_error 401 ''vendor_authentication_failed''))
           (\<lambda>accessToken. bindS (execS (attempt_succeeded ?D (caller_sub r) (connector_sourceIPFrom r) [username])) (\<lambda>_.
              retS (json_response 200 (JObj [(''access_token'', JStr accessToken)]))))) (\<lambda>_. ?L)"
    proof (cases "decode_struct False auth_body_fields ([], []) (request_doc r) = Some (user, pw)")
      case True
      show ?thesis unfolding b prod.case
        by (rule triple_conseq [OF triple_catchS [OF vend triple_denyS triple_bindS [OF triple_execS triple_retS]]])
          (use bad True in auto)
    qed (simp add: b triple_def)
  qed
qed

text \<open>A series of requests at given times.\<close>

fun serve_auth :: "'v connector_world connector_deps \<Rightarrow> (time \<times> request) list \<Rightarrow> 'v connector_world \<Rightarrow> 'v connector_world" where
  "serve_auth d [] w = w"
| "serve_auth d ((u, r) # rs) w = serve_auth d rs (snd (NewAuthHandler d r (w\<lparr>cw_now := u\<rparr>)))"

lemma serve_locked:
  assumes "locked_identity k seen t w" "\<forall>(u, r) \<in> set rs. u \<le> t \<and> attempted hmac r \<noteq> Some k" "t < seen + identityTrackedKeyTTL"
  shows "locked_identity k seen t (serve_auth (connector_deps_of hmac v) rs w)"
  using assms(1,2)
proof (induction rs arbitrary: w)
  case (Cons a rs)
  obtain u r where a: "a = (u, r)" by fastforce
  have "locked_identity k seen t (w\<lparr>cw_now := u\<rparr>)" using Cons.prems(1) by (simp add: locked_identity_def)
  moreover have "attempted hmac r \<noteq> Some k" "u \<le> t" "u < seen + identityTrackedKeyTTL"
    using Cons.prems(2) a assms(3) by auto
  ultimately have "locked_identity k seen t (snd (NewAuthHandler (connector_deps_of hmac v) r (w\<lparr>cw_now := u\<rparr>)))"
    using triple_run [OF locked_triple [of hmac r k u t seen v], of "w\<lparr>cw_now := u\<rparr>"]
    by (cases "run_handler (auth_op (connector_deps_of hmac v) r) (w\<lparr>cw_now := u\<rparr>)") (simp add: NewAuthHandler_def del: run_handler_snd)
  from Cons.IH [OF this] Cons.prems(2) show ?case by (simp add: a)
qed simp

text \<open>
  C26. A lockout of an identity cannot be shaken off by using others: while the identity is tracked and locked, a request to
  /auth for it is answered \<open>slow_down\<close> without a call of the vendor, whatever requests for other identities, right
  or wrong, by whatever callers from whatever addresses, were served before.
\<close>
theorem identity_lockout_survives:
  assumes "locked_identity k seen t w" "t < seen + identityTrackedKeyTTL"
    and "\<forall>(u, r) \<in> set rs. u \<le> t \<and> attempted hmac r \<noteq> Some k" "attempted hmac r = Some k"
    and w1_def: "w1 = serve_auth (connector_deps_of hmac v) rs w"
  shows "fst (NewAuthHandler (connector_deps_of hmac v) r (w1\<lparr>cw_now := t\<rparr>)) = identity_error 429 ''slow_down'' \<and>
    cw_calls (snd (NewAuthHandler (connector_deps_of hmac v) r (w1\<lparr>cw_now := t\<rparr>))) = cw_calls w1"
proof -
  let ?D = "connector_deps_of hmac v"
  have l: "locked_identity k seen t (w1\<lparr>cw_now := t\<rparr>)"
    using serve_locked [OF assms(1,3,2), of v] by (simp add: locked_identity_def w1_def)
  obtain user pw where b: "decode_struct False auth_body_fields ([], []) (request_doc r) = Some (user, pw)"
    "hashIdentity hmac (caller_sub r) [user] = k" using assms(4) by (auto simp: attempted_def)
  have "\<not> fst (il_allow_key t t k (cw_identity w1))"
    using l trackOrCheck_tracked [of "cw_identity w1" k seen t True] assms(2)
    by (simp add: locked_identity_def il_wf_def il_allow_tracked)
  then have "gated ?D r auth_body_fields (\<lambda>(username, _). [username]) (w1\<lparr>cw_now := t\<rparr>) =
      (Inl (identity_error 429 ''slow_down''),
       snd (gated ?D r auth_body_fields (\<lambda>(username, _). [username]) (w1\<lparr>cw_now := t\<rparr>))) \<and>
     cw_calls (snd (gated ?D r auth_body_fields (\<lambda>(username, _). [username]) (w1\<lparr>cw_now := t\<rparr>))) = cw_calls w1"
    by (simp add: gated_def bindS_def or_write_def map_errS_def connector_grants_def connector_gate_def identityGateAllow_def
        il_allow_def b case_prod_beta)
  then show ?thesis
    by (cases "gated ?D r auth_body_fields (\<lambda>(username, _). [username]) (w1\<lparr>cw_now := t\<rparr>)")
      (simp add: NewAuthHandler_def auth_op_def run_handler_def bindS_def)
qed

subsection \<open>The audit trail\<close>

definition vendor_event :: "string \<Rightarrow> audit_kind \<Rightarrow> time \<Rightarrow> audit_event" where
  "vendor_event sub kind t = \<lparr>ae_Sub = sub, ae_Scope = ScopeConnectorIdentityLookup, ae_Kind = kind, ae_RecordIDs = [],
     ae_ReasonCode = [], ae_Timestamp = t\<rparr>"

lemma attempt_audit:
  "cw_audit (attempt_failed (connector_deps_of hmac v) sub ip ps w) = cw_audit w @ [vendor_event sub AuditAuthnFailure (cw_now w)]"
  "cw_audit (attempt_succeeded (connector_deps_of hmac v) sub ip ps w) = cw_audit w @ [vendor_event sub AuditSuccess (cw_now w)]"
  "cw_calls (attempt_failed (connector_deps_of hmac v) sub ip ps w) = cw_calls w"
  "cw_calls (attempt_succeeded (connector_deps_of hmac v) sub ip ps w) = cw_calls w"
  "cw_now (attempt_failed (connector_deps_of hmac v) sub ip ps w) = cw_now w"
  by (simp_all add: attempt_failed_def attempt_succeeded_def logAuditOutcome_def identityGateRecordFailure_def vendor_event_def
      identityGateRecordSuccess_def connector_wiring il_recordFailure_def il_recordSuccess_def)

text \<open>What one request may leave behind: nothing, when a gate or the body refused it; else one event.\<close>

definition audited :: "request \<Rightarrow> 'v connector_world \<Rightarrow> response \<Rightarrow> 'v connector_world \<Rightarrow> bool" where
  "audited r w resp w' \<longleftrightarrow>
     (rs_status resp \<in> {400, 429, 500} \<and> cw_audit w' = cw_audit w \<and> cw_calls w' = cw_calls w) \<or>
     (\<exists>t. rs_status resp = 401 \<and> cw_calls w' \<le> Suc (cw_calls w) \<and>
        cw_audit w' = cw_audit w @ [vendor_event (caller_sub r) AuditAuthnFailure t]) \<or>
     (\<exists>t. rs_status resp = 200 \<and> cw_calls w' = Suc (cw_calls w) \<and>
        cw_audit w' = cw_audit w @ [vendor_event (caller_sub r) AuditSuccess t])"

definition silent :: "'v connector_world \<Rightarrow> 'v connector_world \<Rightarrow> bool" where
  "silent w w' \<longleftrightarrow> cw_audit w' = cw_audit w \<and> cw_calls w' = cw_calls w"

lemma gated_silent:
  "triple (\<lambda>resp w'. rs_status resp \<in> {400, 429, 500} \<and> silent w w') (silent w) (gated (connector_deps_of hmac v) r fs parts)
     (\<lambda>_. silent w)"
proof -
  let ?D = "connector_deps_of hmac v"
  let ?E = "\<lambda>resp w'. rs_status resp \<in> {400, 429, 500} \<and> silent w w'"
  have allow: "triple ?E (silent w) (or_write (\<lambda>_. identity_error 500 x) (gi_Allow (cd_Limiter ?D) c ip)) (\<lambda>_. silent w)" for c ip x
    by (auto simp: triple_def or_write_def map_errS_def connector_grants_def silent_def split: prod.splits)
  have gate: "triple ?E (silent w) (or_write (\<lambda>_. identity_error 500 x) (identityGateAllow (cd_IdentityLimiter ?D) cx c ps)) (\<lambda>_. silent w)"
    for cx c ps x
    by (auto simp: triple_def or_write_def map_errS_def identityGateAllow_def connector_gate_def silent_def split: prod.splits)
  show ?thesis
    unfolding gated_def
    by (intro triple_bindS [OF allow] triple_if triple_failS triple_option triple_bindS [OF gate] triple_retS)
      (simp_all add: identity_error_def json_response_def)
qed

lemma vendor_triple:
  "triple (\<lambda>_ w'. cw_audit w' = cw_audit w \<and> cw_calls w' = Suc (cw_calls w)) (silent w) (on_vendor m)
     (\<lambda>_ w'. cw_audit w' = cw_audit w \<and> cw_calls w' = Suc (cw_calls w))"
  by (simp add: triple_def on_vendor_def silent_def split: prod.split sum.split)

lemma gated_audited:
  "triple (audited r w) (silent w) (gated (connector_deps_of hmac v) r fs parts) (\<lambda>_. silent w)"
  by (rule triple_conseq [OF gated_silent]) (auto simp: audited_def silent_def)

lemma auth_audited: "triple (audited r w) (silent w) (auth_op (connector_deps_of hmac v) r) (audited r w)"
proof -
  have vend: "vc_Authenticate (cd_Vendor (connector_deps_of hmac v)) cx u p = on_vendor (vc_Authenticate v cx u p)" for cx u p
    by (simp add: connector_deps_of_def)
  show ?thesis
    unfolding auth_op_def vend
    by (intro triple_bindS [OF gated_audited] triple_prod triple_catchS [OF vendor_triple] triple_denyS
        triple_bindS [OF triple_execS triple_retS])
      (auto simp: audited_def attempt_audit identity_error_def json_response_def)
qed

lemma floor_audit:
  "cw_audit (waitForFloor (connector_deps_of hmac v) start w) = cw_audit w"
  "cw_calls (waitForFloor (connector_deps_of hmac v) start w) = cw_calls w"
  by (simp_all add: waitForFloor_def connector_deps_of_def Let_def)

lemma identity_audited: "triple (audited r w) (silent w) (identity_op (connector_deps_of hmac v) r start) (audited r w)"
proof -
  have vend: "vc_FetchIdentity (cd_Vendor (connector_deps_of hmac v)) cx t ph nm = on_vendor (vc_FetchIdentity v cx t ph nm)"
    for cx t ph nm by (simp add: connector_deps_of_def)
  show ?thesis
    unfolding identity_op_def vend Let_def
    by (intro triple_bindS [OF gated_audited] triple_prod triple_if triple_catchS [OF vendor_triple] triple_denyS
        triple_bindS [OF triple_execS triple_retS])
      (auto simp: audited_def silent_def attempt_audit floor_audit writeIdentityFailure_def identity_error_def json_response_def)
qed

text \<open>
  C27. Every attempt that gets past the gates leaves exactly one audit event, a success if and only if the answer is 200,
  with the caller, the scope and the time and nothing of the person looked up; a request that a gate or the body
  refused leaves none and never reaches the vendor, and no request reaches it twice.
\<close>
theorem connector_audit_trail:
  "audited r w (fst (NewAuthHandler (connector_deps_of hmac v) r w)) (snd (NewAuthHandler (connector_deps_of hmac v) r w)) \<and>
   audited r w (fst (NewIdentityHandler (connector_deps_of hmac v) r w)) (snd (NewIdentityHandler (connector_deps_of hmac v) r w))"
proof -
  have s: "silent w w" by (simp add: silent_def)
  show ?thesis
    unfolding NewAuthHandler_def NewIdentityHandler_def
    by (intro conjI) (rule triple_run [OF auth_audited s], rule prod.collapse [symmetric],
      rule triple_run [OF identity_audited s], rule prod.collapse [symmetric])
qed

subsection \<open>A concrete connector\<close>

definition stub_world :: "stub_vendor connector_world" where
  "stub_world = (connector_start (Seed ''demo-user'' ''demo-password'' zero_identity NewStubVendorClient))\<lparr>cw_now := 100\<rparr>"

definition stub_deps :: "stub_vendor connector_world connector_deps" where
  "stub_deps = connector_deps_of id (StubVendorClient (\<lambda>_ n. Inr (replicate n CHR 0x2A)))"

definition connector_request :: "json \<Rightarrow> request" where
  "connector_request b = \<lparr>hr_ctx = None, hr_auth = Some \<lparr>ac_Sub = ''svc'', ac_Scope = ScopeConnectorIdentityLookup\<rparr>,
     hr_body = Some (Doc b), hr_path = (\<lambda>_. []), hr_query = (\<lambda>_. []), hr_header = (\<lambda>_. []), hr_remote = ''10.0.0.1:5000''\<rparr>"

definition auth_json :: "string \<Rightarrow> json" where
  "auth_json u = JObj [(''username'', JStr u), (''password'', JStr ''guess'')]"

lemma auth_json_decodes: "decode_struct False auth_body_fields ([], []) (request_doc (connector_request (auth_json u))) = Some (u, ''guess'')"
  by (simp add: connector_request_def request_doc_def auth_json_def decode_struct_def find_field_def auth_body_fields_def dec_str_def)

theorem identity_failures_uniform_witness:
  "fst (NewIdentityHandler stub_deps (connector_request (JObj [])) stub_world) = writeIdentityFailure \<and>
   100 + 100 * millisecond \<le> cw_now (snd (NewIdentityHandler stub_deps (connector_request (JObj [])) stub_world))"
proof -
  let ?r = "connector_request (JObj [])"
  have t: "trim_space [] = []" by code_simp
  have ok: "connector_clock_ok stub_deps" by (simp add: stub_deps_def connector_clock)
  have a: "fst (gl_allow 100 c ip (cw_limiter stub_world))" for c ip
    by (simp add: gl_allow_def gl_sweep_def gl_sweepMap_def sweep_map_def isBlocked_def stub_world_def connector_start_def
        NewInProcessGrantLimiter_def Let_def)
  have i: "fst (il_allow_key 100 100 k NewIdentityRateLimiter)" for k
    by (simp add: il_allow_key_def trackOrCheck_def il_sweep_def NewIdentityRateLimiter_def NewInProcessGrantLimiter_def Let_def
        gl_allow_def gl_sweep_def gl_sweepMap_def sweep_map_def isBlocked_def maxTrackedIdentities_def sweep_alist_def case_prod_beta)
  have now: "cw_now stub_world = 100" "cw_identity stub_world = NewIdentityRateLimiter"
    by (simp_all add: stub_world_def connector_start_def)
  have d: "decode_struct False identity_body_fields ([], []) (request_doc ?r) = Some ([], [])" "hr_header ?r = (\<lambda>_. [])"
    by (simp_all add: connector_request_def request_doc_def decode_struct_def)
  obtain resp s' where run: "NewIdentityHandler stub_deps ?r stub_world = (resp, s')" by fastforce
  have "resp = writeIdentityFailure"
    using run a i by (simp add: NewIdentityHandler_def identity_op_def run_handler_def gated_def bindS_def or_write_def map_errS_def
      stub_deps_def connector_grants_def connector_gate_def identityGateAllow_def il_allow_def now d t case_prod_beta Let_def)
  then have "rs_status resp = 401" by (simp add: writeIdentityFailure_def identity_error_def json_response_def)
  from identity_failures_uniform [OF ok run this] run show ?thesis
    by (simp add: stub_deps_def connector_deps_of_def now(1) identityFailureFloor_def)
qed

definition locked_world :: "stub_vendor connector_world" where
  "locked_world = stub_world\<lparr>cw_identity := NewIdentityRateLimiter\<lparr>
     trackedAt := [(hashIdentity id ''svc'' [''alice''], 2)],
     il_underlying := gl_recordFailure 3 (hashIdentity id ''svc'' [''alice'']) (hashIdentity id ''svc'' [''alice''])
       (NewInProcessGrantLimiter (1 * second) (5 * minute) 10 False)\<rparr>\<rparr>"

theorem identity_lockout_survives_witness:
  "fst (NewAuthHandler stub_deps (connector_request (auth_json ''alice''))
     ((serve_auth stub_deps [(4, connector_request (auth_json ''bob''))] locked_world)\<lparr>cw_now := 5\<rparr>)) = identity_error 429 ''slow_down''"
proof -
  let ?k = "hashIdentity id ''svc'' [''alice'']"
  have sub: "caller_sub (connector_request b) = ''svc''" for b by (simp add: caller_sub_def connector_request_def)
  have "gl_blocked 5 (?k, ?k) (gl_recordFailure 3 ?k ?k (NewInProcessGrantLimiter (1 * second) (5 * minute) 10 False))"
    by (simp add: gl_blocked_def gl_recordFailure_blocked_client NewInProcessGrantLimiter_def failures_def grant_backoff_def
        time_simps wrap64_id Let_def)
  then have l: "locked_identity ?k 2 5 locked_world"
    by (simp add: locked_identity_def locked_world_def il_wf_def maxTrackedIdentities_def gl_keys_def gl_cfg_def
        NewIdentityRateLimiter_def NewInProcessGrantLimiter_def failures_def)
  have a: "attempted id (connector_request (auth_json u)) = Some (hashIdentity id ''svc'' [u])" for u
    by (simp add: attempted_def auth_json_decodes sub)
  have n: "hashIdentity id ''svc'' [''bob''] \<noteq> ?k" by (simp add: hashIdentity_def hash_input_def)
  from identity_lockout_survives [OF l, of "[(4, connector_request (auth_json ''bob''))]" id "connector_request (auth_json ''alice'')"
      _ "StubVendorClient (\<lambda>_ n. Inr (replicate n CHR 0x2A))"]
  show ?thesis using n by (simp add: a identityTrackedKeyTTL_def hour_def stub_deps_def)
qed

end
