(* ===== verification/Routers.thy ===== *)
theory Routers
  imports Mux Startup Issuer ConnectorRouter
begin

section \<open>internal/app: the routers\<close>

text \<open>
  The four constructors of internal/app as tables of routes over the state of their process, each started from the caches,
  limiters and counters it creates. \<open>protect\<close> is the deadline around the token check. The build identifier, the demo page,
  \<open>context.WithTimeout\<close> and the ping are arguments.
\<close>

subsection \<open>app.go\<close>

definition health_response :: "string \<Rightarrow> string \<Rightarrow> string \<Rightarrow> response" where
  "health_response commit service db =
     json_response 200 (JObj ([(''status'', JStr ''ok''), (''service'', JStr service), (''build'', JStr commit)] @ str_member ''db'' db))"

definition dbPingTimeout :: duration where "dbPingTimeout = 1 * second"

definition healthHandlerWithDB ::
  "(duration \<Rightarrow> ctx \<Rightarrow> ctx) \<Rightarrow> ('d \<Rightarrow> ctx \<Rightarrow> 's \<Rightarrow> goerr option \<times> 's) \<Rightarrow> string \<Rightarrow> string \<Rightarrow> 'd option \<Rightarrow> 's served" where
  "healthHandlerWithDB with_timeout ping commit service pingDB x s =
     (case pingDB of
        None \<Rightarrow> (health_response commit service ''down'', s)
      | Some db \<Rightarrow> (case ping db (with_timeout dbPingTimeout (hr_ctx (in_req x))) s of
          (err, s1) \<Rightarrow> (health_response commit service (if err = None then ''ok'' else ''down''), s1)))"

definition healthHandler :: "string \<Rightarrow> string \<Rightarrow> 's served" where
  "healthHandler commit service x s = (health_response commit service [], s)"

definition issuerPlaceholderHandler :: "'s served" where
  "issuerPlaceholderHandler x s = (http_Error 501 (''token issuance not yet implemented '' @ [CHR 0xE2, CHR 0x80, CHR 0x94] @ '' reserved for LT-40''), s)"

definition NewRouter :: "string \<Rightarrow> string \<Rightarrow> string \<Rightarrow> 's served route list" where
  "NewRouter commit service mode =
     handle ''/healthz'' (healthHandler commit service) #
     (if mode = ''issuer'' then [handle ''/auth/token'' issuerPlaceholderHandler] else [])"

definition protect :: "(duration \<Rightarrow> ctx \<Rightarrow> ctx) \<Rightarrow> 's jwt_verifier \<Rightarrow> 's audit_log \<Rightarrow> 's http_handler \<Rightarrow> 's served" where
  "protect with_timeout v aud h x = NewDeadlineMiddleware with_timeout (NewJWTMiddleware v (Some aud) h) (in_req x)"

subsection \<open>verifier_router.go and demo.go\<close>

record 'w verifier_world = api_world +
  vw_keys :: jwks_cache
  vw_rest :: 'w

record ('d, 'w) verifier_lib =
  vl_with_timeout :: "duration \<Rightarrow> ctx \<Rightarrow> ctx"
  vl_ping :: "'d \<Rightarrow> ctx \<Rightarrow> 'w verifier_world \<Rightarrow> goerr option \<times> 'w verifier_world"
  vl_parse :: "'w verifier_world jwt_parse"
  vl_jwks :: "'w jwks_env"
  vl_search :: "'d repository \<Rightarrow> ctx \<Rightarrow> profile_query \<Rightarrow> ('w verifier_world, goerr, user_profile list \<times> int) op"
  vl_get :: "'d repository \<Rightarrow> ctx \<Rightarrow> string \<Rightarrow> ('w verifier_world, goerr, user_profile) op"
  vl_commit :: string
  vl_demoPage :: string

definition jwksCacheTTL :: duration where "jwksCacheTTL = 15 * minute"

definition verifier_keys :: "'w jwks_env \<Rightarrow> 'w verifier_world key_source" where
  "verifier_keys e cx kid w =
     (case KeyForKid e cx kid (vw_keys w, vw_rest w) of (x, (c, r)) \<Rightarrow> (x, w\<lparr>vw_keys := c, vw_rest := r\<rparr>))"

definition verifier_audit :: "'w verifier_world audit_log" where
  "verifier_audit = \<lparr>al_log = (\<lambda>ev w. w\<lparr>aw_audit := aw_audit w @ [ev]\<rparr>), al_now = aw_clock\<rparr>"

definition stopgapReadOwnAllow :: "config \<Rightarrow> string \<rightharpoonup> (string \<rightharpoonup> bool)" where
  "stopgapReadOwnAllow cfg =
     (if cfg_AuthzQASub cfg = [] \<or> cfg_AuthzQAAllowedProfileID cfg = [] then Map.empty
      else [cfg_AuthzQASub cfg \<mapsto> [cfg_AuthzQAAllowedProfileID cfg \<mapsto> True]])"

definition demoHandler :: "string \<Rightarrow> 's served" where
  "demoHandler demoPage x s =
     (\<lparr>rs_status = 200, rs_headers = [(''Content-Type'', ''text/html; charset=utf-8'')], rs_body = Text demoPage\<rparr>, s)"

definition verifier_jwt :: "('d, 'w) verifier_lib \<Rightarrow> config \<Rightarrow> 'w verifier_world jwt_verifier" where
  "verifier_jwt lib cfg = \<lparr>jv_parse = vl_parse lib, jv_keys = verifier_keys (vl_jwks lib),
     jv_issuer = cfg_AuthJWTIssuer cfg, jv_audience = cfg_AuthJWTAudience cfg\<rparr>"

definition verifier_handlers :: "('d, 'w) verifier_lib \<Rightarrow> config \<Rightarrow> 'd repository option \<Rightarrow>
    'w verifier_world http_handler \<times> 'w verifier_world http_handler" where
  "verifier_handlers lib cfg repo =
     (case repo of
        None \<Rightarrow> ((\<lambda>r s. (WriteServiceUnavailable, s)), (\<lambda>r s. (WriteServiceUnavailable, s)))
      | Some d \<Rightarrow>
          let deps = in_process_deps (vl_search lib d) (vl_get lib d) (stopgapReadOwnAllow cfg)
          in (search_handler deps, get_profile_handler deps))"

definition NewVerifierRouter :: "('d, 'w) verifier_lib \<Rightarrow> config \<Rightarrow> 'd repository option \<Rightarrow> 'd option \<Rightarrow>
    'w verifier_world served route list" where
  "NewVerifierRouter lib cfg repo pingDB =
     (let guard = protect (vl_with_timeout lib) (verifier_jwt lib cfg) verifier_audit;
          (searchHandler, getHandler) = verifier_handlers lib cfg repo
      in [handle ''/healthz'' (healthHandlerWithDB (vl_with_timeout lib) (vl_ping lib) (vl_commit lib) ''api-service'' pingDB),
          handle ''POST /profiles/search'' (guard searchHandler),
          handle ''GET /profiles/{id}'' (guard getHandler),
          handle ''GET /demo'' (demoHandler (vl_demoPage lib))])"

definition verifier_start :: "config \<Rightarrow> time \<Rightarrow> 'w \<Rightarrow> 'w verifier_world" where
  "verifier_start cfg now w =
     \<lparr>aw_clock = now, aw_rate = NewInProcessRateLimiter, aw_touch = NewInProcessTouchCounter TouchCapPerWindow TouchCapWindow,
      aw_audit = [], vw_keys = NewJWKSCache (cfg_AuthJWKSURL cfg) jwksCacheTTL, vw_rest = w\<rparr>"

subsection \<open>issuer_router.go\<close>

definition NewIssuerRouter :: "string \<Rightarrow> 'k issuer_lib \<Rightarrow> ('d \<Rightarrow> nat \<Rightarrow> goerr option) \<Rightarrow> string \<Rightarrow> config \<Rightarrow> 'k signing_key \<Rightarrow>
    'd option \<Rightarrow> issuer_world served route list" where
  "NewIssuerRouter commit lib faults dummy cfg key issuerDB =
     [handle ''/healthz'' (healthHandler commit ''api-service''),
      handle ''/.well-known/jwks.json'' (\<lambda>x s. (NewJWKSHandler key, s)),
      handle ''POST /auth/token''
        (\<lambda>x. NewTokenHandler (issuer_deps lib (map_option faults issuerDB) key (cfg_AuthJWTIssuer cfg) dummy) (in_form x))]"

subsection \<open>connector_router.go\<close>

record ('v, 'w) connector_process =
  cp_world :: "'v connector_world"
  cp_keys :: jwks_cache
  cp_rest :: 'w

record ('v, 'w) connector_lib =
  cl_with_timeout :: "duration \<Rightarrow> ctx \<Rightarrow> ctx"
  cl_parse :: "('v, 'w) connector_process jwt_parse"
  cl_jwks :: "'w jwks_env"
  cl_hmac :: "string \<Rightarrow> string"
  cl_commit :: string

definition connectorJWKSCacheTTL :: duration where "connectorJWKSCacheTTL = 15 * minute"

definition connector_keys :: "'w jwks_env \<Rightarrow> ('v, 'w) connector_process key_source" where
  "connector_keys e cx kid p =
     (case KeyForKid e cx kid (cp_keys p, cp_rest p) of (x, (c, r)) \<Rightarrow> (x, p\<lparr>cp_keys := c, cp_rest := r\<rparr>))"

definition connector_log :: "('v, 'w) connector_process audit_log" where
  "connector_log = \<lparr>al_log = (\<lambda>ev p. p\<lparr>cp_world := al_log connector_audit ev (cp_world p)\<rparr>), al_now = (\<lambda>p. cw_now (cp_world p))\<rparr>"

definition connector_jwt :: "('v, 'w) connector_lib \<Rightarrow> config \<Rightarrow> ('v, 'w) connector_process jwt_verifier" where
  "connector_jwt lib cfg = \<lparr>jv_parse = cl_parse lib, jv_keys = connector_keys (cl_jwks lib),
     jv_issuer = cfg_AuthJWTIssuer cfg, jv_audience = cfg_ConnectorJWTAudience cfg\<rparr>"

definition on_world :: "'v connector_world http_handler \<Rightarrow> ('v, 'w) connector_process http_handler" where
  "on_world h r p = (case h r (cp_world p) of (resp, w) \<Rightarrow> (resp, p\<lparr>cp_world := w\<rparr>))"

definition NewConnectorRouter :: "('v, 'w) connector_lib \<Rightarrow> config \<Rightarrow> 'v vendor_client \<Rightarrow> ('v, 'w) connector_process served route list" where
  "NewConnectorRouter lib cfg vendor =
     (let guard = protect (cl_with_timeout lib) (connector_jwt lib cfg) connector_log;
          deps = connector_deps_of (cl_hmac lib) vendor
      in [handle ''/healthz'' (healthHandler (cl_commit lib) ''idp-connector''),
          handle ''POST /auth'' (guard (on_world (NewAuthHandler deps))),
          handle ''POST /identity'' (guard (on_world (NewIdentityHandler deps)))])"

definition connector_process_start :: "config \<Rightarrow> 'v \<Rightarrow> 'w \<Rightarrow> ('v, 'w) connector_process" where
  "connector_process_start cfg v w =
     \<lparr>cp_world = connector_start v, cp_keys = NewJWKSCache (cfg_AuthJWKSURL cfg) connectorJWKSCacheTTL, cp_rest = w\<rparr>"

subsection \<open>main.go: the metrics server\<close>

definition startMetricsServer :: "sweep_store \<Rightarrow> (sweep_registry \<Rightarrow> response) \<Rightarrow> time \<Rightarrow> sweep_db served route list" where
  "startMetricsServer store render now = [handle ''GET /metrics'' (\<lambda>x. NewMetricsHandler store render now)]"

subsection \<open>The tables\<close>

lemma handle_simps:
  "handle ''/healthz'' h = \<lparr>rt_method = [], rt_path = [Lit ''healthz''], rt_handler = h\<rparr>"
  "handle ''POST /profiles/search'' h = \<lparr>rt_method = ''POST'', rt_path = [Lit ''profiles'', Lit ''search''], rt_handler = h\<rparr>"
  "handle ''GET /profiles/{id}'' h = \<lparr>rt_method = ''GET'', rt_path = [Lit ''profiles'', Wild ''id''], rt_handler = h\<rparr>"
  "handle ''GET /demo'' h = \<lparr>rt_method = ''GET'', rt_path = [Lit ''demo''], rt_handler = h\<rparr>"
  "handle ''/.well-known/jwks.json'' h = \<lparr>rt_method = [], rt_path = [Lit ''.well-known'', Lit ''jwks.json''], rt_handler = h\<rparr>"
  "handle ''POST /auth/token'' h = \<lparr>rt_method = ''POST'', rt_path = [Lit ''auth'', Lit ''token''], rt_handler = h\<rparr>"
  "handle ''/auth/token'' h = \<lparr>rt_method = [], rt_path = [Lit ''auth'', Lit ''token''], rt_handler = h\<rparr>"
  "handle ''POST /auth'' h = \<lparr>rt_method = ''POST'', rt_path = [Lit ''auth''], rt_handler = h\<rparr>"
  "handle ''POST /identity'' h = \<lparr>rt_method = ''POST'', rt_path = [Lit ''identity''], rt_handler = h\<rparr>"
  by (simp_all add: handle_def pattern_segment_def Let_def)

lemma tables_unambiguous:
  "unambiguous (NewVerifierRouter vl cfg repo pingDB)" "unambiguous (NewIssuerRouter b il f dummy cfg key db)"
  "unambiguous (NewConnectorRouter cl cfg vendor)" "unambiguous (NewRouter b service mode)"
  by (simp_all add: NewVerifierRouter_def NewIssuerRouter_def NewConnectorRouter_def NewRouter_def handle_simps overlap_def
      method_ok_def segments_overlap_def case_prod_beta Let_def)

end
