(* ===== verification/SqliteSpec.thy ===== *)
theory SqliteSpec
  imports SqliteDao "HOL-Library.Multiset"
begin

section \<open>What the SQLite repository guarantees\<close>

text \<open>
  The schema invariant and its preservation by every write, atomicity of the cross-table write, the
  deletion log, error translation, the meaning of the search pattern and of pagination, and the
  specification of one retention batch that the sweep loop builds on.
\<close>

subsection \<open>Schema invariant\<close>

lemma db_keeps_run [db_rules]: "stmt_keeps P f \<Longrightarrow> db_keeps P (run_stmt e f)"
  unfolding run_stmt_def by (intro keep_rules db_rules)

lemma db_keeps_scan [db_rules]: "stmt_keeps P f \<Longrightarrow> db_keeps P (scan_row e f)"
  unfolding scan_row_def by (intro keep_rules db_rules)

lemma db_keeps_rows_err [db_rules]: "db_keeps P (rows_err e)"
  unfolding rows_err_def by (intro keep_rules db_rules keeps_select)

lemma db_keeps_now [db_rules]: "db_keeps P (now_text e)"
  unfolding now_text_def by (intro keep_rules db_rules)

lemma db_keeps_validateMethod [db_rules]: "db_keeps P (validateMethod e m st)"
  unfolding validateMethod_def by (intro keep_rules db_rules keeps_select)

lemma db_keeps_Get [db_rules]: "db_keeps P (sqlite_Get e i)"
  unfolding sqlite_Get_def by (intro keep_rules db_rules keeps_select)

lemma db_keeps_GetByUsername [db_rules]: "db_keeps P (sqlite_GetByUsername e u)"
  unfolding sqlite_GetByUsername_def by (intro keep_rules db_rules keeps_select)

lemma set_row_simps [simp]:
  "up_ID (set_profile p now r) = up_ID r" "uc_ID (set_credential c now x) = uc_ID x"
  "uc_UserID (set_credential c now x) = uc_UserID x" "uc_Username (set_credential c now x) = uc_Username c"
  "up_ID (profile_row i now p) = i" "uc_ID (credential_row i u now c) = i"
  "uc_UserID (credential_row i u now c) = u" "uc_Username (credential_row i u now c) = uc_Username c"
  by (simp_all add: set_profile_def set_credential_def profile_row_def credential_row_def)

lemma keeps_delete_dep [wf_stmts]: "stmt_keeps (db_wf e) (\<lambda>d. delete_profiles e (P d) d)"
  using keeps_delete_profiles [of e] by (auto simp: stmt_keeps_def)

lemma keeps_delete_loop: "db_keeps (db_wf e) (sqlite_delete_loop e cl clock extra cutoff ids n)"
  by (induction ids arbitrary: n) (auto intro!: keep_rules db_rules wf_stmts)

lemma keeps_DeleteExpired: "db_keeps (db_wf e) (sqlite_DeleteExpired e cl t m)"
  unfolding sqlite_DeleteExpired_def Let_def
  by (auto intro!: keep_rules db_rules wf_stmts keeps_delete_loop split: option.splits)

text \<open>
  Every write of the repository keeps the schema invariant on every path, faults included:
  unique ids and usernames, the CHECK constraints of every row, and (with foreign keys on) no
  credential without its profile and method.
\<close>
theorem sqlite_keeps_schema:
  "db_keeps (db_wf e) (sqlite_Create e p) \<and> db_keeps (db_wf e) (sqlite_Update e p) \<and>
   db_keeps (db_wf e) (sqlite_Upsert e p) \<and> db_keeps (db_wf e) (sqlite_Delete e i) \<and>
   db_keeps (db_wf e) (sqlite_CreateCredential e c) \<and> db_keeps (db_wf e) (sqlite_UpdateCredential e c) \<and>
   db_keeps (db_wf e) (sqlite_DeleteCredential e i) \<and>
   db_keeps (db_wf e) (sqlite_CreateProfileWithCredential e p c) \<and>
   db_keeps (db_wf e) (sqlite_DeleteExpired e cl t m) \<and> db_keeps (db_wf e) (sqlite_DeleteProfile e i r)"
proof (intro conjI)
  show "db_keeps (db_wf e) (sqlite_Create e p)"
    unfolding sqlite_Create_def Let_def by (intro keep_rules db_rules wf_stmts)
  show "db_keeps (db_wf e) (sqlite_Update e p)"
    unfolding sqlite_Update_def Let_def by (intro keep_rules db_rules wf_stmts) simp
  show "db_keeps (db_wf e) (sqlite_Upsert e p)"
    unfolding sqlite_Upsert_def Let_def by (intro keep_rules db_rules wf_stmts) simp
  show "db_keeps (db_wf e) (sqlite_Delete e i)"
    unfolding sqlite_Delete_def by (intro keep_rules db_rules wf_stmts)
  show "db_keeps (db_wf e) (sqlite_CreateCredential e c)"
    unfolding sqlite_CreateCredential_def by (intro keep_rules db_rules wf_stmts)
  show "db_keeps (db_wf e) (sqlite_UpdateCredential e c)"
    unfolding sqlite_UpdateCredential_def by (intro keep_rules db_rules wf_stmts) simp_all
  show "db_keeps (db_wf e) (sqlite_DeleteCredential e i)"
    unfolding sqlite_DeleteCredential_def by (intro keep_rules db_rules wf_stmts)
  show "db_keeps (db_wf e) (sqlite_CreateProfileWithCredential e p c)"
    unfolding sqlite_CreateProfileWithCredential_def create_pair_body_def Let_def by (intro keep_rules db_rules wf_stmts)
  show "db_keeps (db_wf e) (sqlite_DeleteExpired e cl t m)" by (rule keeps_DeleteExpired)
  show "db_keeps (db_wf e) (sqlite_DeleteProfile e i r)"
    unfolding sqlite_DeleteProfile_def by (intro keep_rules db_rules wf_stmts)
qed

subsection \<open>What a successful step did\<close>

lemma exec_InrD: "exec e f s = (Inr x, s') \<Longrightarrow> f (st_db s) = Inr (x, st_db s')"
  by (auto simp: exec_def Let_def split: option.splits sum.splits)

lemma exec_InlD: "exec e f s = (Inl x, s') \<Longrightarrow> st_db s' = st_db s"
  by (auto simp: exec_def Let_def split: option.splits sum.splits)

lemma run_stmt_InrD: "run_stmt e f s = (Inr x, s') \<Longrightarrow> f (st_db s) = Inr (x, st_db s')"
  by (auto simp: run_stmt_def map_errS_eq_Inr dest: exec_InrD)

lemma scan_row_InrD: "scan_row e f s = (Inr x, s') \<Longrightarrow> f (st_db s) = Inr (x, st_db s')"
  by (auto simp: scan_row_def map_errS_eq_Inr dest: exec_InrD)

lemma select_Inr:
  "select_stmt f d = Inr (x, d') \<longleftrightarrow> x = f d \<and> d' = d"
  "select_one g d = Inr (x, d') \<longleftrightarrow> g d = Some x \<and> d' = d"
  by (auto simp: select_stmt_def select_one_def split: option.splits)

lemma get_uuid_D: "get_uuid e s = (r, s') \<Longrightarrow> st_db s' = st_db s \<and> (\<exists>n. r = Inr (en_uuid e n))"
  by (auto simp: get_uuid_def)

lemma now_text_D: "now_text e s = (r, s') \<Longrightarrow> st_db s' = st_db s \<and> (\<exists>n. r = Inr (en_stamp e (en_now e n)))"
  by (auto simp: now_text_def get_now_def bindS_def)

text \<open>Reads leave the database alone.\<close>

definition db_read :: "'a dbop \<Rightarrow> bool" where
  "db_read m \<longleftrightarrow> (\<forall>s. st_db (snd (m s)) = st_db s)"

lemma db_readD: "db_read m \<Longrightarrow> m s = (r, s') \<Longrightarrow> st_db s' = st_db s"
  by (auto simp: db_read_def) (metis snd_conv)

lemma db_read_keeps: "(\<And>P. db_keeps P m) \<Longrightarrow> db_read m"
proof -
  assume k: "\<And>P. db_keeps P m"
  have "st_db (snd (m s)) = st_db s" for s
    using keepsD [OF k [of "\<lambda>d. d = st_db s"]] by simp
  then show ?thesis by (simp add: db_read_def)
qed

lemmas db_reads [THEN db_read_keeps, THEN db_readD] = db_keeps_Get db_keeps_GetByUsername db_keeps_validateMethod
  db_keeps_rows_err

lemma validateMethod_InrD:
  "validateMethod e m st s = (Inr u, s') \<Longrightarrow>
     \<exists>am. find (\<lambda>x. am_ID x = m) (db_methods (st_db s)) = Some am \<and> am_IsActive am \<and>
       (st = ''set'' \<longrightarrow> am_RequiresSecret am)"
  by (auto simp: validateMethod_def bindS_eq_Inr map_errS_eq_Inr select_Inr dest!: exec_InrD split: if_splits)

lemma first_failed_SomeD: "first_failed cs = Some x \<Longrightarrow> \<not> all_hold cs"
  using first_failed_None [of cs] by simp

lemma insert_profile_Inr:
  "insert_profile e p d = Inr (u, d') \<longleftrightarrow> all_hold (profile_checks e p) \<and>
     up_ID p \<notin> up_ID ` set (db_profiles d) \<and> d' = d\<lparr>db_profiles := db_profiles d @ [p]\<rparr>"
  by (auto simp: insert_profile_def split: option.splits dest: first_failed_SomeD)

lemma insert_credential_Inr:
  "insert_credential e c d = Inr (u, d') \<longleftrightarrow> all_hold (credential_checks c) \<and>
     uc_ID c \<notin> uc_ID ` set (db_credentials d) \<and> \<not> list_ex (same_username e (uc_Username c)) (db_credentials d) \<and>
     fk_failed e c d = None \<and> d' = d\<lparr>db_credentials := db_credentials d @ [c]\<rparr>"
  by (auto simp: insert_credential_def split: option.splits dest: first_failed_SomeD)

lemma sqlite_Get_InrD: "sqlite_Get e i s = (Inr p, s') \<Longrightarrow> profile_by_id i (st_db s) = Some p"
  by (auto simp: sqlite_Get_def bindS_eq_Inr select_Inr dest!: scan_row_InrD)

lemma sqlite_GetByUsername_InrD:
  "sqlite_GetByUsername e u s = (Inr c, s') \<Longrightarrow> find (same_username e u) (db_credentials (st_db s)) = Some c"
  by (auto simp: sqlite_GetByUsername_def select_Inr dest!: scan_row_InrD)

lemma find_append_new: "\<forall>x \<in> set xs. \<not> P x \<Longrightarrow> P y \<Longrightarrow> find P (xs @ [y]) = Some y"
  by (induction xs) auto

subsection \<open>Cross-table write\<close>

definition new_pair ::
  "env \<Rightarrow> user_profile \<Rightarrow> user_credential \<Rightarrow> string \<Rightarrow> string \<Rightarrow> time \<Rightarrow> user_profile \<times> user_credential" where
  "new_pair e p c i j now =
     (profile_row i now (NormalizeProfileForWrite (en_toUpper e) p), credential_row j i now c)"

lemma create_pair_body_Inr:
  assumes "create_pair_body e (NormalizeProfileForWrite (en_toUpper e) p) (PrepareCreateProfileWithCredential c) s = (Inr i, s')"
  shows "\<exists>j now p' c'. new_pair e p c i j now = (p', c') \<and>
      st_db s' = (st_db s)\<lparr>db_profiles := db_profiles (st_db s) @ [p'], db_credentials := db_credentials (st_db s) @ [c']\<rparr> \<and>
      profile_by_id i (st_db s') = Some p' \<and>
      find (same_username e (uc_Username c)) (db_credentials (st_db s')) = Some c'"
proof -
  let ?p = "NormalizeProfileForWrite (en_toUpper e) p" and ?c = "PrepareCreateProfileWithCredential c"
  obtain now j s1 s2 s3 s4 s5 where st: "get_uuid e s = (Inr i, s1)" "now_text e s1 = (Inr now, s2)"
    "run_stmt e (insert_profile e (profile_row i now ?p)) s2 = (Inr (), s3)"
    "validateMethod e (uc_MethodID ?c) (uc_SecretState ?c) s3 = (Inr (), s4)"
    "get_uuid e s4 = (Inr j, s5)"
    "run_stmt e (insert_credential e (credential_row j i now ?c)) s5 = (Inr (), s')"
    using assms by (auto simp: create_pair_body_def bindS_eq_Inr)
  have a: "st_db s2 = st_db s" using get_uuid_D [OF st(1)] now_text_D [OF st(2)] by simp
  have b: "st_db s5 = st_db s3" using get_uuid_D [OF st(5)] db_reads(3) [OF st(4)] by simp
  note ins = run_stmt_InrD [OF st(3)] and cred = run_stmt_InrD [OF st(6)]
  have c: "credential_row j i now ?c = credential_row j i now c"
    by (simp add: credential_row_def PrepareCreateProfileWithCredential_def)
  let ?p' = "profile_row i now ?p" and ?c' = "credential_row j i now c"
  have db: "st_db s' = (st_db s)\<lparr>db_profiles := db_profiles (st_db s) @ [?p'],
      db_credentials := db_credentials (st_db s) @ [?c']\<rparr>"
    using ins cred a b by (auto simp: insert_profile_Inr insert_credential_Inr c)
  have "profile_by_id i (st_db s') = Some ?p'"
    using ins a unfolding profile_by_id_def by (subst db) (auto simp: insert_profile_Inr intro!: find_append_new)
  moreover have "find (same_username e (uc_Username c)) (db_credentials (st_db s')) = Some ?c'"
    using ins cred a b
    by (subst db) (auto simp: insert_profile_Inr insert_credential_Inr c list_ex_iff same_username_def
        intro!: find_append_new)
  ultimately show ?thesis using db by (auto simp: new_pair_def)
qed

text \<open>
  C31. Creating a profile with its credential is all or nothing: whatever statement fails, and also
  when the commit or a later read fails, either the database is unchanged and the call reports an
  error, or exactly the two new rows were added, the credential refers to the new profile (never to a
  caller-supplied user id), and a successful call returns exactly those rows.
\<close>
theorem create_profile_with_credential_atomic:
  "case sqlite_CreateProfileWithCredential e p c s of (r, s') \<Rightarrow>
     (\<exists>err. r = Inl err) \<and> st_db s' = st_db s \<or>
     (\<exists>i j now p' c'. new_pair e p c i j now = (p', c') \<and> r \<in> {Inr (p', c')} \<union> range Inl \<and>
        st_db s' = (st_db s)\<lparr>db_profiles := db_profiles (st_db s) @ [p'],
          db_credentials := db_credentials (st_db s) @ [c']\<rparr>)"
proof -
  let ?p = "NormalizeProfileForWrite (en_toUpper e) p" and ?c = "PrepareCreateProfileWithCredential c"
  obtain r s' where run: "sqlite_CreateProfileWithCredential e p c s = (r, s')" by (metis prod.exhaust)
  let ?tx = "in_tx e sqlite_translateError (create_pair_body e ?p ?c)"
  let ?rest = "\<lambda>i. bindS (sqlite_Get e i) (\<lambda>cp. bindS (sqlite_GetByUsername e (uc_Username ?c)) (\<lambda>cc. retS (cp, cc)))"
  have "(\<exists>err. r = Inl err \<and> s' = s) \<or> bindS ?tx ?rest s = (r, s')"
    using run by (auto simp: sqlite_CreateProfileWithCredential_def Let_def bindS_def liftS_def
        split: sum.splits if_splits)
  then consider (early) err where "r = Inl err" "s' = s"
    | (txerr) err where "?tx s = (Inl err, s')" "r = Inl err"
    | (committed) i s1 where "?tx s = (Inr i, s1)" "?rest i s1 = (r, s')"
    by (auto simp: bindS_def split: prod.splits sum.splits)
  then show ?thesis
  proof cases
    case early
    then show ?thesis by (simp add: run)
  next
    case txerr
    then show ?thesis using in_tx_Inl [OF txerr(1)] by (simp add: run)
  next
    case committed
    obtain s2 s3 where b: "st_db s2 = st_db s" "create_pair_body e ?p ?c s2 = (Inr i, s3)" "st_db s1 = st_db s3"
      using committed(1) by (rule in_tx_Inr)
    obtain j now p' c' where pair: "new_pair e p c i j now = (p', c')"
      and db: "st_db s3 = (st_db s)\<lparr>db_profiles := db_profiles (st_db s) @ [p'],
          db_credentials := db_credentials (st_db s) @ [c']\<rparr>"
      and got: "profile_by_id i (st_db s3) = Some p'"
        "find (same_username e (uc_Username c)) (db_credentials (st_db s3)) = Some c'"
      using create_pair_body_Inr [OF b(2)] b(1) by auto
    have "db_read (?rest i)"
      by (intro db_read_keeps keep_rules db_rules db_keeps_Get db_keeps_GetByUsername)
    then have s': "st_db s' = st_db s1" using committed(2) by (rule db_readD)
    have "r \<in> {Inr (p', c')} \<union> range Inl"
    proof (cases r)
      case (Inr y)
      obtain cp cc t where g: "sqlite_Get e i s1 = (Inr cp, t)"
        "sqlite_GetByUsername e (uc_Username ?c) t = (Inr cc, s')" "y = (cp, cc)"
        using committed(2) Inr by (auto simp: bindS_eq_Inr)
      have u: "uc_Username ?c = uc_Username c" by (simp add: PrepareCreateProfileWithCredential_def)
      have "cp = p'" using sqlite_Get_InrD [OF g(1)] got(1) b(3) by simp
      moreover have "cc = c'"
        using sqlite_GetByUsername_InrD [OF g(2)] got(2) b(3) db_reads(1) [OF g(1)] by (simp add: u)
      ultimately show ?thesis using g(3) Inr by simp
    qed simp
    then have "\<exists>i j now p' c'. new_pair e p c i j now = (p', c') \<and> r \<in> {Inr (p', c')} \<union> range Inl \<and>
        st_db s' = (st_db s)\<lparr>db_profiles := db_profiles (st_db s) @ [p'],
          db_credentials := db_credentials (st_db s) @ [c']\<rparr>"
      using pair db s' b(3) by metis
    then show ?thesis unfolding run prod.case by (rule disjI2)
  qed
qed

subsection \<open>The search pattern\<close>

lemma like_percent_end: "like_match ''%'' s"
  by (induction s) simp_all

lemma like_literal: "like_match (escapeLike n @ ps) s \<longleftrightarrow> (\<exists>r. s = n @ r \<and> like_match ps r)"
proof (induction n arbitrary: s)
  case Nil
  then show ?case by (simp add: escapeLike_def)
next
  case (Cons c n)
  have "escapeLike (c # n) @ ps = (if c = CHR 0x5C \<or> c = CHR ''%'' \<or> c = CHR ''_'' then [CHR 0x5C, c] else [c])
      @ escapeLike n @ ps"
    by (simp add: escapeLike_def)
  then have "like_match (escapeLike (c # n) @ ps) s \<longleftrightarrow> (\<exists>t. s = c # t \<and> like_match (escapeLike n @ ps) t)"
    by (cases s) auto
  then show ?case using Cons.IH by auto
qed

lemma like_percent: "like_match (CHR ''%'' # ps) s \<longleftrightarrow> (\<exists>l r. s = l @ r \<and> like_match ps r)"
proof (induction s)
  case Nil
  then show ?case by simp
next
  case (Cons c s)
  have "like_match (CHR ''%'' # ps) (c # s) \<longleftrightarrow> like_match ps (c # s) \<or> like_match (CHR ''%'' # ps) s"
    by simp
  also have "\<dots> \<longleftrightarrow> (\<exists>l r. c # s = l @ r \<and> like_match ps r)"
    unfolding Cons.IH by (auto simp: Cons_eq_append_conv)
  finally show ?case .
qed

lemma lower_char_eq_iff:
  assumes "\<not> (65 \<le> byte d \<and> byte d \<le> 90)" "\<not> (97 \<le> byte d \<and> byte d \<le> 122)"
  shows "lower_char c = d \<longleftrightarrow> c = d"
proof (cases "65 \<le> byte c \<and> byte c \<le> 90")
  case True
  then have "byte (lower_char c) = byte c + 32" by (simp add: lower_char_def)
  then show ?thesis using True assms by auto
next
  case False
  then have "lower_char c = c" unfolding lower_char_def by (rule if_not_P)
  then show ?thesis by simp
qed

lemma lower_char_special:
  "lower_char c = CHR 0x5C \<longleftrightarrow> c = CHR 0x5C" "lower_char c = CHR ''%'' \<longleftrightarrow> c = CHR ''%''"
  "lower_char c = CHR ''_'' \<longleftrightarrow> c = CHR ''_''" "0 < byte (lower_char c) \<longleftrightarrow> 0 < byte c"
proof -
  show "lower_char c = CHR 0x5C \<longleftrightarrow> c = CHR 0x5C" "lower_char c = CHR ''%'' \<longleftrightarrow> c = CHR ''%''"
    "lower_char c = CHR ''_'' \<longleftrightarrow> c = CHR ''_''"
    by (rule lower_char_eq_iff; simp add: byte_def)+
  show "0 < byte (lower_char c) \<longleftrightarrow> 0 < byte c" by (simp add: lower_char_def)
qed

lemma set_escapeLike: "set (escapeLike n) \<subseteq> insert CHR 0x5C (set n)"
  by (auto simp: escapeLike_def)

lemma lower_escape: "ascii_lower (escapeLike n) = escapeLike (ascii_lower n)"
proof (induction n)
  case Nil
  then show ?case by (simp add: ascii_lower_def escapeLike_def)
next
  case (Cons c n)
  have [simp]: "lower_char CHR 0x5C = CHR 0x5C" by (simp add: lower_char_special)
  have [simp]: "lower_char CHR ''%'' = CHR ''%''" by (simp add: lower_char_special)
  have [simp]: "lower_char CHR ''_'' = CHR ''_''" by (simp add: lower_char_special)
  show ?case using Cons by (auto simp: ascii_lower_def escapeLike_def lower_char_special)
qed

lemma c_str_id: "list_all (\<lambda>c. byte c \<noteq> 0) s \<Longrightarrow> c_str s = s"
  by (simp add: c_str_def list_all_iff)

text \<open>
  C37. The name filter is a literal, case-folded substring search: whatever wildcard or escape
  characters the caller's fragment contains, the LIKE pattern built from it matches exactly the names
  that contain the fragment.
\<close>
theorem name_filter_is_substring:
  assumes "en_lower e = ascii_lower" and "list_all (\<lambda>c. byte c \<noteq> 0) name" and "list_all (\<lambda>c. byte c \<noteq> 0) frag"
  shows "sql_like e name (''%'' @ escapeLike frag @ ''%'') \<longleftrightarrow> contains_str (ascii_lower name) (ascii_lower frag)"
proof -
  have "ascii_lower (''%'' @ escapeLike frag @ ''%'') = CHR ''%'' # escapeLike (ascii_lower frag) @ ''%''"
    by (simp add: lower_escape [symmetric]) (simp add: ascii_lower_def lower_char_special)
  moreover have "list_all (\<lambda>c. byte c \<noteq> 0) (CHR ''%'' # escapeLike (ascii_lower frag) @ ''%'')"
  proof -
    have "byte c \<noteq> 0" if "c \<in> set (escapeLike (ascii_lower frag))" for c
    proof -
      have "c \<in> insert CHR 0x5C (set (ascii_lower frag))" using that set_escapeLike by blast
      moreover have "byte CHR 0x5C \<noteq> 0" by (simp add: byte_def)
      ultimately show ?thesis using assms(3) by (auto simp: list_all_iff ascii_lower_def lower_char_special)
    qed
    then show ?thesis by (simp add: list_all_iff) (simp add: byte_def)
  qed
  moreover have "list_all (\<lambda>c. byte c \<noteq> 0) (ascii_lower name)"
    using assms(2) by (auto simp: list_all_iff ascii_lower_def lower_char_special)
  ultimately show ?thesis
    unfolding sql_like_def assms(1)
    by (auto simp: c_str_id like_percent like_literal like_percent_end contains_str_iff simp del: like_match.simps(2))
qed

theorem name_filter_is_substring_witness:
  "sql_like (sqlite_env (\<lambda>_. 0) (\<lambda>_. []) (\<lambda>_. None) ascii_upper True) ''rate 50% off'' (''%'' @ escapeLike ''0% o'' @ ''%'')
   \<and> \<not> sql_like (sqlite_env (\<lambda>_. 0) (\<lambda>_. []) (\<lambda>_. None) ascii_upper True) ''rate 500 off'' (''%'' @ escapeLike ''0% o'' @ ''%'')"
proof -
  let ?e = "sqlite_env (\<lambda>_. 0) (\<lambda>_. []) (\<lambda>_. None) ascii_upper True"
  have "sql_like ?e name (''%'' @ escapeLike ''0% o'' @ ''%'') \<longleftrightarrow> contains_str (ascii_lower name) (ascii_lower ''0% o'')"
    if "name \<in> {''rate 50% off'', ''rate 500 off''}" for name
    using that by (intro name_filter_is_substring) (auto simp: sqlite_env_def byte_def)
  then show ?thesis by (simp add: ascii_lower_def lower_char_def byte_def)
qed

subsection \<open>Pages\<close>

lemma pages_concat: "concat (map (\<lambda>k. take l (drop (k * l) xs)) [0..<m]) = take (m * l) xs"
proof (induction m)
  case 0
  then show ?case by simp
next
  case (Suc m)
  have "take (m * l + l) xs = take (m * l) xs @ take l (drop (m * l) xs)"
    by (rule take_add)
  moreover have "Suc m * l = m * l + l" by simp
  ultimately show ?case using Suc by (simp only: upt_Suc_append map_append concat_append le0) simp
qed

lemma query_matches_page [simp]: "query_matches e (q\<lparr>pq_Limit := l, pq_Offset := k\<rparr>) = query_matches e q"
  by (rule ext) (simp add: query_matches_def)

lemma ordered_rows_page [simp]: "ordered_rows e (q\<lparr>pq_Limit := l, pq_Offset := k\<rparr>) d = ordered_rows e q d"
  "matching_rows e (q\<lparr>pq_Limit := l, pq_Offset := k\<rparr>) d = matching_rows e q d"
  by (simp_all add: ordered_rows_def matching_rows_def)

lemma sqlite_Search_InrD:
  "sqlite_Search e q s = (Inr (rows, n), s') \<Longrightarrow>
     rows = page_rows e q (st_db s) \<and> n = int (length (matching_rows e q (st_db s))) \<and>
     ValidateProfileQuery q = Inr ()"
  by (auto simp: sqlite_Search_def bindS_eq_Inr map_errS_eq_Inr select_Inr dest!: run_stmt_InrD split: if_splits)

text \<open>
  C38. Reading the pages of a search one after the other, as the cursor does, on a database that does
  not change meanwhile gives every matching profile exactly once, in one fixed order (lower-cased
  name, then id), and every page reports the same total.
\<close>
theorem pages_partition:
  assumes "list_all (\<lambda>k. \<exists>s s'. st_db s = d \<and>
      sqlite_Search e (q\<lparr>pq_Limit := l, pq_Offset := int k * l\<rparr>) s = (Inr (pages k, n), s')) [0..<m]"
    and "0 < m" and "n \<le> int m * l" and "0 < l"
  shows "mset (concat (map pages [0..<m])) = filter_mset (query_matches e q) (mset (db_profiles d)) \<and>
    sorted (map (\<lambda>p. (en_lower e (up_Name p), up_ID p)) (concat (map pages [0..<m]))) \<and>
    n = int (length (concat (map pages [0..<m])))"
proof -
  let ?o = "ordered_rows e q d"
  have page: "pages k = take (nat l) (drop (k * nat l) ?o) \<and> n = int (length (matching_rows e q d))"
    if km: "k < m" for k
  proof -
    obtain s s' where "st_db s = d"
      "sqlite_Search e (q\<lparr>pq_Limit := l, pq_Offset := int k * l\<rparr>) s = (Inr (pages k, n), s')"
      using bspec [OF assms(1) [unfolded list_all_iff], of k] km by auto
    then show ?thesis
      using sqlite_Search_InrD [of e _ s "pages k" n s'] assms(4)
      by (fastforce simp: page_rows_def EffectiveLimit_def nat_mult_distrib)
  qed
  have len: "length ?o = length (matching_rows e q d)" by (simp add: ordered_rows_def)
  have "concat (map pages [0..<m]) = concat (map (\<lambda>k. take (nat l) (drop (k * nat l) ?o)) [0..<m])"
    using page by (intro arg_cong [of _ _ concat] map_cong) auto
  also have "\<dots> = take (m * nat l) ?o" by (rule pages_concat)
  also have "\<dots> = ?o"
  proof (rule take_all)
    have "int (length ?o) \<le> int (m * nat l)" using page [OF assms(2)] assms(3,4) len by simp
    then show "length ?o \<le> m * nat l" by linarith
  qed
  finally show ?thesis
    using page [OF assms(2)] len by (simp add: ordered_rows_def matching_rows_def)
qed

definition quiet_env :: env where
  "quiet_env = sqlite_env (\<lambda>n. int n * second) (\<lambda>n. ''0b8f5a5e-0000-4000-8000-00000000000'' @ utoa n)
     (\<lambda>_. None) ascii_upper True"

definition named_profile :: "string \<Rightarrow> string \<Rightarrow> user_profile" where
  "named_profile i name = \<lparr>up_ID = i, up_Name = name, up_Phone = None, up_StreetAddress = None,
     up_Locality = None, up_Region = None, up_PostalCode = None, up_Country = None, up_Source = ''direct'',
     up_CreatedAt = 0, up_UpdatedAt = 0\<rparr>"

definition three_profiles :: db where
  "three_profiles = \<lparr>db_methods = [], db_profiles = [named_profile ''3'' ''c'', named_profile ''1'' ''a'', named_profile ''2'' ''b''],
     db_credentials = [], db_deletions = []\<rparr>"

definition all_query :: profile_query where
  "all_query = \<lparr>pq_Name = None, pq_Phone = None, pq_Region = None, pq_Country = None, pq_Limit = 0, pq_Offset = 0\<rparr>"

theorem pages_partition_witness:
  "\<exists>p0 p1. mset (concat [p0, p1]) = mset (db_profiles three_profiles) \<and> length p0 = 2 \<and> length p1 = 1"
proof -
  let ?s = "\<lparr>st_db = three_profiles, st_tick = 0\<rparr>"
  let ?q = "\<lambda>k. all_query\<lparr>pq_Limit := 2, pq_Offset := int k * 2\<rparr>"
  define pages where "pages = (\<lambda>k. page_rows quiet_env (?q k) three_profiles)"
  have all: "query_matches quiet_env all_query = (\<lambda>_. True)"
    by (rule ext) (simp add: query_matches_def all_query_def opt_ok_def)
  have run: "\<exists>s'. sqlite_Search quiet_env (?q k) ?s = (Inr (pages k, 3), s')" if "k < 2" for k
  proof -
    have "ValidateProfileQuery (?q k) = Inr ()"
      using that by (simp add: ValidateProfileQuery_def all_query_def)
    moreover have "en_fault quiet_env n = None" for n by (simp add: quiet_env_def sqlite_env_def)
    moreover have "length (matching_rows quiet_env (?q k) three_profiles) = 3"
      by (simp add: matching_rows_def all three_profiles_def)
    ultimately show ?thesis
      by (simp add: sqlite_Search_def bindS_def run_stmt_def map_errS_def exec_def select_stmt_def rows_err_def
          pages_def Let_def)
  qed
  have ex: "\<exists>s s'. st_db s = three_profiles \<and> sqlite_Search quiet_env (?q k) s = (Inr (pages k, 3), s')"
    if "k < 2" for k
    by (rule exI [of _ ?s]) (use run [OF that] in simp)
  have "mset (concat (map pages [0..<2])) = filter_mset (query_matches quiet_env all_query) (mset (db_profiles three_profiles)) \<and>
    sorted (map (\<lambda>p. (en_lower quiet_env (up_Name p), up_ID p)) (concat (map pages [0..<2]))) \<and>
    (3::int) = int (length (concat (map pages [0..<2])))"
    by (rule pages_partition [where l = 2 and e = quiet_env and q = all_query and d = three_profiles])
      (use ex in \<open>simp_all add: list_all_iff\<close>)
  moreover have "length (pages 0) = 2" "length (pages 1) = 1"
    by (simp_all add: pages_def page_rows_def EffectiveLimit_def ordered_rows_def matching_rows_def all three_profiles_def)
  ultimately show ?thesis
    by (intro exI [of _ "pages 0"] exI [of _ "pages 1"]) (simp add: all numeral_2_eq_2)
qed

subsection \<open>One retention batch\<close>

lemma clock_local:
  "clockColumnFor cl = Some (clock, extra) \<Longrightarrow> has_credential d p = has_credential d' p \<Longrightarrow> extra d p = extra d' p"
  by (cases cl) auto

definition expired :: "(user_profile \<Rightarrow> time) \<Rightarrow> (db \<Rightarrow> user_profile \<Rightarrow> bool) \<Rightarrow> time \<Rightarrow> db \<Rightarrow> user_profile \<Rightarrow> bool" where
  "expired clock extra cutoff d p \<longleftrightarrow> extra d p \<and> clock p < cutoff"

definition without :: "env \<Rightarrow> string set \<Rightarrow> db \<Rightarrow> db" where
  "without e I d = d\<lparr>db_profiles := filter (\<lambda>p. up_ID p \<notin> I) (db_profiles d),
     db_credentials := (if en_fk e then filter (\<lambda>c. uc_UserID c \<notin> I) (db_credentials d) else db_credentials d)\<rparr>"

lemma has_credential_without: "up_ID p \<notin> I \<Longrightarrow> has_credential (without e I d) p = has_credential d p"
  by (auto simp: has_credential_def without_def list_ex_iff)

lemma without_simps [simp]:
  "db_deletions (without e I d) = db_deletions d" "db_methods (without e I d) = db_methods d"
  "db_profiles (without e I d) = filter (\<lambda>p. up_ID p \<notin> I) (db_profiles d)"
  "without e {} d = d" "without e J (without e I d) = without e (I \<union> J) d"
  by (auto simp: without_def intro!: filter_cong)

lemma delete_one:
  assumes "distinct (map up_ID (db_profiles d))" "p \<in> set (db_profiles d)" "up_ID p = i"
    "expired clock extra cutoff d p"
    and "delete_profiles e (\<lambda>p. up_ID p = i \<and> extra d p \<and> clock p < cutoff) d = Inr (gone, d')"
  shows "gone \<noteq> [] \<and> d' = without e {i} d"
proof -
  have sel: "up_ID q = i \<and> extra d q \<and> clock q < cutoff \<longleftrightarrow> up_ID q = i" if "q \<in> set (db_profiles d)" for q
  proof -
    have "q = p" if "up_ID q = i" using that assms(1-3) \<open>q \<in> set (db_profiles d)\<close>
      by (auto simp: distinct_map inj_on_def)
    then show ?thesis using assms(4) by (auto simp: expired_def)
  qed
  have f: "filter (\<lambda>p. up_ID p = i \<and> extra d p \<and> clock p < cutoff) (db_profiles d) = filter (\<lambda>p. up_ID p = i) (db_profiles d)"
    "filter (\<lambda>p. \<not> (up_ID p = i \<and> extra d p \<and> clock p < cutoff)) (db_profiles d) = filter (\<lambda>p. up_ID p \<notin> {i}) (db_profiles d)"
    using sel by (auto intro!: filter_cong)
  have ids: "up_ID ` set (filter (\<lambda>q. up_ID q = i) (db_profiles d)) = {i}" using assms(2,3) by auto
  have ne: "filter (\<lambda>p. up_ID p = i) (db_profiles d) \<noteq> []" using assms(2,3) by (auto simp: filter_empty_conv)
  show ?thesis
    using assms(5) ne unfolding delete_profiles_def Let_def f
    by (simp only: ids) (auto simp: without_def split: if_splits)
qed

lemma insert_deletion_Inr: "insert_deletion e r d = Inr (u, d') \<Longrightarrow> d' = d\<lparr>db_deletions := db_deletions d @ [r]\<rparr>"
  by (auto simp: insert_deletion_def split: option.splits if_splits)

definition logged :: "retention_class \<Rightarrow> deletion_row \<Rightarrow> bool" where
  "logged cl r \<longleftrightarrow> dl_Source r = class_string cl \<and> dl_Reason r = ''retention_sweep'' \<and> dl_ExternalRef r = None"

lemma delete_loop_Inr:
  assumes "clockColumnFor cl = Some (clock, extra)"
    and "sqlite_delete_loop e cl clock extra cutoff ids n s = (Inr m, s')"
    and "distinct ids" and "distinct (map up_ID (db_profiles (st_db s)))"
    and "\<forall>i \<in> set ids. \<exists>p \<in> set (db_profiles (st_db s)). up_ID p = i \<and> expired clock extra cutoff (st_db s) p"
  shows "m = n + int (length ids) \<and> (\<exists>log. map dl_ProfileID log = ids \<and> list_all (logged cl) log \<and>
    st_db s' = (without e (set ids) (st_db s))\<lparr>db_deletions := db_deletions (st_db s) @ log\<rparr>)"
  using assms(2-5)
proof (induction ids arbitrary: n s)
  case Nil
  then show ?case by (auto intro: exI [of _ "[]"])
next
  case (Cons i ids)
  let ?del = "\<lambda>d. delete_profiles e (\<lambda>p. up_ID p = i \<and> extra d p \<and> clock p < cutoff) d"
  let ?row = "\<lambda>j now. \<lparr>dl_ID = j, dl_ProfileID = i, dl_Source = class_string cl, dl_Reason = ''retention_sweep'',
          dl_ExternalRef = None, dl_DeletedAt = now\<rparr>"
  obtain gone s1 where g: "run_stmt e ?del s = (Inr gone, s1)"
    and rest: "(if gone = [] then sqlite_delete_loop e cl clock extra cutoff ids n
       else bindS (get_uuid e) (\<lambda>j. bindS (now_text e) (\<lambda>now. bindS (run_stmt e (insert_deletion e (?row j now)))
         (\<lambda>_. sqlite_delete_loop e cl clock extra cutoff ids (n + 1))))) s1 = (Inr m, s')"
    using Cons.prems(1) by (auto simp: bindS_eq_Inr)
  obtain p where p: "p \<in> set (db_profiles (st_db s))" "up_ID p = i" "expired clock extra cutoff (st_db s) p"
    using Cons.prems(4) by auto
  have d1: "gone \<noteq> []" "st_db s1 = without e {i} (st_db s)"
    using delete_one [OF Cons.prems(3) p run_stmt_InrD [OF g]] by simp_all
  obtain j s2 now s3 s4 where u: "get_uuid e s1 = (Inr j, s2)" "now_text e s2 = (Inr now, s3)"
      "run_stmt e (insert_deletion e (?row j now)) s3 = (Inr (), s4)"
    and loop: "sqlite_delete_loop e cl clock extra cutoff ids (n + 1) s4 = (Inr m, s')"
    using rest d1(1) by (auto simp: bindS_eq_Inr)
  have d4: "st_db s4 = (without e {i} (st_db s))\<lparr>db_deletions := db_deletions (st_db s) @ [?row j now]\<rparr>"
    using insert_deletion_Inr [OF run_stmt_InrD [OF u(3)]] get_uuid_D [OF u(1)] now_text_D [OF u(2)] d1(2) by simp
  have prof4: "db_profiles (st_db s4) = filter (\<lambda>p. up_ID p \<noteq> i) (db_profiles (st_db s))" by (simp add: d4)
  have "\<exists>q \<in> set (db_profiles (st_db s4)). up_ID q = k \<and> expired clock extra cutoff (st_db s4) q"
    if k: "k \<in> set ids" for k
  proof -
    have ki: "k \<noteq> i" using k Cons.prems(2) by auto
    obtain q where q: "q \<in> set (db_profiles (st_db s))" "up_ID q = k" "expired clock extra cutoff (st_db s) q"
      using k Cons.prems(4) by auto
    have "has_credential (st_db s4) q = has_credential (st_db s) q"
      using has_credential_without [of q "{i}" e "st_db s"] q(2) ki by (simp add: d4 has_credential_def)
    then have "extra (st_db s4) q = extra (st_db s) q" by (rule clock_local [OF assms(1)])
    then show ?thesis using q ki by (auto simp: prof4 expired_def)
  qed
  moreover have "distinct (map up_ID (db_profiles (st_db s4)))"
    using Cons.prems(3) by (simp add: prof4 distinct_map_filter)
  ultimately obtain log where log: "m = n + 1 + int (length ids)" "map dl_ProfileID log = ids"
      "list_all (logged cl) log"
      "st_db s' = (without e (set ids) (st_db s4))\<lparr>db_deletions := db_deletions (st_db s4) @ log\<rparr>"
    using Cons.IH [OF loop] Cons.prems(2) by auto
  have "without e (set ids) (st_db s4) = (without e (set (i # ids)) (st_db s))\<lparr>db_deletions := db_deletions (st_db s4)\<rparr>"
    unfolding d4 by (auto simp: without_def intro!: filter_cong)
  then have "st_db s' = (without e (set (i # ids)) (st_db s))\<lparr>db_deletions := db_deletions (st_db s) @ ?row j now # log\<rparr>"
    by (simp add: log(4) d4)
  moreover have "logged cl (?row j now)" by (simp add: logged_def)
  ultimately show ?case
    using log by (intro conjI exI [of _ "?row j now # log"]) simp_all
qed

lemma expired_without:
  "clockColumnFor cl = Some (clock, extra) \<Longrightarrow> up_ID p \<notin> I \<Longrightarrow>
     expired clock extra cutoff ((without e I d)\<lparr>db_deletions := log\<rparr>) p = expired clock extra cutoff d p"
  using clock_local [of cl clock extra "(without e I d)\<lparr>db_deletions := log\<rparr>" p d]
    has_credential_without [of p I e d]
  by (simp add: expired_def has_credential_def)

lemma DeleteExpired_Inr:
  assumes "clockColumnFor cl = Some (clock, extra)" "db_wf e (st_db s)"
    and "sqlite_DeleteExpired e cl olderThan maxRows s = (Inr r, s')"
  obtains log where
    "map dl_ProfileID log = map up_ID (take (nat maxRows)
       (filter (expired clock extra (en_stamp e olderThan) (st_db s)) (db_profiles (st_db s))))"
    "list_all (logged cl) log"
    "st_db s' = (without e (set (map dl_ProfileID log)) (st_db s))\<lparr>db_deletions := db_deletions (st_db s) @ log\<rparr>"
    "1 \<le> maxRows" "RowsExamined r = int (length log)" "RowsDeleted r = int (length log)"
    "Drained r \<longleftrightarrow> int (length log) < maxRows"
    "OldestSurvivingAt r = min_clock clock (filter (extra (st_db s')) (db_profiles (st_db s')))"
proof -
  define cutoff where "cutoff = en_stamp e olderThan"
  define ids where "ids = map up_ID (take (nat maxRows)
       (filter (expired clock extra cutoff (st_db s)) (db_profiles (st_db s))))"
  let ?body = "bindS (run_stmt e (select_stmt (\<lambda>d. map up_ID (take (nat maxRows)
                (filter (\<lambda>p. extra d p \<and> clock p < cutoff) (db_profiles d)))))) (\<lambda>ids.
              bindS (sqlite_delete_loop e cl clock extra cutoff ids 0) (\<lambda>deleted.
              bindS (run_stmt e (select_stmt (\<lambda>d. min_clock clock (filter (extra d) (db_profiles d))))) (\<lambda>oldest.
              retS \<lparr>RowsExamined = int (length ids), RowsDeleted = deleted, OldestSurvivingAt = oldest,
                    Drained = (int (length ids) < maxRows)\<rparr>)))"
  have mx: "1 \<le> maxRows" using assms(3) by (auto simp: sqlite_DeleteExpired_def split: if_splits)
  have "in_tx e sqlite_translateError ?body s = (Inr r, s')"
    using assms(1,3) by (auto simp: sqlite_DeleteExpired_def cutoff_def Let_def split: if_splits)
  then obtain s1 s2 where b: "st_db s1 = st_db s" "?body s1 = (Inr r, s2)" "st_db s' = st_db s2"
    by (rule in_tx_Inr)
  obtain ids' m oldest s3 s4 where st: "run_stmt e (select_stmt (\<lambda>d. map up_ID (take (nat maxRows)
                (filter (\<lambda>p. extra d p \<and> clock p < cutoff) (db_profiles d))))) s1 = (Inr ids', s3)"
      "sqlite_delete_loop e cl clock extra cutoff ids' 0 s3 = (Inr m, s4)"
      "run_stmt e (select_stmt (\<lambda>d. min_clock clock (filter (extra d) (db_profiles d)))) s4 = (Inr oldest, s2)"
    and r: "r = \<lparr>RowsExamined = int (length ids'), RowsDeleted = m, OldestSurvivingAt = oldest,
                    Drained = (int (length ids') < maxRows)\<rparr>"
    using b(2) by (auto simp: bindS_eq_Inr)
  have exp: "expired clock extra cutoff d = (\<lambda>p. extra d p \<and> clock p < cutoff)" for d
    by (rule ext) (simp add: expired_def)
  have s3: "ids' = ids" "st_db s3 = st_db s"
    using run_stmt_InrD [OF st(1)] unfolding select_stmt_def b(1) ids_def exp by auto
  have s4: "st_db s2 = st_db s4" "oldest = min_clock clock (filter (extra (st_db s2)) (db_profiles (st_db s2)))"
    using run_stmt_InrD [OF st(3)] by (auto simp: select_stmt_def)
  have d: "distinct (map up_ID (db_profiles (st_db s)))" using assms(2) by (simp add: db_wf_def)
  then have di: "distinct ids" by (simp add: ids_def distinct_map_filter flip: take_map)
  have ex: "\<forall>i \<in> set ids. \<exists>p \<in> set (db_profiles (st_db s)). up_ID p = i \<and> expired clock extra cutoff (st_db s) p"
    by (auto simp: ids_def dest!: in_set_takeD)
  obtain log where log: "m = 0 + int (length ids)" "map dl_ProfileID log = ids" "list_all (logged cl) log"
      "st_db s4 = (without e (set ids) (st_db s))\<lparr>db_deletions := db_deletions (st_db s) @ log\<rparr>"
    using delete_loop_Inr [OF assms(1) st(2) [unfolded s3(1)] di] d ex unfolding s3(2) by auto
  have len: "length log = length ids" using log(2) by (metis length_map)
  show thesis
    by (rule that [of log]) (use log s3 s4 b(3) mx r len in \<open>simp_all add: ids_def cutoff_def\<close>)
qed

lemma DeleteExpired_clean:
  assumes "clockColumnFor cl = Some (clock, extra)" "db_wf e (st_db s)"
    and "sqlite_DeleteExpired e cl olderThan maxRows s = (Inr r, s')" and that: "Drained r"
  shows "filter (expired clock extra (en_stamp e olderThan) (st_db s')) (db_profiles (st_db s')) = []"
proof -
  let ?x = "expired clock extra (en_stamp e olderThan)"
  obtain log where l: "map dl_ProfileID log = map up_ID (take (nat maxRows) (filter (?x (st_db s)) (db_profiles (st_db s))))"
    "list_all (logged cl) log"
    "st_db s' = (without e (set (map dl_ProfileID log)) (st_db s))\<lparr>db_deletions := db_deletions (st_db s) @ log\<rparr>"
    "1 \<le> maxRows" "RowsDeleted r = int (length log)" "Drained r \<longleftrightarrow> int (length log) < maxRows"
    by (rule DeleteExpired_Inr [OF assms(1-3)])
  have "length log < nat maxRows" using l(4,6) that by linarith
  then have "take (nat maxRows) (filter (?x (st_db s)) (db_profiles (st_db s))) = filter (?x (st_db s)) (db_profiles (st_db s))"
    using arg_cong [OF l(1), of length] by (intro take_all) (simp add: min_def split: if_splits)
  then have ids: "set (map dl_ProfileID log) = up_ID ` set (filter (?x (st_db s)) (db_profiles (st_db s)))"
    by (simp add: l(1))
  have "\<not> ?x (st_db s') p" if pin: "p \<in> set (db_profiles (st_db s'))" for p
  proof
    assume x: "?x (st_db s') p"
    have p: "p \<in> set (db_profiles (st_db s))" "up_ID p \<notin> set (map dl_ProfileID log)"
      using pin by (auto simp: l(3))
    then show False using x ids expired_without [OF assms(1) p(2)] by (auto simp: l(3))
  qed
  then show ?thesis by (simp add: filter_empty_conv)
qed

text \<open> A successful \<open>DeleteExpired(class, cutoff, n)\<close> on a store with unique ids deletes exactly
  the first \<open>n\<close> rows of the class whose clock is before the cutoff: every other profile is left as it is,
  each deleted row gets exactly one \<open>deletion_log\<close> row, in order, with the class as source and
  \<open>retention_sweep\<close> as reason, \<open>RowsDeleted\<close> counts them, and \<open>Drained\<close> implies that no expired row of the
  class is left.\<close>

theorem delete_expired_batch:
  assumes "clockColumnFor cl = Some (clock, extra)" "db_wf e (st_db s)"
    and "sqlite_DeleteExpired e cl olderThan maxRows s = (Inr r, s')"
  shows "\<exists>log. db_deletions (st_db s') = db_deletions (st_db s) @ log \<and> list_all (logged cl) log \<and>
    map dl_ProfileID log = map up_ID (take (nat maxRows)
      (filter (expired clock extra (en_stamp e olderThan) (st_db s)) (db_profiles (st_db s)))) \<and>
    db_profiles (st_db s') = filter (\<lambda>p. up_ID p \<notin> dl_ProfileID ` set log) (db_profiles (st_db s)) \<and>
    RowsDeleted r = int (length log) \<and>
    (Drained r \<longrightarrow> filter (expired clock extra (en_stamp e olderThan) (st_db s')) (db_profiles (st_db s')) = [])"
proof -
  let ?x = "expired clock extra (en_stamp e olderThan)"
  obtain log where l: "map dl_ProfileID log = map up_ID (take (nat maxRows) (filter (?x (st_db s)) (db_profiles (st_db s))))"
    "list_all (logged cl) log"
    "st_db s' = (without e (set (map dl_ProfileID log)) (st_db s))\<lparr>db_deletions := db_deletions (st_db s) @ log\<rparr>"
    "1 \<le> maxRows" "RowsDeleted r = int (length log)" "Drained r \<longleftrightarrow> int (length log) < maxRows"
    by (rule DeleteExpired_Inr [OF assms])
  have "filter (?x (st_db s')) (db_profiles (st_db s')) = []" if "Drained r"
    by (rule DeleteExpired_clean [OF assms that])
  then show ?thesis
    by (intro exI [of _ log]) (use l(1,2,5) l(3) [unfolded set_map] in \<open>simp del: set_map\<close>)
qed


text \<open>Evaluation, one statement at a time.\<close>

lemma quiet_env_simps [simp]:
  "en_fault quiet_env n = None" "en_stamp quiet_env = rfc3339" "en_fk quiet_env"
  "en_uuid quiet_env n = ''0b8f5a5e-0000-4000-8000-00000000000'' @ utoa n" "en_now quiet_env n = int n * second"
  by (simp_all add: quiet_env_def sqlite_env_def)

lemma run_ok: "run_stmt quiet_env f \<lparr>st_db = d, st_tick = n\<rparr> = (Inr x, \<lparr>st_db = d', st_tick = Suc n\<rparr>)"
  if "f d = Inr (x, d')"
  using that by (simp add: run_stmt_def map_errS_def exec_def)

lemma tx_ok: "tx_control quiet_env tr \<lparr>st_db = d, st_tick = n\<rparr> = (Inr (), \<lparr>st_db = d, st_tick = Suc n\<rparr>)"
  by (simp add: tx_control_def map_errS_def exec_def select_stmt_def)

lemma now_ok: "now_text quiet_env \<lparr>st_db = d, st_tick = n\<rparr> = (Inr (rfc3339 (int n * second)), \<lparr>st_db = d, st_tick = Suc n\<rparr>)"
  by (simp add: now_text_def get_now_def bindS_def)

lemma uuid_ok: "get_uuid quiet_env \<lparr>st_db = d, st_tick = n\<rparr> =
    (Inr (''0b8f5a5e-0000-4000-8000-00000000000'' @ utoa n), \<lparr>st_db = d, st_tick = Suc n\<rparr>)"
  by (simp add: get_uuid_def)

definition old_and_fresh :: db where
  "old_and_fresh = \<lparr>db_methods = [], db_profiles = [named_profile ''1'' ''old'',
     (named_profile ''2'' ''fresh'')\<lparr>up_UpdatedAt := 100 * second\<rparr>], db_credentials = [], db_deletions = []\<rparr>"

lemma old_and_fresh_wf: "db_wf quiet_env old_and_fresh"
  by (simp add: db_wf_def old_and_fresh_def named_profile_def quiet_env_def sqlite_env_def credential_refs_def
      profile_checks_def all_hold_def opt_ok_def sql_nonempty_def c_str_def sql_length_def sql_trim_def byte_def)

lemma old_and_fresh_sweep:
  "\<exists>r s'. sqlite_DeleteExpired quiet_env RetentionDirect (50 * second) 2 \<lparr>st_db = old_and_fresh, st_tick = 0\<rparr> = (Inr r, s')"
  by (simp add: sqlite_DeleteExpired_def in_tx_def bindS_Inr bindS_assoc tx_ok run_ok Let_def now_ok uuid_ok
    select_stmt_def old_and_fresh_def named_profile_def rfc3339_def second_def delete_profiles_def 
    insert_deletion_def deletion_checks_def first_failed_def retS_def)

theorem delete_expired_batch_witness:
  "\<exists>r s'. sqlite_DeleteExpired quiet_env RetentionDirect (50 * second) 2 \<lparr>st_db = old_and_fresh, st_tick = 0\<rparr> = (Inr r, s') \<and>
     RowsDeleted r = 1 \<and> length (db_deletions (st_db s')) = 1 \<and> map up_Name (db_profiles (st_db s')) = [''fresh'']"
proof -
  obtain r s' where run: "sqlite_DeleteExpired quiet_env RetentionDirect (50 * second) 2
      \<lparr>st_db = old_and_fresh, st_tick = 0\<rparr> = (Inr r, s')"
    using old_and_fresh_sweep by blast
  let ?s = "\<lparr>st_db = old_and_fresh, st_tick = 0\<rparr>"
  have wf: "db_wf quiet_env (st_db ?s)" using old_and_fresh_wf by simp
  have sel: "map up_ID (take (nat 2) (filter (expired up_UpdatedAt (\<lambda>d p. up_Source p = ''direct'')
      (en_stamp quiet_env (50 * second)) (st_db ?s)) (db_profiles (st_db ?s)))) = [''1'']"
    by (simp add: old_and_fresh_def named_profile_def expired_def rfc3339_def second_def)
  obtain log where log: "db_deletions (st_db s') = db_deletions (st_db ?s) @ log" "map dl_ProfileID log = [''1'']"
      "db_profiles (st_db s') = filter (\<lambda>p. up_ID p \<notin> dl_ProfileID ` set log) (db_profiles (st_db ?s))"
      "RowsDeleted r = int (length log)"
    using delete_expired_batch [OF clockColumnFor.simps(1) wf run] unfolding sel by (elim exE conjE) (rule that)
  have "dl_ProfileID ` set log = {''1''}" "length log = 1"
    using arg_cong [OF log(2), of set] arg_cong [OF log(2), of length] by simp_all
  then show ?thesis
    using run log(1,3,4) by (intro exI [of _ r] exI [of _ s']) (simp add: old_and_fresh_def named_profile_def)
qed

subsection \<open>Upsert and erasure\<close>

lemma upsert_profile_Inr:
  assumes "upsert_profile e p f d = Inr (q, d')" "\<And>r. up_ID (f r) = up_ID r"
  shows "profile_by_id (up_ID p) d' = Some (case profile_by_id (up_ID p) d of Some old \<Rightarrow> f old | None \<Rightarrow> p) \<and>
    (\<forall>i. i \<noteq> up_ID p \<longrightarrow> profile_by_id i d' = profile_by_id i d) \<and> d' = d\<lparr>db_profiles := db_profiles d'\<rparr>"
proof -
  have m: "find (\<lambda>p. up_ID p = i) (map (\<lambda>r. if up_ID r = k then f r else r) ps) =
      map_option (\<lambda>r. if i = k then f r else r) (find (\<lambda>p. up_ID p = i) ps)" for i k ps
    by (induction ps) (auto simp: assms(2))
  have a: "find (\<lambda>p. up_ID p = i) (ps @ [r]) =
      (case find (\<lambda>p. up_ID p = i) ps of Some p \<Rightarrow> Some p | None \<Rightarrow> if up_ID r = i then Some r else None)" for i ps r
    by (induction ps) auto
  show ?thesis
    using assms(1)
    by (auto simp: upsert_profile_def update_profile_def profile_by_id_def m a option.map_ident
        split: option.splits)
qed

text \<open> A successful \<open>Upsert\<close> answers the row now stored under its id: the normalised argument, with
  the \<open>created_at\<close> of the row it replaced, if there was one, and a fresh \<open>updated_at\<close>; every other profile
  and every other table is unchanged.\<close>

theorem upsert_keeps_created_at:
  assumes "sqlite_Upsert e p0 s = (Inr q, s')"
  shows "\<exists>now. q = (NormalizeProfileForWrite (en_toUpper e) p0)\<lparr>up_CreatedAt :=
       (case profile_by_id (up_ID p0) (st_db s) of Some old \<Rightarrow> up_CreatedAt old | None \<Rightarrow> now), up_UpdatedAt := now\<rparr> \<and>
     profile_by_id (up_ID p0) (st_db s') = Some q \<and>
     (\<forall>i. i \<noteq> up_ID p0 \<longrightarrow> profile_by_id i (st_db s') = profile_by_id i (st_db s)) \<and>
     st_db s' = (st_db s)\<lparr>db_profiles := db_profiles (st_db s')\<rparr>"
proof -
  define p where "p = NormalizeProfileForWrite (en_toUpper e) p0"
  have pid [simp]: "up_ID p = up_ID p0" by (simp add: p_def NormalizeProfileForWrite_def)
  obtain now s1 x s2 where st: "now_text e s = (Inr now, s1)"
      "run_stmt e (upsert_profile e (profile_row (up_ID p) now p) (set_profile p now)) s1 = (Inr x, s2)"
      "sqlite_Get e (up_ID p) s2 = (Inr q, s')"
    using assms by (auto simp: sqlite_Upsert_def p_def [symmetric] Let_def op_elim_simps)
  have db: "st_db s1 = st_db s" "st_db s' = st_db s2" using now_text_D [OF st(1)] db_reads(1) [OF st(3)] by auto
  have u: "profile_by_id (up_ID p0) (st_db s2) = Some (case profile_by_id (up_ID p0) (st_db s) of
        Some old \<Rightarrow> set_profile p now old | None \<Rightarrow> profile_row (up_ID p) now p)"
      "\<forall>i. i \<noteq> up_ID p0 \<longrightarrow> profile_by_id i (st_db s2) = profile_by_id i (st_db s)"
      "st_db s2 = (st_db s)\<lparr>db_profiles := db_profiles (st_db s2)\<rparr>"
    using upsert_profile_Inr [OF run_stmt_InrD [OF st(2)]] by (simp_all add: db)
  have q: "profile_by_id (up_ID p0) (st_db s2) = Some q" using sqlite_Get_InrD [OF st(3)] by simp
  have "q = p\<lparr>up_CreatedAt := (case profile_by_id (up_ID p0) (st_db s) of Some old \<Rightarrow> up_CreatedAt old | None \<Rightarrow> now),
      up_UpdatedAt := now\<rparr>"
  proof (cases "profile_by_id (up_ID p0) (st_db s)")
    case None
    then show ?thesis using u(1) q by (simp add: profile_row_def)
  next
    case (Some old)
    then have "up_ID old = up_ID p" by (auto simp: profile_by_id_def dest: find_SomeD)
    then show ?thesis using u(1) q Some by (simp add: set_profile_def)
  qed
  then show ?thesis
    using u q db unfolding p_def by (intro exI [of _ now]) simp
qed

theorem upsert_keeps_created_at_witness:
  "\<exists>q s'. sqlite_Upsert quiet_env (named_profile ''0b8f5a5e-0000-4000-8000-000000000001'' ''new'')
      \<lparr>st_db = three_profiles, st_tick = 7\<rparr> = (Inr q, s') \<and> length (db_profiles (st_db s')) = 4 \<and>
      profile_by_id ''1'' (st_db s') = Some (named_profile ''1'' ''a'')"
proof -
  let ?p = "named_profile ''0b8f5a5e-0000-4000-8000-000000000001'' ''new''"
  have v: "ValidateID (up_ID ?p) = Inr ()"
    by (simp add: named_profile_def ValidateID_def uuidPattern_def numeral_eq_Suc hex_char_def byte_def)
  have v2: "ValidateProfilePointers ?p = Inr ()"
    by (simp add: named_profile_def ValidateProfilePointers_def profile_pointers_def)
  obtain q s' where run: "sqlite_Upsert quiet_env ?p \<lparr>st_db = three_profiles, st_tick = 7\<rparr> = (Inr q, s')"
      "length (db_profiles (st_db s')) = 4"
  proof -
    define d where "d = three_profiles\<lparr>db_profiles := db_profiles three_profiles @ [profile_row (up_ID ?p) (7 * second) ?p]\<rparr>"
    have norm: "NormalizeProfileForWrite t ?p = ?p" for t
      by (simp add: NormalizeProfileForWrite_def named_profile_def)
    have ok: "first_failed (profile_checks quiet_env (profile_row (up_ID ?p) (7 * second) ?p)) = None"
      by (simp add: all_hold_def profile_checks_def profile_row_def named_profile_def opt_ok_def sql_nonempty_def
        c_str_def sql_length_def sql_trim_def byte_def)
    have new: "find (\<lambda>p. up_ID p = up_ID ?p) (db_profiles three_profiles) = None"
      by (simp add: three_profiles_def named_profile_def)
    have up: "upsert_profile quiet_env (profile_row (up_ID ?p) (7 * second) ?p) (set_profile ?p (7 * second)) three_profiles =
        Inr (profile_row (up_ID ?p) (7 * second) ?p, d)"
      using ok new by (simp add: upsert_profile_def update_profile_def d_def del: first_failed_None)
    have get: "profile_by_id (up_ID ?p) d = Some (profile_row (up_ID ?p) (7 * second) ?p)"
      by (simp add: profile_by_id_def d_def three_profiles_def named_profile_def profile_row_def)
    have t: "rfc3339 (7 * second) = 7 * second" by (simp add: rfc3339_def second_def)
    have "length (db_profiles d) = 4" by (simp add: d_def three_profiles_def)
    then have "\<exists>q s'. sqlite_Upsert quiet_env ?p \<lparr>st_db = three_profiles, st_tick = 7\<rparr> = (Inr q, s') \<and> length (db_profiles (st_db s')) = 4"
      by (simp add: sqlite_Upsert_def norm bindS_Inr run_ok up now_ok liftS_def v v2 t
        sqlite_Get_def scan_row_def map_errS_def exec_def select_one_def get Let_def)
    then show thesis using that by blast
  qed
  have "profile_by_id ''1'' (st_db s') = profile_by_id ''1'' three_profiles"
    using upsert_keeps_created_at [OF run(1)] by (auto simp: named_profile_def)
  then show ?thesis using run by (auto simp: three_profiles_def named_profile_def profile_by_id_def)
qed

lemma delete_by_id:
  assumes "delete_profiles e (\<lambda>p. up_ID p = i) d = Inr (gone, d')" "gone \<noteq> []"
  shows "d' = without e {i} d"
proof -
  have g: "gone = filter (\<lambda>p. up_ID p = i) (db_profiles d)" using assms(1) by (auto simp: delete_profiles_def Let_def)
  then have "up_ID ` set gone = {i}" using assms(2) by (auto simp: filter_empty_conv)
  then show ?thesis using assms(1) unfolding delete_profiles_def Let_def g [symmetric] by (auto simp: without_def)
qed

text \<open> \<open>DeleteProfile\<close> erases on request: on success the profile was there, it is gone, its
  credentials with it where foreign keys are on, and one \<open>deletion_log\<close> row names it, its source, the
  reason \<open>subject_request\<close> and the external reference; on any error nothing has changed.\<close>

theorem delete_profile_logged_or_unchanged:
  "case sqlite_DeleteProfile e i ref s of
     (Inl err, s') \<Rightarrow> st_db s' = st_db s
   | (Inr _, s') \<Rightarrow> (\<exists>p j now. profile_by_id i (st_db s) = Some p \<and>
       st_db s' = (without e {i} (st_db s))\<lparr>db_deletions := db_deletions (st_db s) @
         [\<lparr>dl_ID = j, dl_ProfileID = i, dl_Source = up_Source p, dl_Reason = ''subject_request'',
           dl_ExternalRef = ref, dl_DeletedAt = now\<rparr>]\<rparr>)"
proof -
  let ?body = "bindS (map_errS (\<lambda>err. if err = ErrNoRows then ErrNotFound else sqlite_translateError err)
          (exec e (select_one (\<lambda>d. map_option up_Source (profile_by_id i d))))) (\<lambda>source.
        bindS (run_stmt e (delete_profiles e (\<lambda>p. up_ID p = i))) (\<lambda>gone.
        if gone = [] then failS ErrNotFound
        else
          bindS (get_uuid e) (\<lambda>deletionID.
          bindS (now_text e) (\<lambda>now.
          run_stmt e (insert_deletion e
            \<lparr>dl_ID = deletionID, dl_ProfileID = i, dl_Source = source, dl_Reason = ''subject_request'',
             dl_ExternalRef = ref, dl_DeletedAt = now\<rparr>)))))"
  have run: "sqlite_DeleteProfile e i ref s =
      (case ValidateID i of Inl err \<Rightarrow> (Inl err, s) | Inr _ \<Rightarrow> in_tx e sqlite_translateError ?body s)"
    by (simp add: sqlite_DeleteProfile_def bindS_def liftS_def split: sum.splits)
  show ?thesis
  proof (cases "\<exists>u s'. ValidateID i = Inr () \<and> in_tx e sqlite_translateError ?body s = (Inr u, s')")
    case False
    then show ?thesis unfolding run by (auto split: sum.splits prod.splits dest: in_tx_Inl)
  next
    case True
    then obtain u s' where ok: "ValidateID i = Inr ()" "in_tx e sqlite_translateError ?body s = (Inr u, s')" by blast
    obtain s1 s2 where b: "st_db s1 = st_db s" "?body s1 = (Inr u, s2)" "st_db s' = st_db s2"
      by (rule in_tx_Inr [OF ok(2)])
    obtain src gone j now s3 s4 s5 s6 where st:
        "exec e (select_one (\<lambda>d. map_option up_Source (profile_by_id i d))) s1 = (Inr src, s3)"
        "run_stmt e (delete_profiles e (\<lambda>p. up_ID p = i)) s3 = (Inr gone, s4)" "gone \<noteq> []"
        "get_uuid e s4 = (Inr j, s5)" "now_text e s5 = (Inr now, s6)"
        "run_stmt e (insert_deletion e \<lparr>dl_ID = j, dl_ProfileID = i, dl_Source = src, dl_Reason = ''subject_request'',
             dl_ExternalRef = ref, dl_DeletedAt = now\<rparr>) s6 = (Inr u, s2)"
      using b(2) by (auto simp: op_elim_simps split: if_splits)
    have src: "map_option up_Source (profile_by_id i (st_db s)) = Some src" "st_db s3 = st_db s"
      using exec_InrD [OF st(1)] b(1) by (auto simp: select_one_def split: option.splits)
    have "st_db s4 = without e {i} (st_db s)"
      using delete_by_id [OF run_stmt_InrD [OF st(2)] st(3)] by (simp add: src(2))
    then show ?thesis
      using src(1) insert_deletion_Inr [OF run_stmt_InrD [OF st(6)]] get_uuid_D [OF st(4)] now_text_D [OF st(5)] b(3)
      unfolding run ok by auto
  qed
qed

end
