(* ===== verification/SweepBatch.thy ===== *)
theory SweepBatch
  imports Sweep SqliteSpec
begin

section \<open>From one retention batch to a whole sweep, for any SQL repository\<close>

text \<open>
  What one \<open>DeleteExpired\<close> call does to the store (\<open>swept_batch\<close>), what a whole run may do to it (\<open>swept\<close>:
  what was deleted was expired, is logged once and is all that changed), and the locale \<open>batch_deleter\<close>: a
  repository whose batches do the first meets the contract of the sweep with the second.
\<close>

definition store_sweeper :: "(retention_class \<Rightarrow> time \<Rightarrow> int \<Rightarrow> sweep_result dbop) \<Rightarrow> (store \<times> 'x) expiry_sweeper" where
  "store_sweeper del c t n w = (case del c t n (fst w) of (r, s) \<Rightarrow> (r, (s, snd w)))"

definition swept_db :: "store \<times> 'x \<Rightarrow> db" where
  "swept_db w = st_db (fst w)"

definition stale_rows :: "env \<Rightarrow> retention_class \<Rightarrow> time \<Rightarrow> db \<Rightarrow> bool" where
  "stale_rows e c t d \<longleftrightarrow>
     (case clockColumnFor c of
        None \<Rightarrow> False
      | Some (clock, extra) \<Rightarrow> list_ex (expired clock extra (en_stamp e t) d) (db_profiles d))"

definition swept_row :: "env \<Rightarrow> (retention_class \<Rightarrow> time option) \<Rightarrow> db \<Rightarrow> deletion_row \<Rightarrow> bool" where
  "swept_row e T d row \<longleftrightarrow>
     (\<exists>c t clock extra p. T c = Some t \<and> clockColumnFor c = Some (clock, extra) \<and> logged c row \<and>
        p \<in> set (db_profiles d) \<and> up_ID p = dl_ProfileID row \<and> expired clock extra (en_stamp e t) d p)"

definition swept :: "env \<Rightarrow> (retention_class \<Rightarrow> time option) \<Rightarrow> db \<Rightarrow> db \<Rightarrow> bool" where
  "swept e T d d' \<longleftrightarrow>
     (\<exists>log. d' = (without e (set (map dl_ProfileID log)) d)\<lparr>db_deletions := db_deletions d @ log\<rparr> \<and>
        distinct (map dl_ProfileID log) \<and> list_all (swept_row e T d) log)"

definition swept_batch :: "env \<Rightarrow> retention_class \<Rightarrow> time \<Rightarrow> int \<Rightarrow> sweep_result \<Rightarrow> db \<Rightarrow> db \<Rightarrow> bool" where
  "swept_batch e c t n r d d' \<longleftrightarrow>
     (\<exists>clock extra log. clockColumnFor c = Some (clock, extra) \<and>
        map dl_ProfileID log = map up_ID (take (nat n) (filter (expired clock extra (en_stamp e t) d) (db_profiles d))) \<and>
        list_all (logged c) log \<and>
        d' = (without e (set (map dl_ProfileID log)) d)\<lparr>db_deletions := db_deletions d @ log\<rparr> \<and>
        1 \<le> n \<and> RowsExamined r = int (length log) \<and> RowsDeleted r = int (length log) \<and>
        (Drained r \<longleftrightarrow> int (length log) < n))"

lemma swept_batchE:
  assumes "swept_batch e c t n r d d'"
  obtains clock extra log where "clockColumnFor c = Some (clock, extra)"
    "map dl_ProfileID log = map up_ID (take (nat n) (filter (expired clock extra (en_stamp e t) d) (db_profiles d)))"
    "list_all (logged c) log"
    "d' = (without e (set (map dl_ProfileID log)) d)\<lparr>db_deletions := db_deletions d @ log\<rparr>"
    "1 \<le> n" "Drained r \<longleftrightarrow> int (length log) < n"
  using assms unfolding swept_batch_def by blast

lemma batch_swept:
  assumes "swept_batch e c t n r d d'" "db_wf e d" "T c = Some t"
  shows "swept e T d d'"
  using assms(1)
proof (rule swept_batchE)
  fix clock extra log
  let ?ps = "take (nat n) (filter (expired clock extra (en_stamp e t) d) (db_profiles d))"
  assume c: "clockColumnFor c = Some (clock, extra)" and l: "map dl_ProfileID log = map up_ID ?ps" "list_all (logged c) log"
    "d' = (without e (set (map dl_ProfileID log)) d)\<lparr>db_deletions := db_deletions d @ log\<rparr>"
  have dist: "distinct (map dl_ProfileID log)"
    unfolding l(1) using assms(2) by (simp add: db_wf_def distinct_map_filter flip: take_map)
  have "swept_row e T d row" if "row \<in> set log" for row
  proof -
    have "dl_ProfileID row \<in> set (map dl_ProfileID log)" using that by simp
    then obtain p where "p \<in> set ?ps" "dl_ProfileID row = up_ID p" unfolding l(1) by auto
    moreover have "logged c row" using that l(2) by (simp add: list_all_iff)
    ultimately show ?thesis
      unfolding swept_row_def using assms(3) c
      by (intro exI [of _ c] exI [of _ t] exI [of _ clock] exI [of _ extra] exI [of _ p])
        (auto dest: in_set_takeD)
  qed
  then show ?thesis using l(3) dist unfolding swept_def by (auto simp: list_all_iff)
qed

lemma batch_progress:
  assumes "swept_batch e c t n r d d'" "\<not> Drained r"
  shows "length (db_profiles d') < length (db_profiles d)"
  using assms(1)
proof (rule swept_batchE)
  fix clock extra log
  let ?ps = "filter (expired clock extra (en_stamp e t) d) (db_profiles d)"
  assume l: "map dl_ProfileID log = map up_ID (take (nat n) ?ps)"
    "d' = (without e (set (map dl_ProfileID log)) d)\<lparr>db_deletions := db_deletions d @ log\<rparr>"
    "1 \<le> n" "Drained r \<longleftrightarrow> int (length log) < n"
  have "take (nat n) ?ps \<noteq> []" using arg_cong [OF l(1), of length] l(3,4) assms(2) by auto
  then obtain p where p: "p \<in> set (take (nat n) ?ps)" using hd_in_set by blast
  then have "p \<in> set (db_profiles d)" by (auto dest: in_set_takeD)
  moreover have "up_ID p \<in> set (map dl_ProfileID log)" unfolding l(1) using p by simp
  ultimately show ?thesis by (auto simp: l(2) intro!: length_filter_less)
qed

lemma batch_no_stale:
  assumes "swept_batch e c t n r d d'" "Drained r"
  shows "\<not> stale_rows e c t d'"
  using assms(1)
proof (rule swept_batchE)
  fix clock extra log
  let ?x = "expired clock extra (en_stamp e t)"
  assume c: "clockColumnFor c = Some (clock, extra)" and l: "map dl_ProfileID log = map up_ID (take (nat n) (filter (?x d) (db_profiles d)))"
    "d' = (without e (set (map dl_ProfileID log)) d)\<lparr>db_deletions := db_deletions d @ log\<rparr>"
    "1 \<le> n" "Drained r \<longleftrightarrow> int (length log) < n"
  have "length log < nat n" using l(3,4) assms(2) by linarith
  then have "take (nat n) (filter (?x d) (db_profiles d)) = filter (?x d) (db_profiles d)"
    using arg_cong [OF l(1), of length] by (intro take_all) (simp add: min_def split: if_splits)
  then have ids: "set (map dl_ProfileID log) = up_ID ` set (filter (?x d) (db_profiles d))" by (simp add: l(1))
  have "\<not> ?x d' p" if pin: "p \<in> set (db_profiles d')" for p
  proof
    assume x: "?x d' p"
    have p: "p \<in> set (db_profiles d)" "up_ID p \<notin> set (map dl_ProfileID log)" using pin by (auto simp: l(2))
    then show False using x ids expired_without [OF c p(2)] by (auto simp: l(2))
  qed
  then show ?thesis by (simp add: stale_rows_def c list_ex_iff)
qed

lemma disjoint_image_iff: "A \<inter> f ` B = {} \<longleftrightarrow> (\<forall>x \<in> B. f x \<notin> A)"
  by auto

lemma swept_trans:
  assumes "swept e T d1 d2" "swept e T d2 d3"
  shows "swept e T d1 d3"
proof -
  obtain l where l: "d2 = (without e (set (map dl_ProfileID l)) d1)\<lparr>db_deletions := db_deletions d1 @ l\<rparr>"
    "distinct (map dl_ProfileID l)" "list_all (swept_row e T d1) l" using assms(1) by (auto simp: swept_def)
  obtain m where m: "d3 = (without e (set (map dl_ProfileID m)) d2)\<lparr>db_deletions := db_deletions d2 @ m\<rparr>"
    "distinct (map dl_ProfileID m)" "list_all (swept_row e T d2) m" using assms(2) by (auto simp: swept_def)
  have row: "swept_row e T d1 r \<and> dl_ProfileID r \<notin> set (map dl_ProfileID l)" if "r \<in> set m" for r
  proof -
    have "swept_row e T d2 r" using that m(3) by (simp add: list_all_iff)
    then obtain c t clock extra p where p: "T c = Some t" "clockColumnFor c = Some (clock, extra)" "logged c r"
        "p \<in> set (db_profiles d2)" "up_ID p = dl_ProfileID r" "expired clock extra (en_stamp e t) d2 p"
      unfolding swept_row_def by blast
    have q: "p \<in> set (db_profiles d1)" "up_ID p \<notin> set (map dl_ProfileID l)" using p(4) l(1) by auto
    have "expired clock extra (en_stamp e t) d1 p" using p(6) expired_without [OF p(2) q(2)] by (simp add: l(1))
    then show ?thesis using p q by (auto simp: swept_row_def)
  qed
  have "without e J (d\<lparr>db_deletions := x\<rparr>) = (without e J d)\<lparr>db_deletions := x\<rparr>" for J d x
    by (simp add: without_def)
  then have "d3 = (without e (set (map dl_ProfileID (l @ m))) d1)\<lparr>db_deletions := db_deletions d1 @ l @ m\<rparr>"
    using m(1) l(1) by simp
  moreover have "\<forall>r \<in> set m. dl_ProfileID r \<notin> dl_ProfileID ` set l" using row by simp
  then have "dl_ProfileID ` set l \<inter> dl_ProfileID ` set m = {}" by (simp only: disjoint_image_iff)
  then have "distinct (map dl_ProfileID (l @ m))" using l(2) m(2) by simp
  moreover have "\<forall>r \<in> set m. swept_row e T d1 r" using row by blast
  then have "list_all (swept_row e T d1) (l @ m)" using l(3) by (auto simp: list_all_iff)
  ultimately show ?thesis unfolding swept_def by blast
qed

lemma swept_stale:
  assumes "swept e T d d'" "stale_rows e c t d'" shows "stale_rows e c t d"
proof -
  obtain clock extra p where p: "clockColumnFor c = Some (clock, extra)" "p \<in> set (db_profiles d')"
      "expired clock extra (en_stamp e t) d' p"
    using assms(2) by (auto simp: stale_rows_def list_ex_iff split: option.splits)
  obtain log where l: "d' = (without e (set (map dl_ProfileID log)) d)\<lparr>db_deletions := db_deletions d @ log\<rparr>"
    using assms(1) by (auto simp: swept_def)
  have q: "p \<in> set (db_profiles d)" "up_ID p \<notin> set (map dl_ProfileID log)" using p(2) l by auto
  then have "expired clock extra (en_stamp e t) d p" using p(3) expired_without [OF p(1) q(2)] by (simp add: l)
  then show ?thesis using p(1) q by (auto simp: stale_rows_def list_ex_iff)
qed

lemma swept_refl: "swept e T d d"
  unfolding swept_def by (intro exI [of _ "[]"]) simp

lemma sweeper_call: "store_sweeper del c t n w = (r, w') \<Longrightarrow> del c t n (fst w) = (r, fst w')"
  by (auto simp: store_sweeper_def split: prod.splits)

locale batch_deleter =
  fixes e :: env
    and del :: "retention_class \<Rightarrow> time \<Rightarrow> int \<Rightarrow> sweep_result dbop"
  assumes keeps_schema: "db_keeps (db_wf e) (del c t n)"
    and batch: "db_wf e (st_db s) \<Longrightarrow> del c t n s = (Inr b, s') \<Longrightarrow> swept_batch e c t n b (st_db s) (st_db s')"
    and failed: "del c t n s = (Inl err, s') \<Longrightarrow> st_db s' = st_db s"
begin

lemma call_swept:
  assumes "db_wf e (st_db s)" "del c t n s = (r, s')" "T c = Some t" shows "swept e T (st_db s) (st_db s')"
proof (cases r)
  case (Inl err)
  then show ?thesis using assms(2) failed swept_refl by metis
next
  case (Inr b)
  then show ?thesis using batch_swept [where T = T, OF batch [OF assms(1) assms(2) [unfolded Inr]] assms(1,3)] by simp
qed

lemma sweeper:
  "expiry_sweeper (store_sweeper del :: (store \<times> 'x) expiry_sweeper) swept_db (db_wf e)
     (\<lambda>d. length (db_profiles d)) (stale_rows e) (swept e)"
proof unfold_locales
  fix w w' :: "store \<times> 'x" and c t n r
  assume "db_wf e (swept_db w)" "store_sweeper del c t n w = (r, w')"
  then show "db_wf e (swept_db w')"
    using keepsD [OF keeps_schema [of c t n], of "fst w"] sweeper_call [of del c t n w r w']
    by (simp add: swept_db_def)
qed (auto simp: swept_db_def swept_refl dest!: sweeper_call intro: call_swept swept_trans swept_stale
    dest: batch_progress [OF batch] batch_no_stale [OF batch])

end

end
