(* ===== verification/SweepSqlite.thy ===== *)
theory SweepSqlite
  imports SweepBatch
begin

section \<open>The retention sweep on the SQLite repository\<close>

text \<open>\<open>sqlite_DeleteExpired\<close> meets the contract of a batch, so \<open>Run\<close> over it sweeps the store.\<close>

interpretation sqlite_batches: batch_deleter e "sqlite_DeleteExpired e" for e
proof unfold_locales
  show "db_keeps (db_wf e) (sqlite_DeleteExpired e c t n)" for c t n by (rule keeps_DeleteExpired)
next
  fix c t n s b s'
  assume a: "db_wf e (st_db s)" "sqlite_DeleteExpired e c t n s = (Inr b, s')"
  obtain clock extra where c: "clockColumnFor c = Some (clock, extra)"
    using a(2) by (auto simp: sqlite_DeleteExpired_def split: if_splits option.splits)
  show "swept_batch e c t n b (st_db s) (st_db s')"
    by (rule DeleteExpired_Inr [OF c a]) (use c in \<open>unfold swept_batch_def, blast\<close>)
qed (auto simp: sqlite_DeleteExpired_def Let_def split: if_splits option.splits dest: in_tx_Inl)

interpretation sqlite_sweep: expiry_sweeper "store_sweeper (sqlite_DeleteExpired e)" swept_db "db_wf e"
    "\<lambda>d. length (db_profiles d)" "stale_rows e" "swept e" for e
  by (rule sqlite_batches.sweeper)

text \<open>
  C13. The sweep terminates and does what retention promises: on a store that satisfies the schema, with
  an emitter, recorder, clock and context that do not write to it, \<open>Run\<close> returns one result per class, in
  order; a class reported drained has no row older than its cutoff left at the end of the run, any other
  class reports its error; and from the start to the end of the run the only profiles removed are ones
  that were expired in their class, each logged exactly once, the rest of the store being unchanged.
\<close>
theorem sweep_removes_what_expired:
  assumes "leaves_alone swept_db d" "se_repo d = store_sweeper (sqlite_DeleteExpired e)" "db_wf e (swept_db w)"
  shows "\<exists>rs w'. Run d now k w = Some (rs, w') \<and> map cr_Class rs = allClasses \<and>
    list_all (class_outcome (stale_rows e) now (swept_db w')) rs \<and>
    swept e (cutoffFor now) (swept_db w) (swept_db w') \<and> db_wf e (swept_db w')"
  using sqlite_sweep.Run_ends [OF assms] by blast

definition quiet_sweep :: "(store \<times> unit) sweep_env" where
  "quiet_sweep = \<lparr>se_ctx_Err = (\<lambda>w. (None, w)), se_now = (\<lambda>w. (0, w)), se_repo = store_sweeper (sqlite_DeleteExpired quiet_env),
     se_emit = None, se_recorder = None\<rparr>"

theorem sweep_removes_what_expired_witness:
  "\<exists>rs w'. Run quiet_sweep (1000 * 365 * 24 * hour) 0 (\<lparr>st_db = old_and_fresh, st_tick = 0\<rparr>, ()) = Some (rs, w') \<and>
    map cr_Class rs = allClasses"
proof -
  have "leaves_alone swept_db quiet_sweep" by (simp add: leaves_alone_def quiet_sweep_def)
  moreover have "se_repo quiet_sweep = store_sweeper (sqlite_DeleteExpired quiet_env)" by (simp add: quiet_sweep_def)
  moreover have "db_wf quiet_env (swept_db (\<lparr>st_db = old_and_fresh, st_tick = 0\<rparr>, ()))"
    by (simp add: swept_db_def old_and_fresh_wf)
  ultimately show ?thesis using sweep_removes_what_expired by blast
qed

text \<open>
  The retention windows: the cutoff of the direct class is the same day two years earlier, that is
  730 or 731 days before the run (a leap day in between), the cutoff of the cache class exactly 30 days and of the
  orphan class exactly 7 days before it; no other class has one.
\<close>
theorem retention_windows:
  "(\<exists>t. cutoffFor now RetentionDirect = Some t \<and> now - 731 * (24 * hour) \<le> t \<and> t \<le> now - 730 * (24 * hour)) \<and>
   cutoffFor now RetentionIDPCache = Some (now - 30 * (24 * hour)) \<and>
   cutoffFor now RetentionIDPCacheOrphan = Some (now - 7 * (24 * hour)) \<and>
   (cutoffFor now c = None \<longleftrightarrow> c \<notin> set allClasses)"
  using two_years_back [of now] add_days [of now "- 30"] add_days [of now "- 7"]
  by (cases c) (simp_all add: day_length_def allClasses_def)

end
