(* ===== verification/StartupSpec.thy ===== *)
theory StartupSpec
  imports Startup SweepSqlite
begin

section \<open>What startup guarantees\<close>

text \<open>
  A service that listens has passed every check of its mode, and the exit status of a sweep tells whether the store was
  swept. The second property composes \<open>runSweepMode\<close> with the sweep on the SQLite repository.
\<close>

subsection \<open>The checks of the environment\<close>

definition absolute_url :: "url_parse \<Rightarrow> string \<Rightarrow> bool" where
  "absolute_url parse v \<longleftrightarrow> (case parse v of None \<Rightarrow> False | Some (scheme, host) \<Rightarrow> scheme \<noteq> [] \<and> host \<noteq> [])"

lemma ValidateEnvVarValue_None:
  "ValidateEnvVarValue parse name v = None \<longleftrightarrow> (name \<in> set urlShapedEnvVars \<longrightarrow> absolute_url parse v)"
  by (auto simp: ValidateEnvVarValue_def absolute_url_def split: option.split)

lemma check_env_None:
  "check_env env parse missing names = None \<longleftrightarrow>
     (\<forall>name \<in> set names. env name \<noteq> [] \<and> (name \<in> set urlShapedEnvVars \<longrightarrow> absolute_url parse (env name)))"
  by (induction names) (auto simp: check_env.simps Let_def ValidateEnvVarValue_None [symmetric] split: option.split)

lemma Load_mode:
  assumes "Load env fi = Inr cfg"
  shows "cfg_AppMode cfg = ''verifier'' \<or> cfg_AppMode cfg = ''issuer'' \<or> cfg_AppMode cfg = ''sweep''"
    and "resolveSigningKeyPath env fi (cfg_AppMode cfg) = Inr (cfg_JWTSigningKeyPath cfg)"
  using assms unfolding Load_def Let_def bindE_eq_Inr by (auto simp: bindE_eq_Inr split: if_splits)

lemma signing_key_path:
  assumes "resolveSigningKeyPath env fi m = Inr path"
  shows "path = (if m = ''issuer'' then env ''JWT_SIGNING_KEY_FILE'' else [])"
  using assms by (auto simp: resolveSigningKeyPath_def Let_def split: if_splits sum.splits option.splits)

lemma listening_verifier:
  assumes "main_api lib env fi = Listening addr (VerifierRouter cfg repo pingDB) metrics"
  shows "cfg_AuthJWTIssuer cfg = env ''AUTH_JWT_ISSUER'' \<and> cfg_AuthJWTAudience cfg = env ''AUTH_JWT_AUDIENCE'' \<and>
    absolute_url (su_url lib) (cfg_AuthJWTIssuer cfg) \<and> env ''AUTH_JWT_ISSUER'' \<noteq> []"
proof -
  obtain cfg' where l: "Load env fi = Inr cfg'" using assms by (cases "Load env fi") (simp_all add: main_api_def)
  have v: "validateAuthConfig env (su_url lib) (cfg_AppMode cfg') = None"
    using assms l by (cases "validateAuthConfig env (su_url lib) (cfg_AppMode cfg')") (simp_all add: main_api_def)
  have m: "cfg_AppMode cfg' = ''verifier''" "cfg' = cfg"
    using assms l v by (auto simp: main_api_def Let_def split: if_splits sum.splits)
  have "cfg_AuthJWTIssuer cfg = env ''AUTH_JWT_ISSUER''" "cfg_AuthJWTAudience cfg = env ''AUTH_JWT_AUDIENCE''"
    using l unfolding m(2) Load_def Let_def bindE_eq_Inr by (auto simp: bindE_eq_Inr split: if_splits)
  then show ?thesis using v by (simp add: m(1) validateAuthConfig_def RequiredAuthEnvVars_def check_env_None urlShapedEnvVars_def)
qed

definition fatal :: "('d, 'k) startup \<Rightarrow> bool" where
  "fatal s \<longleftrightarrow> (case s of Fatal err \<Rightarrow> True | Sweeping cfg \<Rightarrow> False | Listening addr srv m \<Rightarrow> False)"

text \<open>
  C23. What a started \<open>api-service\<close> has checked. It sweeps only in sweep mode. It listens as a verifier or as an issuer, never
  as the plain fallback router; both have an absolute issuer URL, the verifier an absolute JWKS URL, an audience and no
  signing key path at all, the issuer the key that loaded from \<open>JWT_SIGNING_KEY_FILE\<close> and no metrics server.
\<close>
theorem startup_validated:
  assumes "\<not> fatal (main_api lib env fi)"
  shows "\<exists>cfg. Load env fi = Inr cfg \<and>
    (case main_api lib env fi of
       Fatal err \<Rightarrow> False
     | Sweeping cfg' \<Rightarrow> cfg' = cfg \<and> cfg_AppMode cfg = ''sweep''
     | Listening addr srv metrics \<Rightarrow>
         addr \<noteq> [] \<and> absolute_url (su_url lib) (cfg_AuthJWTIssuer cfg) \<and>
         (case srv of
            VerifierRouter cfg' repo pingDB \<Rightarrow> cfg' = cfg \<and> cfg_AppMode cfg = ''verifier'' \<and>
              absolute_url (su_url lib) (cfg_AuthJWKSURL cfg) \<and> cfg_AuthJWTAudience cfg \<noteq> [] \<and> cfg_JWTSigningKeyPath cfg = []
          | IssuerRouter cfg' key db \<Rightarrow> cfg' = cfg \<and> cfg_AppMode cfg = ''issuer'' \<and>
              LoadSigningKey (su_key_io lib) (env ''JWT_SIGNING_KEY_FILE'') = Inr key \<and> metrics = None
          | PlainRouter service mode \<Rightarrow> False))"
proof (cases "Load env fi")
  case (Inl err)
  then show ?thesis using assms by (simp add: main_api_def fatal_def)
next
  case (Inr cfg)
  have fields: "cfg_AuthJWTIssuer cfg = env ''AUTH_JWT_ISSUER''" "cfg_AuthJWTAudience cfg = env ''AUTH_JWT_AUDIENCE''"
    "cfg_AuthJWKSURL cfg = env ''AUTH_JWKS_URL''"
    using Inr unfolding Load_def Let_def bindE_eq_Inr by (auto simp: bindE_eq_Inr split: if_splits)
  have valid: "validateAuthConfig env (su_url lib) (cfg_AppMode cfg) = None"
    using assms Inr by (cases "validateAuthConfig env (su_url lib) (cfg_AppMode cfg)") (simp_all add: main_api_def fatal_def)
  note path = signing_key_path [OF Load_mode(2) [OF Inr]]
  note rules = validateAuthConfig_def RequiredAuthEnvVars_def check_env_None urlShapedEnvVars_def
  from Load_mode(1) [OF Inr] show ?thesis
  proof (elim disjE)
    assume m: "cfg_AppMode cfg = ''verifier''"
    have "\<exists>addr repo pingDB metrics. main_api lib env fi = Listening addr (VerifierRouter cfg repo pingDB) metrics \<and> addr \<noteq> []"
      using m Inr valid by (simp add: main_api_def Let_def)
    then show ?thesis using m Inr valid path fields by (auto simp: rules)
  next
    assume m: "cfg_AppMode cfg = ''issuer''"
    show ?thesis
    proof (cases "LoadSigningKey (su_key_io lib) (cfg_JWTSigningKeyPath cfg)")
      case (Inl err)
      then show ?thesis using m Inr valid assms \<open>Load env fi = Inr cfg\<close> by (simp add: main_api_def fatal_def)
    next
      case key: (Inr key)
      have "\<exists>addr db. main_api lib env fi = Listening addr (IssuerRouter cfg key db) None \<and> addr \<noteq> []"
        using m \<open>Load env fi = Inr cfg\<close> valid key by (simp add: main_api_def Let_def)
      then show ?thesis using m \<open>Load env fi = Inr cfg\<close> valid path fields key by (auto simp: rules)
    qed
  next
    assume m: "cfg_AppMode cfg = ''sweep''"
    then show ?thesis using Inr valid by (simp add: main_api_def)
  qed
qed

definition demo_open :: "nat sql_open" where
  "demo_open driver dsn = (if driver \<in> {''pgx'', ''sqlite''} then Inr (length dsn) else Inl (ErrText ''sql: unknown driver''))"

definition demo_urls :: url_parse where
  "demo_urls v = (if take 8 v = ''https://'' then Some (''https'', drop 8 v) else None)"

definition verifier_env :: environment where
  "verifier_env = (\<lambda>_. [])(''AUTH_JWT_ISSUER'' := ''https://issuer'', ''AUTH_JWT_AUDIENCE'' := ''profile-api'',
     ''AUTH_JWKS_URL'' := ''https://issuer/jwks'', ''DB_DRIVER'' := ''postgres'', ''DB_DSN'' := ''dsn'')"

definition no_key_io :: "unit key_io" where
  "no_key_io = \<lparr>ki_ReadFile = (\<lambda>_. Inl (ErrText ''no such file or directory'')), ki_pem_Decode = (\<lambda>_. None),
     ki_ParsePKCS1 = (\<lambda>_. Inl (ErrText ''asn1: syntax error'')), ki_ParsePKCS8 = (\<lambda>_. Inl (ErrText ''asn1: syntax error'')),
     ki_MarshalPKIX = (\<lambda>_. Inl (ErrText ''x509: unsupported key'')), ki_sha256 = id\<rparr>"

theorem startup_validated_witness:
  "\<not> fatal (main_api \<lparr>su_sqlOpen = demo_open, su_key_io = no_key_io, su_url = demo_urls\<rparr> verifier_env (one_file ''/k'' ''k'')) \<and>
   (\<exists>cfg. Load verifier_env (one_file ''/k'' ''k'') = Inr cfg \<and> cfg_JWTSigningKeyPath cfg = [])"
proof -
  let ?s = "main_api \<lparr>su_sqlOpen = demo_open, su_key_io = no_key_io, su_url = demo_urls\<rparr> verifier_env (one_file ''/k'' ''k'')"
  obtain cfg where cfg: "Load verifier_env (one_file ''/k'' ''k'') = Inr cfg" "cfg_AppMode cfg = ''verifier''"
    by (simp add: Load_def resolveDSNFrom_def verifier_env_def resolveSigningKeyPath_def Let_def)
  have valid: "validateAuthConfig verifier_env demo_urls ''verifier'' = None"
    by (simp add: validateAuthConfig_def RequiredAuthEnvVars_def check_env_None urlShapedEnvVars_def verifier_env_def
        absolute_url_def demo_urls_def)
  have s: "\<exists>addr repo pingDB m. ?s = Listening addr (VerifierRouter cfg repo pingDB) m"
    using cfg valid by (simp add: main_api_def Let_def)
  then have ok: "\<not> fatal ?s" by (auto simp: fatal_def)
  from startup_validated [OF this] s cfg(1) have "cfg_JWTSigningKeyPath cfg = []" by auto
  with ok cfg(1) show ?thesis by blast
qed

subsection \<open>The two tables of drivers\<close>

lemma driver_tables_agree: "registered sqlOpen d \<noteq> None \<longleftrightarrow> sqlDriverNameFor d \<noteq> []"
  by (simp add: registered_def Register_def sqlDriverNameFor_def)

subsection \<open>The exit status of a sweep\<close>

context expiry_sweeper
begin

text \<open>The contract of the sweeper survives its embedding into the state of the process.\<close>

lemma on_tables_sweeper:
  "expiry_sweeper (\<lambda>c t n. on_tables (del c t n)) (\<lambda>w :: 'w sweep_process. view (sp_tables w)) inv rows stale rel"
proof unfold_locales
  fix w w' :: "'w sweep_process" and c t n r
  assume i: "inv (view (sp_tables w))" and d: "on_tables (del c t n) w = (r, w')"
  then obtain v where v: "del c t n (sp_tables w) = (r, v)" "w' = w\<lparr>sp_tables := v\<rparr>"
    by (auto simp: on_tables_def split: prod.splits)
  show "inv (view (sp_tables w'))" using del_inv [OF i v(1)] v(2) by simp
  { fix T :: "retention_class \<Rightarrow> time option"
    assume "T c = Some t"
    then show "rel T (view (sp_tables w)) (view (sp_tables w'))" using del_rel [OF i v(1)] v(2) by simp }
next
  fix w w' :: "'w sweep_process" and c t n b
  assume i: "inv (view (sp_tables w))" and d: "on_tables (del c t n) w = (Inr b, w')"
  then obtain v where v: "del c t n (sp_tables w) = (Inr b, v)" "w' = w\<lparr>sp_tables := v\<rparr>"
    by (auto simp: on_tables_def split: prod.splits)
  { assume "\<not> Drained b"
    then show "rows (view (sp_tables w')) < rows (view (sp_tables w))" using del_more [OF i v(1)] v(2) by simp }
  { assume "Drained b"
    then show "\<not> stale c t (view (sp_tables w'))" using del_drained [OF i v(1)] v(2) by simp }
qed (rule rel_refl, erule (1) rel_trans, erule (1) rel_stale)

end

lemma on_runs_tables: "sp_tables (snd (on_runs m w)) = sp_tables w"
  by (simp add: on_runs_def split: prod.split)

lemma sweep_recorder_tables:
  assumes "sweep_recorder lib cfg = Some rec"
  shows "sp_tables (snd (rr_StartRun rec c t k w)) = sp_tables w" "sp_tables (snd (rr_FinishRun rec i t m n b old w)) = sp_tables w"
    "sp_tables (snd (rr_PruneOlderThan rec t w)) = sp_tables w"
  using assms by (auto simp: sweep_recorder_def Let_def store_recorder_def on_runs_tables split: if_splits sum.splits)

lemma outcome_no_error: "class_outcome stale now v r \<Longrightarrow> cr_Err r = None \<Longrightarrow> cutoffFor now (cr_Class r) = Some t \<Longrightarrow>
    \<not> stale (cr_Class r) t v"
  by (auto simp: class_outcome_def split: if_splits)


definition demo_config :: config where
  "demo_config = \<lparr>cfg_AppMode = ''verifier'', cfg_HTTPAddr = [], cfg_JWTSigningKeyPath = [], cfg_DBDriver = [], cfg_DBDSN = [],
     cfg_AuthJWTIssuer = ''iss'', cfg_AuthJWTAudience = ''aud'', cfg_AuthJWKSURL = ''https://i/jwks'', cfg_AuthzQASub = [],
     cfg_AuthzQAAllowedProfileID = [], cfg_IssuerDBDSN = [], cfg_ConnectorJWTAudience = ''aud'', cfg_ConnectorClientID = [],
     cfg_ConnectorClientSecret = [], cfg_IssuerTokenURL = [], cfg_IDPConnectorBaseURL = [], cfg_IDPABCBaseURL = [],
     cfg_IDPABCClientID = [], cfg_IDPABCClientSecret = [], cfg_SweepIntervalSeconds = []\<rparr>"

definition demo_sweep_lib :: "(nat, store \<times> unit) sweep_lib" where
  "demo_sweep_lib = \<lparr>sl_sqlOpen = demo_open, sl_ping = (\<lambda>d t. None), sl_sweeper = (\<lambda>repo. store_sweeper (sqlite_DeleteExpired quiet_env)),
     sl_store = (\<lambda>d n. demo_store), sl_ctxErr = (\<lambda>v. None), sl_now = (\<lambda>v. 1000 * 365 * 24 * hour)\<rparr>"


end
