(* ===== verification/RoutersSpec.thy ===== *)
theory RoutersSpec
  imports Routers VerifierSpec StartupSpec
begin

section \<open>What the routers let through\<close>

text \<open>
  The middleware, the handlers and the tables of routes together: which requests reach a handler, and with what token.
\<close>

text \<open>A request that a pattern of the code, written as in the code, matches.\<close>

definition routed :: "incoming \<Rightarrow> string \<Rightarrow> bool" where
  "routed x pat \<longleftrightarrow> applies (handle pat ()) (in_method x) (in_path x)"

text \<open>What the mux sets in a request, the middleware does not read.\<close>

lemma in_req_with_values [simp]: "hr_header (in_req (with_values b x)) = hr_header (in_req x)"
  "hr_ctx (in_req (with_values b x)) = hr_ctx (in_req x)" "hr_query (in_req (with_values b x)) = hr_query (in_req x)"
  by (simp_all add: with_values_def)

lemma path_value: "map_of b n = Some v \<Longrightarrow> hr_path (in_req (with_values b x)) n = v"
  by (simp add: with_values_def)

text \<open>The guard: a refusal, or the handler behind it on the request with an accepted token.\<close>

definition admitted :: "'s jwt_lib \<Rightarrow> 's jwt_verifier \<Rightarrow> ctx \<Rightarrow> request \<Rightarrow> 's \<Rightarrow> 's \<Rightarrow> auth_context \<Rightarrow> bool" where
  "admitted L v cx r s s1 ac \<longleftrightarrow> (\<exists>tok. bearerToken r = Some tok \<and> token_accepted L v cx tok s s1 ac)"

text \<open>What the guard may have done before it refuses.\<close>

definition key_lookup :: "'s jwt_verifier \<Rightarrow> ctx \<Rightarrow> 's \<Rightarrow> 's \<Rightarrow> bool" where
  "key_lookup v cx s s1 \<longleftrightarrow> s1 = s \<or> (\<exists>tok. s1 = snd (jwt_verify v cx tok s))"

lemma protect_cases:
  assumes "jwt_lib_ok L (jv_parse v)" "protect wt v aud h (with_values b x) s = (resp, s')"
  shows "(\<exists>err s1. resp = writeUnauthorized \<and> s' = logAuthnFailure (Some aud) err s1 \<and>
       key_lookup v (wt deadlineBudget (hr_ctx (in_req x))) s s1) \<or>
    (\<exists>s1 ac. admitted L v (wt deadlineBudget (hr_ctx (in_req x))) (in_req x) s s1 ac \<and>
       h ((in_req (with_values b x))\<lparr>hr_ctx := wt deadlineBudget (hr_ctx (in_req x)), hr_auth := Some ac\<rparr>) s1 = (resp, s'))"
proof -
  let ?cx = "wt deadlineBudget (hr_ctx (in_req x))" and ?r = "(in_req (with_values b x))\<lparr>hr_ctx := wt deadlineBudget (hr_ctx (in_req x))\<rparr>"
  have tok: "bearerToken ?r = bearerToken (in_req x)" by (simp add: bearerToken_def)
  have run: "NewJWTMiddleware v (Some aud) h ?r s = (resp, s')"
    using assms(2) by (simp add: protect_def NewDeadlineMiddleware_def)
  show ?thesis
  proof (cases "bearerToken (in_req x)")
    case None
    then show ?thesis using run by (auto simp: NewJWTMiddleware_def tok key_lookup_def)
  next
    case (Some t)
    obtain y s1 where v: "jwt_verify v ?cx t s = (y, s1)" by fastforce
    show ?thesis
    proof (cases y)
      case (Inl err)
      have "key_lookup v ?cx s s1" unfolding key_lookup_def using v by (metis snd_conv)
      then show ?thesis using run Some v Inl by (auto simp: NewJWTMiddleware_def tok)
    next
      case (Inr ac)
      have "admitted L v ?cx (in_req x) s s1 ac"
        using jwt_verify_Inr [OF assms(1) v [unfolded Inr]] Some by (auto simp: admitted_def)
      moreover have "h (?r\<lparr>hr_auth := Some ac\<rparr>) s1 = (resp, s')" using run Some v Inr by (simp add: NewJWTMiddleware_def tok)
      ultimately show ?thesis by blast
    qed
  qed
qed

subsection \<open>The verifier\<close>

lemma own_allowed:
  assumes "d_authorize (in_process_deps f g (stopgapReadOwnAllow cfg)) cx sub ScopeReadOwn i s = (Inr True, s')"
  shows "sub = cfg_AuthzQASub cfg \<and> i = cfg_AuthzQAAllowedProfileID cfg \<and> sub \<noteq> [] \<and> i \<noteq> []"
  using assms
  by (auto simp: in_process_deps_def retS_def StopgapAuthorizer_Authorize_def stopgapReadOwnAllow_def scope_defs split: if_splits)

text \<open>Who is answered with profile data, and why.\<close>

definition profile_answer_ok :: "config \<Rightarrow> incoming \<Rightarrow> auth_context \<Rightarrow> bool" where
  "profile_answer_ok cfg x ac \<longleftrightarrow>
     (routed x ''POST /profiles/search'' \<and> ac_Scope ac = ScopeSearch) \<or>
     (routed x ''GET /profiles/{id}'' \<and>
       (ac_Scope ac = ScopeReadAny \<or>
        ac_Scope ac = ScopeReadOwn \<and> ac_Sub ac = cfg_AuthzQASub cfg \<and> cfg_AuthzQASub cfg \<noteq> [] \<and>
        match_path [Lit ''profiles'', Wild ''id''] (in_path x) = Some [(''id'', cfg_AuthzQAAllowedProfileID cfg)]))"

lemma match_one_wild:
  assumes "match_path [Lit l, Wild n] path = Some b"
  shows "\<exists>v. b = [(n, v)]"
  using assms by (auto split: if_splits prod.splits)

lemma search_answer:
  assumes "fst (verifier_handlers lib cfg repo) (r\<lparr>hr_auth := Some ac\<rparr>) s = (resp, s')" "rs_status resp = 200"
  shows "repo \<noteq> None \<and> ac_Scope ac = ScopeSearch"
proof (cases repo)
  case None
  then show ?thesis using assms by (auto simp: verifier_handlers_def WriteServiceUnavailable_def writeError_def json_response_def)
next
  case (Some d)
  then show ?thesis using assms search_200 by (fastforce simp: verifier_handlers_def Let_def)
qed

lemma get_answer:
  assumes "snd (verifier_handlers lib cfg repo) (r\<lparr>hr_auth := Some ac\<rparr>) s = (resp, s')" "rs_status resp = 200"
  shows "repo \<noteq> None \<and> (ac_Scope ac = ScopeReadAny \<or> ac_Scope ac = ScopeReadOwn \<and> ac_Sub ac = cfg_AuthzQASub cfg \<and>
    cfg_AuthzQASub cfg \<noteq> [] \<and> hr_path r ''id'' = cfg_AuthzQAAllowedProfileID cfg)"
proof (cases repo)
  case None
  then show ?thesis using assms by (auto simp: verifier_handlers_def WriteServiceUnavailable_def writeError_def json_response_def)
next
  case (Some d)
  then have "get_profile_handler (in_process_deps (vl_search lib d) (vl_get lib d) (stopgapReadOwnAllow cfg))
      (r\<lparr>hr_auth := Some ac\<rparr>) s = (resp, s')"
    using assms(1) by (simp add: verifier_handlers_def Let_def)
  from get_200 [OF this assms(2)] Some show ?thesis by (auto dest!: own_allowed)
qed

lemma verifier_routes:
  "NewVerifierRouter lib cfg repo pingDB =
    [handle ''/healthz'' (healthHandlerWithDB (vl_with_timeout lib) (vl_ping lib) (vl_commit lib) ''api-service'' pingDB),
     handle ''POST /profiles/search'' (protect (vl_with_timeout lib) (verifier_jwt lib cfg) verifier_audit (fst (verifier_handlers lib cfg repo))),
     handle ''GET /profiles/{id}'' (protect (vl_with_timeout lib) (verifier_jwt lib cfg) verifier_audit (snd (verifier_handlers lib cfg repo))),
     handle ''GET /demo'' (demoHandler (vl_demoPage lib))]"
  by (simp add: NewVerifierRouter_def case_prod_beta Let_def)

lemma routed_simps:
  "applies (handle pat h) (in_method x) (in_path x) = routed x pat"
  by (simp add: routed_def applies_def handle_def Let_def)

text \<open>A request served on a protected route with an accepted token: what the handler behind the guard was given.\<close>

definition guarded_call :: "('d, 'w) verifier_lib \<Rightarrow> config \<Rightarrow> 'd repository option \<Rightarrow> incoming \<Rightarrow> auth_context \<Rightarrow> 'w verifier_world \<Rightarrow>
    response \<times> 'w verifier_world \<Rightarrow> bool" where
  "guarded_call lib cfg repo x ac w1 y \<longleftrightarrow>
     (\<exists>b. let r = (in_req (with_values b x))\<lparr>hr_ctx := vl_with_timeout lib deadlineBudget (hr_ctx (in_req x)), hr_auth := Some ac\<rparr> in
       (routed x ''POST /profiles/search'' \<and> y = fst (verifier_handlers lib cfg repo) r w1) \<or>
       (routed x ''GET /profiles/{id}'' \<and> match_path [Lit ''profiles'', Wild ''id''] (in_path x) = Some b \<and>
        y = snd (verifier_handlers lib cfg repo) r w1))"

lemma verifier_cases:
  assumes "jwt_lib_ok L (vl_parse lib)" "ServeHTTP (NewVerifierRouter lib cfg repo pingDB) x w = (resp, w')"
  shows "((routed x ''/healthz'' \<or> routed x ''GET /demo'') \<and> (w' = w \<or> (\<exists>db cx. w' = snd (vl_ping lib db cx w)))) \<or> (w' = w \<and> rs_status resp \<in> {301, 404, 405}) \<or>
    (\<exists>err w1. resp = writeUnauthorized \<and> w' = logAuthnFailure (Some verifier_audit) err w1 \<and>
       key_lookup (verifier_jwt lib cfg) (vl_with_timeout lib deadlineBudget (hr_ctx (in_req x))) w w1) \<or>
    (\<exists>w1 ac. admitted L (verifier_jwt lib cfg) (vl_with_timeout lib deadlineBudget (hr_ctx (in_req x))) (in_req x) w w1 ac \<and>
       guarded_call lib cfg repo x ac w1 (resp, w'))"
proof -
  let ?v = "verifier_jwt lib cfg"
  have lib: "jwt_lib_ok L (jv_parse ?v)" using assms(1) by (simp add: verifier_jwt_def)
  from ServeHTTP_cases [OF assms(2)] consider (refused) "w' = w" "rs_status resp \<in> {301, 404, 405}"
    | (health) b where "routed x ''/healthz''"
        "healthHandlerWithDB (vl_with_timeout lib) (vl_ping lib) (vl_commit lib) ''api-service'' pingDB (with_values b x) w = (resp, w')"
    | (demo) "routed x ''GET /demo''" "w' = w"
    | (search) b where "routed x ''POST /profiles/search''"
        "protect (vl_with_timeout lib) ?v verifier_audit (fst (verifier_handlers lib cfg repo)) (with_values b x) w = (resp, w')"
    | (get) b where "routed x ''GET /profiles/{id}''" "match_path [Lit ''profiles'', Wild ''id''] (in_path x) = Some b"
        "protect (vl_with_timeout lib) ?v verifier_audit (snd (verifier_handlers lib cfg repo)) (with_values b x) w = (resp, w')"
    unfolding verifier_routes by (auto simp: routed_simps) (auto simp: handle_simps demoHandler_def)
  then show ?thesis
  proof cases
    case health
    then have "w' = w \<or> (\<exists>db cx. w' = snd (vl_ping lib db cx w))"
      by (auto simp: healthHandlerWithDB_def split: option.splits prod.splits) (metis snd_conv)
    then show ?thesis using health(1) by blast
  next
    case search
    from protect_cases [OF lib search(2)] search(1) show ?thesis by (simp add: guarded_call_def Let_def) metis
  next
    case get
    from protect_cases [OF lib get(3)] get(1,2) show ?thesis by (simp add: guarded_call_def Let_def del: match_path.simps) metis
  qed blast+
qed

text \<open>
  C3. The verifier answers 200 outside \<open>/healthz\<close> and \<open>/demo\<close> only with a repository, on one of its two profile routes,
  to a request whose bearer token is accepted for the configured issuer and audience, and only for a scope of that
  route: \<open>profile:search\<close> for a search, \<open>profile:read:any\<close> for a profile, or \<open>profile:read:own\<close> for the one profile that the
  configuration allows that subject. Without a route a request changes nothing, and without such a token it is answered 401
  and leaves an audit event.
\<close>
theorem verifier_guarded:
  assumes "jwt_lib_ok L (vl_parse lib)" "ServeHTTP (NewVerifierRouter lib cfg repo pingDB) x w = (resp, w')"
  shows "routed x ''/healthz'' \<or> routed x ''GET /demo'' \<or> (w' = w \<and> rs_status resp \<in> {301, 404, 405}) \<or>
    (\<exists>err w1. resp = writeUnauthorized \<and> w' = logAuthnFailure (Some verifier_audit) err w1) \<or>
    (\<exists>w1 ac. admitted L (verifier_jwt lib cfg) (vl_with_timeout lib deadlineBudget (hr_ctx (in_req x))) (in_req x) w w1 ac \<and>
       (rs_status resp = 200 \<longrightarrow> repo \<noteq> None \<and> profile_answer_ok cfg x ac))"
proof -
  have "rs_status resp = 200 \<longrightarrow> repo \<noteq> None \<and> profile_answer_ok cfg x ac" if g: "guarded_call lib cfg repo x ac w1 (resp, w')" for ac w1
  proof -
    let ?r = "\<lambda>b. (in_req (with_values b x))\<lparr>hr_ctx := vl_with_timeout lib deadlineBudget (hr_ctx (in_req x)), hr_auth := Some ac\<rparr>"
    from g consider (search) b where "routed x ''POST /profiles/search''" "fst (verifier_handlers lib cfg repo) (?r b) w1 = (resp, w')"
      | (get) b where "routed x ''GET /profiles/{id}''" "match_path [Lit ''profiles'', Wild ''id''] (in_path x) = Some b"
          "snd (verifier_handlers lib cfg repo) (?r b) w1 = (resp, w')"
      unfolding guarded_call_def Let_def by metis
    then show ?thesis
    proof cases
      case search
      then show ?thesis using search_answer [OF search(2)] by (auto simp: profile_answer_ok_def)
    next
      case get
      obtain i where b: "b = [(''id'', i)]" using match_one_wild [OF get(2)] by blast
      have "hr_path (in_req (with_values b x)) ''id'' = i" by (rule path_value) (simp add: b)
      then show ?thesis using get_answer [OF get(3)] get(1,2) by (auto simp: profile_answer_ok_def b)
    qed
  qed
  then show ?thesis using verifier_cases [OF assms] by blast
qed

text \<open>A verifier without a repository and a request with a good token.\<close>

definition demo_world_lib :: "time verifier_world jwt_lib" where
  "demo_world_lib = \<lparr>jl_header = jl_header demo_lib, jl_claims = jl_claims demo_lib, jl_verifies = jl_verifies demo_lib, jl_now = vw_rest\<rparr>"

definition demo_verifier_lib :: "(nat, time) verifier_lib" where
  "demo_verifier_lib = \<lparr>vl_with_timeout = (\<lambda>_ cx. cx), vl_ping = (\<lambda>_ _ w. (None, w)), vl_parse = lib_parse demo_world_lib,
     vl_jwks = demo_env, vl_search = (\<lambda>_ _ _. retS ([example_profile], 1)), vl_get = (\<lambda>_ _ _. retS example_profile),
     vl_commit = ''abc'', vl_demoPage = ''<html>''\<rparr>"

definition demo_incoming :: incoming where
  "demo_incoming = \<lparr>in_method = ''POST'', in_path = ''/profiles/search'', in_req = bearer_request,
     in_form = \<lparr>tq_form = Inl Canceled, tq_basic = None, tq_remote = []\<rparr>\<rparr>"

lemma good_token:
  assumes "keys cx ''k1'' s = (Inr \<lparr>pk_N = 1, pk_E = 3\<rparr>, s1)" "jl_header L = jl_header demo_lib" "jl_claims L = jl_claims demo_lib"
    and "jl_verifies L = jl_verifies demo_lib" "jl_now L s1 < 350 * second"
  shows "jwt_verify \<lparr>jv_parse = lib_parse L, jv_keys = keys, jv_issuer = ''iss'', jv_audience = ''aud''\<rparr> cx ''good'' s =
    (Inr \<lparr>ac_Sub = ''qa'', ac_Scope = ScopeSearch\<rparr>, s1)"
proof -
  have u: "unexpired demo_claims (jl_now L s1)" using assms(5) by (simp add: unexpired_def demo_claims_def)
  have k: "kid_keyfunc keys cx demo_header s = (Inr \<lparr>pk_N = 1, pk_E = 3\<rparr>, s1)"
    using assms(1) by (simp add: kid_keyfunc_def demo_header_def)
  have "lib_parse L [jwtAlgorithm] ''iss'' (kid_keyfunc keys cx) ''good'' s = (Inr (demo_claims, True), s1)"
    using u by (simp add: lib_parse_def assms(2-4) demo_lib_def k jwtAlgorithm_def) (simp add: demo_header_def demo_claims_def)
  then show ?thesis
    by (simp add: jwt_verify_def bindS_def hasAudience_def demo_claims_def demo_scope)
qed

definition demo_start :: "time verifier_world" where
  "demo_start = (verifier_start demo_config 7 (100 * second))\<lparr>vw_keys := demo_cache\<rparr>"

lemma demo_search_route: "match_path [Lit ''profiles'', Lit ''search''] ''/profiles/search'' = Some []"
  "cleanPath ''/profiles/search'' = ''/profiles/search''" "match_path [Lit ''healthz''] ''/profiles/search'' = None"
  "match_path [Lit ''demo''] ''/profiles/search'' = None"
  by code_simp+

lemma demo_serves: "fst (ServeHTTP (NewVerifierRouter demo_verifier_lib demo_config None None) demo_incoming demo_start) = WriteServiceUnavailable"
proof -
  let ?v = "verifier_jwt demo_verifier_lib demo_config"
  have v: "?v = \<lparr>jv_parse = lib_parse demo_world_lib, jv_keys = verifier_keys demo_env, jv_issuer = ''iss'', jv_audience = ''aud''\<rparr>"
    by (simp add: verifier_jwt_def demo_verifier_lib_def demo_config_def)
  have "\<exists>s1. verifier_keys demo_env None ''k1'' demo_start = (Inr \<lparr>pk_N = 1, pk_E = 3\<rparr>, s1) \<and> vw_rest s1 = 100 * second"
    by (simp add: verifier_keys_def demo_start_def verifier_start_def demo_run)
  then obtain s1 where k: "verifier_keys demo_env None ''k1'' demo_start = (Inr \<lparr>pk_N = 1, pk_E = 3\<rparr>, s1)" "vw_rest s1 = 100 * second"
    by blast
  have "jwt_verify ?v None ''good'' demo_start = (Inr \<lparr>ac_Sub = ''qa'', ac_Scope = ScopeSearch\<rparr>, s1)"
    unfolding v by (rule good_token) (simp_all add: demo_world_lib_def k second_def)
  moreover have "bearerToken (bearer_request\<lparr>hr_path := f, hr_ctx := None\<rparr>) = Some ''good''" for f
    using bearer_good by (simp add: bearerToken_def)
  moreover have "hr_ctx bearer_request = None" by (simp add: bearer_request_def)
  ultimately show ?thesis
    by (simp add: ServeHTTP_def findHandler_def demo_incoming_def demo_search_route verifier_routes handle_simps method_ok_def
        with_values_def protect_def NewDeadlineMiddleware_def NewJWTMiddleware_def verifier_handlers_def demo_verifier_lib_def
        del: match_path.simps)
qed

theorem verifier_guarded_witness:
  "\<exists>w1 ac. admitted demo_world_lib (verifier_jwt demo_verifier_lib demo_config) None bearer_request demo_start w1 ac \<and>
     fst (ServeHTTP (NewVerifierRouter demo_verifier_lib demo_config None None) demo_incoming demo_start) = WriteServiceUnavailable"
proof -
  let ?y = "ServeHTTP (NewVerifierRouter demo_verifier_lib demo_config None None) demo_incoming demo_start"
  have lib: "jwt_lib_ok demo_world_lib (vl_parse demo_verifier_lib)" by (simp add: demo_verifier_lib_def lib_parse_ok)
  have n: "\<not> routed demo_incoming ''/healthz''" "\<not> routed demo_incoming ''GET /demo''"
    by (simp_all add: routed_def applies_def handle_simps demo_incoming_def demo_search_route method_ok_def del: match_path.simps)
  have "rs_status (fst ?y) = 503" "fst ?y \<noteq> writeUnauthorized"
    by (simp_all add: demo_serves WriteServiceUnavailable_def writeUnauthorized_def writeError_def json_response_def)
  with verifier_guarded [OF lib prod.collapse [symmetric, of ?y]] n
  have "\<exists>w1 ac. admitted demo_world_lib (verifier_jwt demo_verifier_lib demo_config)
      (vl_with_timeout demo_verifier_lib deadlineBudget (hr_ctx (in_req demo_incoming))) (in_req demo_incoming) demo_start w1 ac"
    by auto
  then show ?thesis by (simp add: demo_serves) (simp add: demo_verifier_lib_def demo_incoming_def bearer_request_def)
qed

subsection \<open>The verifier as deployed\<close>

text \<open>
  C2. From the environment to the token: when \<open>api-service\<close> has started as a verifier, whatever it answers on a protected
  route besides the refusals is for a bearer token signed with RS256, by the issuer that \<open>AUTH_JWT_ISSUER\<close> names, for the
  audience that \<open>AUTH_JWT_AUDIENCE\<close> names, with a subject; no such deployment checks against an empty issuer.
\<close>
theorem deployed_verifier:
  assumes "main_api su env fi = Listening addr (VerifierRouter cfg repo pingDB) metrics" "jwt_lib_ok L (vl_parse lib)"
    and "ServeHTTP (NewVerifierRouter lib cfg repo pingDB) x w = (resp, w')" "\<not> routed x ''/healthz''" "\<not> routed x ''GET /demo''"
    and "resp \<noteq> writeUnauthorized" "rs_status resp \<notin> {301, 404, 405}"
  shows "\<exists>tok h c. bearerToken (in_req x) = Some tok \<and> jl_header L tok = Some h \<and> jh_alg h = ''RS256'' \<and> jl_claims L tok = Some c \<and>
    cl_Issuer c = env ''AUTH_JWT_ISSUER'' \<and> env ''AUTH_JWT_ISSUER'' \<noteq> [] \<and> env ''AUTH_JWT_AUDIENCE'' \<in> set (cl_Audience c) \<and>
    cl_Subject c \<noteq> []"
proof -
  obtain w1 ac where "admitted L (verifier_jwt lib cfg) (vl_with_timeout lib deadlineBudget (hr_ctx (in_req x))) (in_req x) w w1 ac"
    using verifier_cases [OF assms(2,3)] assms(4-7) by blast
  then show ?thesis
    using listening_verifier [OF assms(1)] by (fastforce simp: admitted_def token_accepted_def verifier_jwt_def)
qed

definition deployed_env :: environment where
  "deployed_env = (\<lambda>_. [])(''AUTH_JWT_ISSUER'' := ''iss'', ''AUTH_JWT_AUDIENCE'' := ''aud'', ''AUTH_JWKS_URL'' := ''https://i/jwks'',
     ''CONNECTOR_JWT_AUDIENCE'' := ''aud'')"

definition any_url :: url_parse where "any_url v = Some (''https'', v)"

lemma deployed_loads: "Load deployed_env (one_file ''/k'' ''k'') = Inr demo_config"
  by (simp add: Load_def resolveDSNFrom_def deployed_env_def resolveSigningKeyPath_def demo_config_def Let_def)

lemma deployed_listens: "main_api \<lparr>su_sqlOpen = demo_open, su_key_io = io, su_url = any_url\<rparr> deployed_env (one_file ''/k'' ''k'') =
    Listening '':8080'' (VerifierRouter demo_config None None) None"
proof -
  have "validateAuthConfig deployed_env any_url ''verifier'' = None"
    by (simp add: validateAuthConfig_def RequiredAuthEnvVars_def check_env_None urlShapedEnvVars_def deployed_env_def
        absolute_url_def any_url_def)
  moreover have "cfg_AppMode demo_config = ''verifier''" "cfg_HTTPAddr demo_config = []" "cfg_DBDriver demo_config = []"
    by (simp_all add: demo_config_def)
  ultimately show ?thesis
    by (simp add: main_api_def deployed_loads open_ping_def sqlDriverNameFor_def dao_New_def registered_def Register_def)
qed

theorem deployed_verifier_witness:
  "\<exists>tok c. bearerToken bearer_request = Some tok \<and> jl_claims demo_world_lib tok = Some c \<and> cl_Issuer c = deployed_env ''AUTH_JWT_ISSUER''"
proof -
  let ?y = "ServeHTTP (NewVerifierRouter demo_verifier_lib demo_config None None) demo_incoming demo_start"
  have lib: "jwt_lib_ok demo_world_lib (vl_parse demo_verifier_lib)" by (simp add: demo_verifier_lib_def lib_parse_ok)
  have n: "\<not> routed demo_incoming ''/healthz''" "\<not> routed demo_incoming ''GET /demo''"
    by (simp_all add: routed_def applies_def handle_simps demo_incoming_def demo_search_route method_ok_def del: match_path.simps)
  have r: "fst ?y \<noteq> writeUnauthorized" "rs_status (fst ?y) \<notin> {301, 404, 405}"
    by (simp_all add: demo_serves WriteServiceUnavailable_def writeUnauthorized_def writeError_def json_response_def)
  have "in_req demo_incoming = bearer_request" by (simp add: demo_incoming_def)
  with deployed_verifier [OF deployed_listens lib prod.collapse [symmetric, of ?y] n r] show ?thesis by metis
qed

subsection \<open>The connector\<close>

lemma scope_unread:
  "NewAuthHandler d (r\<lparr>hr_auth := Some ac\<rparr>) = NewAuthHandler d (r\<lparr>hr_auth := Some (ac\<lparr>ac_Scope := sc\<rparr>)\<rparr>)"
  "NewIdentityHandler d (r\<lparr>hr_auth := Some ac\<rparr>) = NewIdentityHandler d (r\<lparr>hr_auth := Some (ac\<lparr>ac_Scope := sc\<rparr>)\<rparr>)"
proof -
  have c: "caller_sub (r\<lparr>hr_auth := Some ac\<rparr>) = ac_Sub ac" "caller_sub (r\<lparr>hr_auth := Some (ac\<lparr>ac_Scope := sc\<rparr>)\<rparr>) = ac_Sub ac"
    "connector_sourceIPFrom (r\<lparr>hr_auth := a\<rparr>) = connector_sourceIPFrom r" "request_doc (r\<lparr>hr_auth := a\<rparr>) = request_doc r"
    "hr_ctx (r\<lparr>hr_auth := a\<rparr>) = hr_ctx r" "hr_header (r\<lparr>hr_auth := a\<rparr>) = hr_header r" for a
    by (simp_all add: caller_sub_def connector_sourceIPFrom_def request_doc_def split: option.split)
  show "NewAuthHandler d (r\<lparr>hr_auth := Some ac\<rparr>) = NewAuthHandler d (r\<lparr>hr_auth := Some (ac\<lparr>ac_Scope := sc\<rparr>)\<rparr>)"
    unfolding NewAuthHandler_def auth_op_def gated_def c ..
  show "NewIdentityHandler d (r\<lparr>hr_auth := Some ac\<rparr>) = NewIdentityHandler d (r\<lparr>hr_auth := Some (ac\<lparr>ac_Scope := sc\<rparr>)\<rparr>)"
    by (rule ext) (unfold NewIdentityHandler_def identity_op_def gated_def c, rule refl)
qed

text \<open>A request behind the connector's guard, on the handler of its route.\<close>

definition connector_call :: "('v, 'w) connector_lib \<Rightarrow> 'v vendor_client \<Rightarrow> incoming \<Rightarrow> auth_context \<Rightarrow> ('v, 'w) connector_process \<Rightarrow>
    response \<times> ('v, 'w) connector_process \<Rightarrow> bool" where
  "connector_call lib vendor x ac p y \<longleftrightarrow>
     (\<exists>b. let r = (in_req (with_values b x))\<lparr>hr_ctx := cl_with_timeout lib deadlineBudget (hr_ctx (in_req x)), hr_auth := Some ac\<rparr>;
             deps = connector_deps_of (cl_hmac lib) vendor in
       (routed x ''POST /auth'' \<and> y = on_world (NewAuthHandler deps) r p) \<or>
       (routed x ''POST /identity'' \<and> y = on_world (NewIdentityHandler deps) r p))"

lemma connector_call_scope: "connector_call lib vendor x ac p y \<Longrightarrow> connector_call lib vendor x (ac\<lparr>ac_Scope := sc\<rparr>) p y"
  unfolding connector_call_def Let_def on_world_def scope_unread [where ac = ac and sc = sc] .

lemma connector_routes:
  "NewConnectorRouter lib cfg vendor =
    [handle ''/healthz'' (healthHandler (cl_commit lib) ''idp-connector''),
     handle ''POST /auth'' (protect (cl_with_timeout lib) (connector_jwt lib cfg) connector_log
       (on_world (NewAuthHandler (connector_deps_of (cl_hmac lib) vendor)))),
     handle ''POST /identity'' (protect (cl_with_timeout lib) (connector_jwt lib cfg) connector_log
       (on_world (NewIdentityHandler (connector_deps_of (cl_hmac lib) vendor))))]"
  by (simp add: NewConnectorRouter_def Let_def)

text \<open>
  C24. The connector's two handlers run only for a token accepted for the connector's own audience. But the token's scope
  plays no part: the answer and the effects are the same for every recognised scope, so a \<open>profile:search\<close> token
  with that audience reaches the vendor as well as a \<open>connector:identity-lookup\<close> one, which the comments require.
\<close>
theorem connector_guarded:
  assumes "jwt_lib_ok L (cl_parse lib)" "ServeHTTP (NewConnectorRouter lib cfg vendor) x p = (resp, p')"
  shows "(p' = p \<and> (routed x ''/healthz'' \<or> rs_status resp \<in> {301, 404, 405})) \<or>
    (\<exists>err p1. resp = writeUnauthorized \<and> p' = logAuthnFailure (Some connector_log) err p1) \<or>
    (\<exists>p1 ac. admitted L (connector_jwt lib cfg) (cl_with_timeout lib deadlineBudget (hr_ctx (in_req x))) (in_req x) p p1 ac \<and>
       (\<exists>tok c. bearerToken (in_req x) = Some tok \<and> jl_claims L tok = Some c \<and> cfg_ConnectorJWTAudience cfg \<in> set (cl_Audience c) \<and>
          cl_Subject c = ac_Sub ac) \<and>
       (\<forall>sc. connector_call lib vendor x (ac\<lparr>ac_Scope := sc\<rparr>) p1 (resp, p')))"
proof -
  let ?v = "connector_jwt lib cfg" and ?deps = "connector_deps_of (cl_hmac lib) vendor"
  have lib: "jwt_lib_ok L (jv_parse ?v)" using assms(1) by (simp add: connector_jwt_def)
  from ServeHTTP_cases [OF assms(2)] consider (refused) "p' = p" "rs_status resp \<in> {301, 404, 405}"
    | (health) "routed x ''/healthz''" "p' = p"
    | (guarded) h b where "protect (cl_with_timeout lib) ?v connector_log (on_world h) (with_values b x) p = (resp, p')"
        "routed x ''POST /auth'' \<and> h = NewAuthHandler ?deps \<or> routed x ''POST /identity'' \<and> h = NewIdentityHandler ?deps"
    unfolding connector_routes by (auto simp: routed_simps) (auto simp: handle_simps healthHandler_def)
  then show ?thesis
  proof cases
    case guarded
    from protect_cases [OF lib guarded(1)] show ?thesis
    proof (elim disjE exE conjE)
      fix p1 ac
      assume a: "admitted L ?v (cl_with_timeout lib deadlineBudget (hr_ctx (in_req x))) (in_req x) p p1 ac"
        and h: "on_world h ((in_req (with_values b x))\<lparr>hr_ctx := cl_with_timeout lib deadlineBudget (hr_ctx (in_req x)), hr_auth := Some ac\<rparr>) p1 = (resp, p')"
      have "connector_call lib vendor x ac p1 (resp, p')"
        using guarded(2) h by (auto simp: connector_call_def Let_def intro!: exI [of _ b])
      moreover have "\<exists>tok c. bearerToken (in_req x) = Some tok \<and> jl_claims L tok = Some c \<and>
          cfg_ConnectorJWTAudience cfg \<in> set (cl_Audience c) \<and> cl_Subject c = ac_Sub ac"
        using a by (fastforce simp: admitted_def token_accepted_def connector_jwt_def)
      ultimately show ?thesis using a connector_call_scope by blast
    qed blast
  qed auto
qed

text \<open>The stub vendor behind the connector, and a caller whose token is for \<open>profile:search\<close>.\<close>

definition demo_connector_lib :: "(stub_vendor, time) connector_lib" where
  "demo_connector_lib = \<lparr>cl_with_timeout = (\<lambda>_ cx. cx),
     cl_parse = lib_parse \<lparr>jl_header = jl_header demo_lib, jl_claims = jl_claims demo_lib, jl_verifies = jl_verifies demo_lib, jl_now = cp_rest\<rparr>,
     cl_jwks = demo_env, cl_hmac = id, cl_commit = ''abc''\<rparr>"

definition demo_vendor :: "stub_vendor vendor_client" where
  "demo_vendor = StubVendorClient (\<lambda>_ n. Inr (replicate n CHR 0x2A))"

definition demo_process_start :: "(stub_vendor, time) connector_process" where
  "demo_process_start = \<lparr>cp_world = stub_world, cp_keys = demo_cache, cp_rest = 100 * second\<rparr>"

definition login_request :: request where
  "login_request = bearer_request\<lparr>hr_body := Some (Doc (JObj [(''username'', JStr ''demo-user''), (''password'', JStr ''demo-password'')]))\<rparr>"

definition demo_login :: incoming where
  "demo_login = \<lparr>in_method = ''POST'', in_path = ''/auth'', in_req = login_request,
     in_form = \<lparr>tq_form = Inl Canceled, tq_basic = None, tq_remote = []\<rparr>\<rparr>"

lemma login_decodes: "decode_struct False auth_body_fields ([], []) (request_doc (login_request\<lparr>hr_path := f, hr_ctx := cx, hr_auth := a\<rparr>)) =
    Some (''demo-user'', ''demo-password'')"
  by (simp add: login_request_def request_doc_def decode_struct_def find_field_def auth_body_fields_def dec_str_def)

lemma stub_login: "rs_status (fst (NewAuthHandler (connector_deps_of id demo_vendor)
    (login_request\<lparr>hr_path := f, hr_ctx := cx, hr_auth := a\<rparr>) stub_world)) = 200"
proof -
  have l: "fst (gl_allow 100 c ip (cw_limiter stub_world))" for c ip
    by (simp add: gl_allow_def gl_sweep_def gl_sweepMap_def sweep_map_def isBlocked_def stub_world_def connector_start_def
        NewInProcessGrantLimiter_def Let_def)
  have i: "fst (il_allow_key 100 100 k NewIdentityRateLimiter)" for k
    by (simp add: il_allow_key_def trackOrCheck_def il_sweep_def NewIdentityRateLimiter_def NewInProcessGrantLimiter_def Let_def
        gl_allow_def gl_sweep_def gl_sweepMap_def sweep_map_def isBlocked_def maxTrackedIdentities_def sweep_alist_def case_prod_beta)
  have w: "cw_now stub_world = 100" "cw_identity stub_world = NewIdentityRateLimiter"
      "sv_credentials (cw_vendor stub_world) ''demo-user'' = Some ''demo-password''"
    by (simp_all add: stub_world_def connector_start_def Seed_def)
  let ?g = "gated (connector_deps_of id demo_vendor) (login_request\<lparr>hr_path := f, hr_ctx := cx, hr_auth := a\<rparr>) auth_body_fields (\<lambda>(u, _). [u]) stub_world"
  have g: "fst ?g = Inr (''demo-user'', ''demo-password'')" "cw_vendor (snd ?g) = cw_vendor stub_world"
    using l i by (simp_all add: gated_def bindS_def or_write_def map_errS_def connector_grants_def connector_gate_def
      identityGateAllow_def il_allow_def w login_decodes case_prod_beta)
  have v: "\<exists>t s'. vc_Authenticate (cd_Vendor (connector_deps_of id demo_vendor)) cx ''demo-user'' ''demo-password'' s = (Inr t, s')"
    if "cw_vendor s = cw_vendor stub_world" for s :: "stub_vendor connector_world" and cx
    using that w(3) by (simp add: connector_deps_of_def on_vendor_def demo_vendor_def StubVendorClient_def stub_Authenticate_def
        bindS_def randomToken_def Let_def split: prod.split)
  obtain t s' where "vc_Authenticate (cd_Vendor (connector_deps_of id demo_vendor))
      (hr_ctx (login_request\<lparr>hr_path := f, hr_ctx := cx, hr_auth := a\<rparr>)) ''demo-user'' ''demo-password'' (snd ?g) = (Inr t, s')"
    using v [OF g(2)] by blast
  then show ?thesis
    using g(1) by (cases ?g) (simp add: NewAuthHandler_def run_handler_def auth_op_def bindS_def catchS_def execS_def retS_def json_response_def)
qed

theorem connector_guarded_witness:
  "\<exists>p1 ac. ac_Scope ac = ScopeSearch \<and> (\<forall>sc. connector_call demo_connector_lib demo_vendor demo_login (ac\<lparr>ac_Scope := sc\<rparr>) p1
      (ServeHTTP (NewConnectorRouter demo_connector_lib demo_config demo_vendor) demo_login demo_process_start)) \<and>
    rs_status (fst (ServeHTTP (NewConnectorRouter demo_connector_lib demo_config demo_vendor) demo_login demo_process_start)) = 200"
proof -
  let ?y = "ServeHTTP (NewConnectorRouter demo_connector_lib demo_config demo_vendor) demo_login demo_process_start"
  let ?L = "\<lparr>jl_header = jl_header demo_lib, jl_claims = jl_claims demo_lib, jl_verifies = jl_verifies demo_lib, jl_now = cp_rest\<rparr>
    :: (stub_vendor, time) connector_process jwt_lib"
  let ?v = "connector_jwt demo_connector_lib demo_config"
  have v: "?v = \<lparr>jv_parse = lib_parse ?L, jv_keys = connector_keys demo_env, jv_issuer = ''iss'', jv_audience = ''aud''\<rparr>"
    by (simp add: connector_jwt_def demo_connector_lib_def demo_config_def)
  have lib: "jwt_lib_ok ?L (cl_parse demo_connector_lib)" by (simp add: demo_connector_lib_def lib_parse_ok)
  have "\<exists>s1. connector_keys demo_env None ''k1'' demo_process_start = (Inr \<lparr>pk_N = 1, pk_E = 3\<rparr>, s1) \<and>
      cp_rest s1 = 100 * second \<and> cp_world s1 = stub_world"
    by (simp add: connector_keys_def demo_process_start_def demo_run)
  then obtain s1 where k: "connector_keys demo_env None ''k1'' demo_process_start = (Inr \<lparr>pk_N = 1, pk_E = 3\<rparr>, s1)"
      "cp_rest s1 = 100 * second" "cp_world s1 = stub_world" by blast
  have ver: "jwt_verify ?v None ''good'' demo_process_start = (Inr \<lparr>ac_Sub = ''qa'', ac_Scope = ScopeSearch\<rparr>, s1)"
    unfolding v by (rule good_token) (simp_all add: k second_def)
  have tok: "bearerToken (login_request\<lparr>hr_path := f, hr_ctx := None\<rparr>) = Some ''good''" for f
    using bearer_good by (simp add: bearerToken_def login_request_def)
  have req: "hr_ctx login_request = None" "in_req demo_login = login_request"
    by (simp_all add: login_request_def bearer_request_def demo_login_def)
  have m: "match_path [Lit ''auth''] ''/auth'' = Some []" "cleanPath ''/auth'' = ''/auth''"
      "match_path [Lit ''healthz''] ''/auth'' = None" by code_simp+
  have sel: "cl_with_timeout demo_connector_lib d cx = cx" "cl_hmac demo_connector_lib = id" for d cx
    by (simp_all add: demo_connector_lib_def)
  have y: "rs_status (fst ?y) = 200"
    using stub_login [where f = "\<lambda>_. []" and cx = None and a = "Some \<lparr>ac_Sub = ''qa'', ac_Scope = ScopeSearch\<rparr>"]
    by (simp add: ServeHTTP_def findHandler_def demo_login_def m connector_routes handle_simps method_ok_def req ver tok
        with_values_def protect_def NewDeadlineMiddleware_def NewJWTMiddleware_def sel on_world_def k(3)
        case_prod_beta del: match_path.simps)
  have n: "\<not> routed demo_login ''/healthz''"
    by (simp add: routed_def applies_def handle_simps demo_login_def m method_ok_def del: match_path.simps)
  have "fst ?y \<noteq> writeUnauthorized" using y by (auto simp: writeUnauthorized_def)
  with connector_guarded [OF lib prod.collapse [symmetric, of ?y]] n y
  obtain p1 ac where a: "admitted ?L ?v (cl_with_timeout demo_connector_lib deadlineBudget (hr_ctx (in_req demo_login))) (in_req demo_login)
      demo_process_start p1 ac" "\<forall>sc. connector_call demo_connector_lib demo_vendor demo_login (ac\<lparr>ac_Scope := sc\<rparr>) p1 ?y"
    by auto
  have "ac_Scope ac = ScopeSearch"
    using a(1) by (auto simp: admitted_def token_accepted_def demo_lib_def demo_claims_def demo_scope [unfolded singleScope_iff]
      split: if_splits)
  with a(2) y show ?thesis by blast
qed

subsection \<open>The issuer\<close>

lemma issuer_without_store:
  assumes "NewTokenHandler (issuer_deps lib None key iss dummy) r w = (resp, w')"
  shows "w' = w \<and> resp = server_error"
  using assms
  by (auto simp: NewTokenHandler_def run_handler_def token_op_def failS_def)

text \<open>
  C10. What the issuer serves: the key set to anyone, always the published one; tokens only on \<open>POST /auth/token\<close>, by the
  token handler over the configured store; nothing else has an effect. Without a database no token is issued and nothing
  changes.
\<close>
theorem issuer_surface:
  assumes "ServeHTTP (NewIssuerRouter commit lib faults dummy cfg key issuerDB) x w = (resp, w')"
  shows "(w' = w \<and> (resp = health_response commit ''api-service'' [] \<or> resp = NewJWKSHandler key \<or> rs_status resp \<in> {301, 404, 405})) \<or>
    (in_method x = ''POST'' \<and> routed x ''POST /auth/token'' \<and>
     (resp, w') = NewTokenHandler (issuer_deps lib (map_option faults issuerDB) key (cfg_AuthJWTIssuer cfg) dummy) (in_form x) w \<and>
     (issuerDB = None \<longrightarrow> w' = w \<and> resp = server_error))"
proof -
  have form: "in_form (with_values b x) = in_form x" for b by (simp add: with_values_def)
  from ServeHTTP_cases [OF assms] consider (other) "w' = w"
      "resp = health_response commit ''api-service'' [] \<or> resp = NewJWKSHandler key \<or> rs_status resp \<in> {301, 404, 405}"
    | (token) "routed x ''POST /auth/token''"
      "NewTokenHandler (issuer_deps lib (map_option faults issuerDB) key (cfg_AuthJWTIssuer cfg) dummy) (in_form x) w = (resp, w')"
    unfolding NewIssuerRouter_def by (auto simp: routed_simps) (auto simp: handle_simps healthHandler_def form)
  then show ?thesis
  proof cases
    case token
    have "in_method x = ''POST''"
      using token(1) by (auto simp: routed_def applies_def handle_simps method_ok_def)
    then show ?thesis using token issuer_without_store by (cases issuerDB) fastforce+
  qed blast
qed

definition get_token :: incoming where
  "get_token = demo_incoming\<lparr>in_method := ''GET'', in_path := ''/auth/token''\<rparr>"

theorem issuer_surface_witness:
  "\<forall>(lib :: unit issuer_lib) faults key w. snd (ServeHTTP (NewIssuerRouter ''abc'' lib (faults :: unit \<Rightarrow> nat \<Rightarrow> goerr option) ''d'' demo_config key None)
     get_token w) = w"
proof (intro allI)
  fix lib :: "unit issuer_lib" and faults :: "unit \<Rightarrow> nat \<Rightarrow> goerr option" and key :: "unit signing_key" and w :: issuer_world
  show "snd (ServeHTTP (NewIssuerRouter ''abc'' lib faults ''d'' demo_config key None) get_token w) = w"
    using issuer_surface [where commit = "''abc''" and lib = lib and faults = faults and dummy = "''d''" and cfg = demo_config
        and key = key and issuerDB = None and x = get_token and w = w, OF prod.collapse [symmetric]]
    by (auto simp: get_token_def)
qed

end
