(* ===== verification/VerifierAudit.thy ===== *)
theory VerifierAudit
  imports RoutersSpec
begin

section \<open>The audit log of the verifier\<close>

text \<open>
  The verifier as a process: a state it reaches by serving requests in any order while time passes and the network and the
  database change under it. The invariant ties its audit log to what it has answered: the success events are the profile
  answers, in order. First over any handler dependencies with a view \<open>au\<close> of the log, then over the router.
\<close>

subsection \<open>One handler call\<close>

definition successes :: "audit_event list \<Rightarrow> audit_event list" where
  "successes evs = filter (\<lambda>e. ae_Kind e = AuditSuccess) evs"

lemma successes_append [simp]: "successes (a @ b) = successes a @ successes b"
  by (simp add: successes_def)

lemma successes_one: "successes [e] = (if ae_Kind e = AuditSuccess then [e] else [])"
  by (simp add: successes_def)

text \<open>Only \<open>d_log\<close> writes the log.\<close>

definition logs_to :: "('s \<Rightarrow> audit_event list) \<Rightarrow> 's deps \<Rightarrow> bool" where
  "logs_to au d \<longleftrightarrow>
     (\<forall>e s. au (d_log d e s) = au s @ [e]) \<and>
     (\<forall>cx q s. au (snd (d_search d cx q s)) = au s) \<and> (\<forall>cx i s. au (snd (d_get d cx i s)) = au s) \<and>
     (\<forall>cx sub sc t s. au (snd (d_authorize d cx sub sc t s)) = au s) \<and>
     (\<forall>cx sub sc n s. au (snd (d_allow d cx sub sc n s)) = au s) \<and>
     (\<forall>cx sub n s. au (snd (ti_Reserve (d_touch d) cx sub n s)) = au s) \<and>
     (\<forall>cx sub ids n s. au (snd (ti_Settle (d_touch d) cx sub ids n s)) = au s)"

text \<open>What an answer discloses, and the event that records it.\<close>

definition discloses :: "response \<Rightarrow> audit_event \<Rightarrow> bool" where
  "discloses resp e \<longleftrightarrow> ae_Kind e = AuditSuccess \<and>
     ((\<exists>results n cursor. ae_RecordIDs e = map up_ID results \<and>
         rs_body resp = Json (search_response_json (map toSearchResult results) n cursor)) \<or>
      (\<exists>p. ae_RecordIDs e = [up_ID p] \<and> rs_body resp = Json (profile_response_json p)))"

lemma discloses_page: "ae_Kind e = AuditSuccess \<Longrightarrow> ae_RecordIDs e = map up_ID results \<Longrightarrow>
    discloses (json_response 200 (search_response_json (map toSearchResult results) n cursor)) e"
  unfolding discloses_def json_response_def by auto

lemma discloses_profile: "ae_Kind e = AuditSuccess \<Longrightarrow> ae_RecordIDs e = [up_ID p] \<Longrightarrow>
    discloses (json_response 200 (profile_response_json p)) e"
  unfolding discloses_def json_response_def by auto

definition logged :: "('s \<Rightarrow> audit_event list) \<Rightarrow> audit_event list \<Rightarrow> 's \<Rightarrow> bool" where
  "logged au A s \<longleftrightarrow> successes (au s) = A"

definition logged_one :: "('s \<Rightarrow> audit_event list) \<Rightarrow> audit_event list \<Rightarrow> string \<Rightarrow> response \<Rightarrow> 's \<Rightarrow> bool" where
  "logged_one au A sub resp s \<longleftrightarrow> (\<exists>e. successes (au s) = A @ [e] \<and> ae_Sub e = sub \<and> discloses resp e)"

lemma triple_quiet:
  assumes "\<And>s. au (snd (m s)) = au s"
  shows "triple (\<lambda>_. logged au A) (logged au A) m (\<lambda>_. logged au A)"
proof (rule tripleI)
  show "logged au A s'" if "logged au A s" "m s = (Inl e, s')" for s e s' using that assms [of s] by (simp add: logged_def)
  show "logged au A s'" if "logged au A s" "m s = (Inr x, s')" for s x s' using that assms [of s] by (simp add: logged_def)
qed

lemma logs_toD:
  assumes "logs_to au d"
  shows "au (d_log d e s) = au s @ [e]" "au (snd (d_search d cx q s)) = au s" "au (snd (d_get d cx i s)) = au s"
    "au (snd (d_authorize d cx sub sc t s)) = au s" "au (snd (d_allow d cx sub sc n s)) = au s"
    "au (snd (ti_Reserve (d_touch d) cx sub n s)) = au s" "au (snd (ti_Settle (d_touch d) cx sub ids n s)) = au s"
  using assms by (simp_all add: logs_to_def)

lemma logged_audit:
  assumes "logs_to au d"
  shows "kind \<noteq> AuditSuccess \<Longrightarrow> logged au A s \<Longrightarrow> logged au A (audit d sub sc kind ids rc s)"
    and "logged au A s \<Longrightarrow> (\<And>e. ae_Kind e = AuditSuccess \<Longrightarrow> ae_RecordIDs e = ids \<Longrightarrow> discloses resp e) \<Longrightarrow>
      logged_one au A sub resp (audit d sub sc AuditSuccess ids rc s)"
  by (simp_all add: audit_def logged_def logged_one_def logs_toD [OF assms] successes_one)

text \<open>The state of the body of a handler carries the reservation beside the log.\<close>

lemma triple_lift:
  assumes "\<And>s. au (snd (m s)) = au s"
  shows "triple (\<lambda>_. logged (au \<circ> fst) A) (logged (au \<circ> fst) A) (lift_tr m) (\<lambda>_. logged (au \<circ> fst) A)"
  by (rule triple_quiet) (simp add: lift_tr_def assms split: prod.split, metis assms snd_conv)

lemma settle_quiet:
  assumes "logs_to au d"
  shows "(au \<circ> fst) (snd (tr_settle cx (d_touch d) ids st)) = (au \<circ> fst) st"
  using logs_toD(7) [OF assms] by (auto simp: tr_settle_def case_prod_beta Let_def split: option.split)

lemma triple_deferred:
  assumes "logs_to au d"
    and "triple (\<lambda>_. logged (au \<circ> fst) A) (logged (au \<circ> fst) A) body (\<lambda>resp. logged_one (au \<circ> fst) A sub resp)"
  shows "triple (\<lambda>_. logged au A) (logged au A) (deferred (d_touch d) tr body) (logged_one au A sub)"
proof -
  have rel: "au (tr_release (d_touch d) tr' s') = au s'" for tr' s'
    by (simp add: tr_release_def logs_toD [OF assms(1)] split: option.split)
  show ?thesis
  proof (rule tripleI)
    fix s e s'
    assume s: "logged au A s" "deferred (d_touch d) tr body s = (Inl e, s')"
    then obtain s1 tr1 where b: "body (s, tr) = (Inl e, (s1, tr1))" "s' = tr_release (d_touch d) tr1 s1"
      by (auto simp: deferred_def split: prod.splits)
    show "logged au A s'"
      using assms(2) [unfolded triple_def, rule_format, of "(s, tr)"] s(1) b by (simp add: logged_def rel)
  next
    fix s x s'
    assume s: "logged au A s" "deferred (d_touch d) tr body s = (Inr x, s')"
    then obtain s1 tr1 where b: "body (s, tr) = (Inr x, (s1, tr1))" "s' = tr_release (d_touch d) tr1 s1"
      by (auto simp: deferred_def split: prod.splits)
    show "logged_one au A sub x s'"
      using assms(2) [unfolded triple_def, rule_format, of "(s, tr)"] s(1) b by (simp add: logged_def logged_one_def rel)
  qed
qed

lemma logged_fst: "logged (au \<circ> fst) A st = logged au A (fst st)" "logged_one (au \<circ> fst) A sub r st = logged_one au A sub r (fst st)"
  by (simp_all add: logged_def logged_one_def)

lemma fst_apfst [simp]: "fst (apfst f st) = f (fst st)"
  by (cases st) simp

lemma search_body_logged:
  assumes "logs_to au d"
  shows "triple (\<lambda>_. logged (au \<circ> fst) A) (logged (au \<circ> fst) A) (search_body d cx ac q off) (\<lambda>resp. logged_one (au \<circ> fst) A (ac_Sub ac) resp)"
proof -
  note log = logs_toD [OF assms]
  let ?E = "\<lambda>_ :: response. logged (au \<circ> fst) A"
  have auth: "triple ?E (logged (au \<circ> fst) A) (or_write f (lift_tr (d_authorize d cx a b c))) (\<lambda>_. logged (au \<circ> fst) A)" for f a b c
    by (rule triple_or_write) (rule triple_lift, rule log(4))
  have call: "triple (\<lambda>_. logged (au \<circ> fst) A) (logged (au \<circ> fst) A) (lift_tr (d_search d cx q)) (\<lambda>_. logged (au \<circ> fst) A)"
    by (rule triple_lift) (rule log(2))
  have settle: "triple ?E (logged (au \<circ> fst) A) (or_write f (tr_settle cx (d_touch d) ids)) (\<lambda>_. logged (au \<circ> fst) A)" for f ids
    by (rule triple_or_write) (rule triple_quiet, rule settle_quiet [OF assms])
  show ?thesis
    unfolding search_body_def Let_def
    by (intro triple_bindS [OF auth] triple_if triple_denyS triple_catchS [OF call] triple_prod triple_bindS [OF settle]
        triple_bindS [OF triple_execS] triple_retS)
      (auto simp: logged_fst intro!: logged_audit [OF assms] discloses_page)
qed

lemma get_body_logged:
  assumes "logs_to au d"
  shows "triple (\<lambda>_. logged (au \<circ> fst) A) (logged (au \<circ> fst) A) (get_body d cx ac i rc) (\<lambda>resp. logged_one (au \<circ> fst) A (ac_Sub ac) resp)"
proof -
  note log = logs_toD [OF assms]
  let ?E = "\<lambda>_ :: response. logged (au \<circ> fst) A"
  have auth: "triple ?E (logged (au \<circ> fst) A) (or_write f (lift_tr (d_authorize d cx a b c))) (\<lambda>_. logged (au \<circ> fst) A)" for f a b c
    by (rule triple_or_write) (rule triple_lift, rule log(4))
  have call: "triple (\<lambda>_. logged (au \<circ> fst) A) (logged (au \<circ> fst) A) (lift_tr (d_get d cx i)) (\<lambda>_. logged (au \<circ> fst) A)"
    by (rule triple_lift) (rule log(3))
  have settle: "triple ?E (logged (au \<circ> fst) A) (or_write f (tr_settle cx (d_touch d) ids)) (\<lambda>_. logged (au \<circ> fst) A)" for f ids
    by (rule triple_or_write) (rule triple_quiet, rule settle_quiet [OF assms])
  show ?thesis
    unfolding get_body_def Let_def
    by (intro triple_bindS [OF auth] triple_if triple_denyS triple_catchS [OF call] triple_bindS [OF settle]
        triple_bindS [OF triple_execS] triple_retS)
      (auto simp: logged_fst intro!: logged_audit [OF assms] discloses_profile)
qed

lemma reserve_quiet:
  assumes "logs_to au d"
  shows "au (snd (reserveTouches cx (d_touch d) sub n s)) = au s"
  using logs_toD(6) [OF assms, of cx sub n s]
  by (auto simp: reserveTouches_def bindS_def retS_def split: prod.splits sum.splits)

lemma search_logged:
  assumes "logs_to au d" "hr_auth r = Some ac"
  shows "triple (\<lambda>_. logged au A) (logged au A) (search_op d r) (\<lambda>resp. logged_one au A (ac_Sub ac) resp)"
proof -
  let ?E = "\<lambda>_ :: response. logged au A"
  have parse: "triple ?E (logged au A) (liftS (parse_search r)) (\<lambda>_. logged au A)"
    by (rule triple_quiet) (simp add: liftS_def)
  have allow: "triple ?E (logged au A) (or_write f (d_allow d cx a b c)) (\<lambda>_. logged au A)" for f cx a b c
    by (rule triple_or_write) (rule triple_quiet, rule logs_toD(5) [OF assms(1)])
  have reserve: "triple ?E (logged au A) (or_write f (reserveTouches cx (d_touch d) a n)) (\<lambda>_. logged au A)" for f cx a n
    by (rule triple_or_write) (rule triple_quiet, rule reserve_quiet [OF assms(1)])
  show ?thesis
    unfolding search_op_def Let_def assms(2) option.case
    by (intro triple_if triple_denyS triple_bindS [OF parse] triple_prod triple_bindS [OF allow] triple_bindS [OF reserve]
        triple_deferred [OF assms(1) search_body_logged [OF assms(1)]])
      (auto intro!: logged_audit(1) [OF assms(1)])
qed

lemma get_logged:
  assumes "logs_to au d" "hr_auth r = Some ac"
  shows "triple (\<lambda>_. logged au A) (logged au A) (get_profile_op d r) (\<lambda>resp. logged_one au A (ac_Sub ac) resp)"
proof -
  let ?E = "\<lambda>_ :: response. logged au A"
  have allow: "triple ?E (logged au A) (or_write f (d_allow d cx a b c)) (\<lambda>_. logged au A)" for f cx a b c
    by (rule triple_or_write) (rule triple_quiet, rule logs_toD(5) [OF assms(1)])
  have reserve: "triple ?E (logged au A) (if b then or_write f (reserveTouches cx (d_touch d) a n) else retS (None, True)) (\<lambda>_. logged au A)"
    for b f cx a n
    by (intro triple_if triple_retS triple_or_write triple_quiet reserve_quiet [OF assms(1)])
  show ?thesis
    unfolding get_profile_op_def Let_def assms(2) option.case
    by (intro triple_if triple_denyS triple_failS triple_bindS [OF allow] triple_bindS [OF reserve] triple_prod
        triple_deferred [OF assms(1) get_body_logged [OF assms(1)]])
      (auto intro!: logged_audit(1) [OF assms(1)])
qed

text \<open>A handler that refuses logs no success; one that answers 200 logs one, of the caller, for what it discloses.\<close>

lemma handler_logged:
  assumes "triple (\<lambda>_. logged au A) (logged au A) m (\<lambda>resp. logged_one au A sub resp)" "exits refusal m"
    and "\<And>s resp s'. m s = (Inr resp, s') \<Longrightarrow> rs_status resp = 200"
    and "run_handler m s = (resp, s')" "successes (au s) = A"
  shows "if rs_status resp = 200 then logged_one au A sub resp s' else successes (au s') = A"
proof (cases "m s")
  case (Pair y t)
  note t = assms(1) [unfolded triple_def, rule_format, of s]
  show ?thesis
  proof (cases y)
    case (Inl e)
    then have "m s = (Inl resp, s')" using Pair assms(4) by (simp add: run_handler_def)
    moreover from this have "rs_status resp \<noteq> 200" using run_handler_200 [OF assms(2,4)] by auto
    ultimately show ?thesis using t assms(5) by (simp add: logged_def)
  next
    case (Inr x)
    then have "m s = (Inr resp, s')" using Pair assms(4) by (simp add: run_handler_def)
    then show ?thesis using t assms(3,5) by (auto simp: logged_def)
  qed
qed

lemma search_op_status: "search_op d r s = (Inr resp, s') \<Longrightarrow> rs_status resp = 200"
  by (erule search_op_200, drule search_body_200) (auto simp: json_response_def)

lemma get_op_status: "get_profile_op d r s = (Inr resp, s') \<Longrightarrow> rs_status resp = 200"
proof (erule get_op_200)
  fix ac rc s1 s2 st tr
  assume c: "if ac_Scope ac = ScopeReadAny
      then ti_Reserve (d_touch d) (hr_ctx r) (ac_Sub ac) 1 s1 = (Inr True, s2)
        \<and> tr = Some \<lparr>tr_sub = ac_Sub ac, tr_reserved = 1, tr_done = False\<rparr>
      else s2 = s1 \<and> tr = None"
    and b: "get_body d (hr_ctx r) ac (hr_path r ''id'') rc (s2, tr) = (Inr resp, st)"
  have "tr = None \<or> tr = Some \<lparr>tr_sub = ac_Sub ac, tr_reserved = 1, tr_done = False\<rparr>" using c by (auto split: if_splits)
  from get_body_200 [OF b this] show "rs_status resp = 200" by (auto simp: json_response_def)
qed

subsection \<open>One request to the router\<close>

text \<open>
  The libraries behind the verifier: parsing a token calls at most the key function, and neither the repository nor the
  ping writes the log.
\<close>

definition quiet_lib :: "('d, 'w) verifier_lib \<Rightarrow> bool" where
  "quiet_lib lib \<longleftrightarrow>
     (\<forall>algs iss kf tok s. snd (vl_parse lib algs iss kf tok s) = s \<or> (\<exists>h. snd (vl_parse lib algs iss kf tok s) = snd (kf h s))) \<and>
     (\<forall>d cx s. aw_audit (snd (vl_ping lib d cx s)) = aw_audit s) \<and>
     (\<forall>d cx q s. aw_audit (snd (vl_search lib d cx q s)) = aw_audit s) \<and>
     (\<forall>d cx i s. aw_audit (snd (vl_get lib d cx i s)) = aw_audit s)"

lemma keys_quiet: "aw_audit (snd (verifier_keys e cx kid w)) = aw_audit w"
  by (simp add: verifier_keys_def split: prod.split)

lemma keyfunc_quiet: "aw_audit (snd (kid_keyfunc (verifier_keys e) cx h w)) = aw_audit w"
  by (simp add: kid_keyfunc_def failS_def keys_quiet split: option.split)

lemma verify_quiet:
  assumes "quiet_lib lib"
  shows "aw_audit (snd (jwt_verify (verifier_jwt lib cfg) cx tok w)) = aw_audit w"
proof -
  let ?v = "verifier_jwt lib cfg"
  obtain y s1 where p: "jv_parse ?v [jwtAlgorithm] (jv_issuer ?v) (kid_keyfunc (jv_keys ?v) cx) tok w = (y, s1)" by fastforce
  have "s1 = w \<or> (\<exists>h. s1 = snd (kid_keyfunc (jv_keys ?v) cx h w))"
    using assms p unfolding quiet_lib_def verifier_jwt_def by (metis (no_types, lifting) jwt_verifier.select_convs(1) snd_conv)
  then have s1: "aw_audit s1 = aw_audit w" using keyfunc_quiet by (auto simp: verifier_jwt_def)
  have "snd (jwt_verify ?v cx tok w) = s1"
    using p by (auto simp: jwt_verify_def bindS_def failS_def retS_def liftS_def split: sum.split prod.split)
  with s1 show ?thesis by simp
qed

lemma in_process_logs: "quiet_lib lib \<Longrightarrow> logs_to aw_audit (in_process_deps (vl_search lib d) (vl_get lib d) m)"
  by (simp add: logs_to_def quiet_lib_def in_process_deps_def in_process_touch_def retS_def Let_def split: prod.split)

text \<open>A profile route answered 200.\<close>

definition disclosed :: "incoming \<Rightarrow> response \<Rightarrow> bool" where
  "disclosed x resp \<longleftrightarrow> (routed x ''POST /profiles/search'' \<or> routed x ''GET /profiles/{id}'') \<and> rs_status resp = 200"

text \<open>The event names the subject of the request's token.\<close>

definition accounts :: "'s jwt_lib \<Rightarrow> incoming \<Rightarrow> response \<Rightarrow> audit_event \<Rightarrow> bool" where
  "accounts L x resp e \<longleftrightarrow> discloses resp e \<and>
     (\<exists>tok c. bearerToken (in_req x) = Some tok \<and> jl_claims L tok = Some c \<and> cl_Subject c = ae_Sub e)"

lemma public_not_profile:
  assumes "routed x ''/healthz'' \<or> routed x ''GET /demo''"
  shows "\<not> disclosed x resp"
proof -
  have apart: "match_path [Lit l] p = Some b \<Longrightarrow> match_path [Lit m, t] p = None" for l p b m t
    using match_overlap [of "[Lit l]" p b "[Lit m, t]"] by (cases "match_path [Lit m, t] p") (simp_all del: match_path.simps)
  show ?thesis using assms by (auto simp: disclosed_def routed_def applies_def handle_simps apart simp del: match_path.simps)
qed

lemma handlers_logged:
  assumes "quiet_lib lib" "repo = Some d" "hr_auth r = Some ac"
    and "(resp, w') = fst (verifier_handlers lib cfg repo) r w1 \<or> (resp, w') = snd (verifier_handlers lib cfg repo) r w1"
  shows "if rs_status resp = 200 then logged_one aw_audit (successes (aw_audit w1)) (ac_Sub ac) resp w'
    else successes (aw_audit w') = successes (aw_audit w1)"
proof -
  let ?d = "in_process_deps (vl_search lib d) (vl_get lib d) (stopgapReadOwnAllow cfg)"
  note l = in_process_logs [OF assms(1), of d "stopgapReadOwnAllow cfg"]
  from assms(2,4) consider "run_handler (search_op ?d r) w1 = (resp, w')" | "run_handler (get_profile_op ?d r) w1 = (resp, w')"
    by (auto simp: verifier_handlers_def Let_def search_handler_def get_profile_handler_def)
  then show ?thesis
  proof cases
    case 1
    show ?thesis by (rule handler_logged [OF search_logged [OF l assms(3)] exits_search search_op_status 1 refl])
  next
    case 2
    show ?thesis by (rule handler_logged [OF get_logged [OF l assms(3)] exits_get get_op_status 2 refl])
  qed
qed

lemma served_logged:
  assumes "jwt_lib_ok L (vl_parse lib)" "quiet_lib lib" "ServeHTTP (NewVerifierRouter lib cfg repo pingDB) x w = (resp, w')"
  shows "if disclosed x resp then \<exists>e. successes (aw_audit w') = successes (aw_audit w) @ [e] \<and> accounts L x resp e
    else successes (aw_audit w') = successes (aw_audit w)"
proof -
  let ?v = "verifier_jwt lib cfg" and ?cx = "vl_with_timeout lib deadlineBudget (hr_ctx (in_req x))"
  from verifier_cases [OF assms(1,3)] consider (public) "routed x ''/healthz'' \<or> routed x ''GET /demo''"
      "w' = w \<or> (\<exists>db cx. w' = snd (vl_ping lib db cx w))"
    | (refused) "w' = w" "rs_status resp \<in> {301, 404, 405}"
    | (unauthorized) err w1 where "resp = writeUnauthorized" "w' = logAuthnFailure (Some verifier_audit) err w1" "key_lookup ?v ?cx w w1"
    | (call) w1 ac where "admitted L ?v ?cx (in_req x) w w1 ac" "guarded_call lib cfg repo x ac w1 (resp, w')"
    by blast
  then show ?thesis
  proof cases
    case public
    then have "aw_audit w' = aw_audit w" using assms(2) by (auto simp: quiet_lib_def)
    then show ?thesis using public_not_profile [OF public(1)] by simp
  next
    case refused
    then show ?thesis by (auto simp: disclosed_def)
  next
    case unauthorized
    have "aw_audit w1 = aw_audit w" using unauthorized(3) verify_quiet [OF assms(2)] by (auto simp: key_lookup_def)
    moreover have "successes (aw_audit (logAuthnFailure (Some verifier_audit) err w1)) = successes (aw_audit w1)"
      by (auto simp: logAuthnFailure_def verifier_audit_def Let_def successes_one split: option.split)
    ultimately show ?thesis using unauthorized(1,2) by (simp add: disclosed_def writeUnauthorized_def)
  next
    case call
    obtain tok kid key c where a: "bearerToken (in_req x) = Some tok" "verifier_keys (vl_jwks lib) ?cx kid w = (Inr key, w1)"
        "jl_claims L tok = Some c" "ac_Sub ac = cl_Subject c"
      using call(1) by (auto simp: admitted_def token_accepted_def verifier_jwt_def)
    have w1: "aw_audit w1 = aw_audit w" using keys_quiet [of "vl_jwks lib" ?cx kid w] a(2) by simp
    obtain b where r: "routed x ''POST /profiles/search'' \<or> routed x ''GET /profiles/{id}''"
      and h: "(resp, w') = fst (verifier_handlers lib cfg repo) ((in_req (with_values b x))\<lparr>hr_ctx := ?cx, hr_auth := Some ac\<rparr>) w1 \<or>
        (resp, w') = snd (verifier_handlers lib cfg repo) ((in_req (with_values b x))\<lparr>hr_ctx := ?cx, hr_auth := Some ac\<rparr>) w1"
      using call(2) unfolding guarded_call_def Let_def by blast
    show ?thesis
    proof (cases repo)
      case None
      then have "resp = WriteServiceUnavailable" "w' = w1" using h by (auto simp: verifier_handlers_def)
      then show ?thesis using w1 by (simp add: disclosed_def WriteServiceUnavailable_def)
    next
      case (Some d)
      from handlers_logged [OF assms(2) this _ h, of ac] r a w1 show ?thesis
        by (auto simp: disclosed_def logged_one_def accounts_def split: if_splits)
    qed
  qed
qed

subsection \<open>The process\<close>

text \<open>\<open>verifier_run ... served w\<close>: started and after answering \<open>served\<close>, in that order, the process is in state \<open>w\<close>.\<close>

inductive verifier_run :: "('d, 'w) verifier_lib \<Rightarrow> config \<Rightarrow> 'd repository option \<Rightarrow> 'd option \<Rightarrow>
    (incoming \<times> response) list \<Rightarrow> 'w verifier_world \<Rightarrow> bool" for lib cfg repo pingDB where
  start: "verifier_run lib cfg repo pingDB [] (verifier_start cfg now r)"
| serve: "verifier_run lib cfg repo pingDB served w \<Longrightarrow> ServeHTTP (NewVerifierRouter lib cfg repo pingDB) x w = (resp, w') \<Longrightarrow>
    verifier_run lib cfg repo pingDB (served @ [(x, resp)]) w'"
| time_passes: "verifier_run lib cfg repo pingDB served w \<Longrightarrow> aw_clock w \<le> t \<Longrightarrow>
    verifier_run lib cfg repo pingDB served (w\<lparr>aw_clock := t\<rparr>)"
| world_changes: "verifier_run lib cfg repo pingDB served w \<Longrightarrow> verifier_run lib cfg repo pingDB served (w\<lparr>vw_rest := r\<rparr>)"

text \<open>
  C4. The audit log is complete and truthful: in every state the verifier reaches, the success events of its log are
  exactly the profile answers it has given, in the same order, each naming the ids of the profiles in the answer and the
  subject of the token it was given for.
\<close>
theorem audit_log_complete:
  assumes "jwt_lib_ok L (vl_parse lib)" "quiet_lib lib" "verifier_run lib cfg repo pingDB served w"
  shows "list_all2 (\<lambda>(x, resp) e. accounts L x resp e)
    (filter (\<lambda>(x, resp). disclosed x resp) served) (successes (aw_audit w))"
  using assms(3)
proof induction
  case (start now r)
  show ?case by (simp add: verifier_start_def successes_def)
next
  case (serve served w x resp w')
  from served_logged [OF assms(1,2) serve.hyps(2)] serve.IH show ?case
    by (auto split: if_splits intro: list_all2_appendI)
qed simp_all

text \<open>A verifier answers its first search, with one profile.\<close>

definition demo_served_config :: config where
  "demo_served_config = demo_config\<lparr>cfg_AuthJWKSURL := ''http://issuer/jwks''\<rparr>"

lemma demo_quiet: "quiet_lib demo_verifier_lib"
  by (auto simp: quiet_lib_def demo_verifier_lib_def lib_parse_def retS_def split: option.splits prod.splits sum.splits if_splits)
    (metis snd_conv)+

lemma demo_page:
  assumes "hr_auth r = Some \<lparr>ac_Sub = ''qa'', ac_Scope = ScopeSearch\<rparr>" "parse_search r = parse_search (example_request ScopeSearch)"
    and "aw_clock w = 7" "aw_rate w = NewInProcessRateLimiter" "aw_touch w = NewInProcessTouchCounter TouchCapPerWindow TouchCapWindow"
  shows "rs_status (fst (search_handler (in_process_deps (\<lambda>_ _. retS ([example_profile], 1)) g m) r w)) = 200"
proof -
  obtain c where c: "Reserve 7 ''qa'' 5 (NewInProcessTouchCounter TouchCapPerWindow TouchCapWindow) = (True, c)"
    using fresh_limits(2) by blast
  have sc: "ScopeSearch \<noteq> ScopeReadOwn" by (simp add: scope_defs)
  show ?thesis
    using sc
    by (simp add: search_handler_def search_op_def Let_def assms example_parse fresh_limits(1) bindS_def or_write_def map_errS_def reserveTouches_def
      deferred_def search_body_def lift_tr_def catchS_def tr_settle_def run_handler_def json_response_def
      in_process_deps_def in_process_touch_def c StopgapAuthorizer_Authorize_def searchRateLimit_def)
qed

lemma demo_answered: "rs_status (fst (ServeHTTP (NewVerifierRouter demo_verifier_lib demo_served_config (Some (SqliteRepo 0)) None) demo_incoming
    (verifier_start demo_served_config 7 (100 * second)))) = 200"
proof -
  let ?v = "verifier_jwt demo_verifier_lib demo_served_config" and ?s = "verifier_start demo_served_config 7 (100 * second)"
  let ?key = "\<lparr>pk_N = 1, pk_E = 3\<rparr>"
  have v: "?v = \<lparr>jv_parse = lib_parse demo_world_lib, jv_keys = verifier_keys demo_env, jv_issuer = ''iss'', jv_audience = ''aud''\<rparr>"
    by (simp add: verifier_jwt_def demo_verifier_lib_def demo_served_config_def demo_config_def)
  have c: "NewJWKSCache ''http://issuer/jwks'' jwksCacheTTL = demo_cache"
    by (simp add: jwksCacheTTL_def demo_cache_def)
  have "\<exists>s1. verifier_keys demo_env None ''k1'' ?s = (Inr ?key, s1) \<and> vw_rest s1 = 100 * second \<and> aw_clock s1 = 7 \<and>
      aw_rate s1 = NewInProcessRateLimiter \<and> aw_touch s1 = NewInProcessTouchCounter TouchCapPerWindow TouchCapWindow"
    by (simp add: verifier_keys_def verifier_start_def demo_served_config_def c demo_run)
  then obtain s1 where k: "verifier_keys demo_env None ''k1'' ?s = (Inr ?key, s1)" "vw_rest s1 = 100 * second" "aw_clock s1 = 7"
      "aw_rate s1 = NewInProcessRateLimiter" "aw_touch s1 = NewInProcessTouchCounter TouchCapPerWindow TouchCapWindow"
    by blast
  have "jwt_verify ?v None ''good'' ?s = (Inr \<lparr>ac_Sub = ''qa'', ac_Scope = ScopeSearch\<rparr>, s1)"
    unfolding v by (rule good_token) (use k(1) in \<open>simp_all add: demo_world_lib_def k(2) second_def\<close>)
  moreover have "bearerToken (bearer_request\<lparr>hr_path := f, hr_ctx := None\<rparr>) = Some ''good''" for f
    using bearer_good by (simp add: bearerToken_def)
  moreover have "hr_ctx bearer_request = None" by (simp add: bearer_request_def)
  moreover have "parse_search (bearer_request\<lparr>hr_path := f, hr_ctx := None, hr_auth := a\<rparr>) = parse_search (example_request ScopeSearch)" for f a
    by (simp add: parse_search_def bearer_request_def example_request_def)
  then have "rs_status (fst (search_handler (in_process_deps (\<lambda>_ _. retS ([example_profile], 1)) (\<lambda>_ _. retS example_profile) m)
      (bearer_request\<lparr>hr_path := f, hr_ctx := None, hr_auth := Some \<lparr>ac_Sub = ''qa'', ac_Scope = ScopeSearch\<rparr>\<rparr>) s1)) = 200" for m f
    by (intro demo_page) (simp_all add: k)
  ultimately show ?thesis
    by (simp add: ServeHTTP_def findHandler_def demo_incoming_def demo_search_route verifier_routes handle_simps method_ok_def
        with_values_def protect_def NewDeadlineMiddleware_def NewJWTMiddleware_def verifier_handlers_def demo_verifier_lib_def Let_def
        del: match_path.simps)
qed

theorem audit_log_complete_witness:
  "\<exists>resp e w. verifier_run demo_verifier_lib demo_served_config (Some (SqliteRepo 0)) None [(demo_incoming, resp)] w \<and> rs_status resp = 200 \<and>
     successes (aw_audit w) = [e] \<and> accounts demo_world_lib demo_incoming resp e"
proof -
  let ?s = "verifier_start demo_served_config 7 (100 * second)"
  obtain resp w where y: "ServeHTTP (NewVerifierRouter demo_verifier_lib demo_served_config (Some (SqliteRepo 0)) None) demo_incoming ?s = (resp, w)"
    by fastforce
  have ok: "rs_status resp = 200" using demo_answered y by simp
  have run: "verifier_run demo_verifier_lib demo_served_config (Some (SqliteRepo 0)) None [(demo_incoming, resp)] w"
    using verifier_run.serve [OF verifier_run.start y] by simp
  have "disclosed demo_incoming resp"
    using ok by (simp add: disclosed_def routed_def applies_def handle_simps demo_incoming_def demo_search_route method_ok_def del: match_path.simps)
  moreover have "jwt_lib_ok demo_world_lib (vl_parse demo_verifier_lib)" by (simp add: demo_verifier_lib_def lib_parse_ok)
  ultimately show ?thesis
    using audit_log_complete [OF _ demo_quiet run, of demo_world_lib] run ok by (auto simp: list_all2_Cons1)
qed

end
