(* ===== verification/HashTool.thy ===== *)
theory HashTool
  imports ClientStoreSpec
begin

section \<open>deploy/gen-argon2-hash.go: the bootstrap hash\<close>

text \<open>
  The runbook's command that prints the hash of a client's first secret. It repeats the cost profile and the PHC format
  of internal/api/clientstore.go instead of importing them; the theorem says that the two agree.
\<close>

definition gen_argon2Time :: int where "gen_argon2Time = 1"
definition gen_argon2Memory :: int where "gen_argon2Memory = 64 * 1024"
definition gen_argon2Threads :: int where "gen_argon2Threads = 4"
definition gen_argon2KeyLen :: nat where "gen_argon2KeyLen = 32"
definition gen_argon2SaltLen :: nat where "gen_argon2SaltLen = 16"

record command_result =
  cm_status :: int
  cm_stdout :: string
  cm_stderr :: string

definition newline :: string where "newline = [char_of (10 :: nat)]"

definition gen_main :: "'s crypto \<Rightarrow> string list \<Rightarrow> 's \<Rightarrow> command_result \<times> 's" where
  "gen_main cr args s =
     (if length args \<noteq> 2
      then (\<lparr>cm_status = 1, cm_stdout = [], cm_stderr = ''usage: go run deploy/gen-argon2-hash.go <secret>'' @ newline\<rparr>, s)
      else
        (let secret = args ! 1 in
         case cr_rand cr gen_argon2SaltLen s of
           (Inl err, s1) \<Rightarrow> (\<lparr>cm_status = 1, cm_stdout = [], cm_stderr = ''generating salt: '' @ err_msg err @ newline\<rparr>, s1)
         | (Inr salt, s1) \<Rightarrow>
             (case cr_IDKey cr secret salt (of_int gen_argon2Time) (of_int gen_argon2Memory) (of_int gen_argon2Threads)
                 (of_nat gen_argon2KeyLen) s1 of
                (hash, s2) \<Rightarrow>
                  (\<lparr>cm_status = 0,
                    cm_stdout = ''$argon2id$v='' @ itoa phcVersion @ ''$m='' @ itoa gen_argon2Memory @ '',t='' @ itoa gen_argon2Time @
                      '',p='' @ itoa gen_argon2Threads @ ''$'' @ b64_encode std_alphabet salt @ ''$'' @
                      b64_encode std_alphabet hash @ newline,
                    cm_stderr = []\<rparr>, s2))))"

lemmas gen_consts = gen_argon2Time_def gen_argon2Memory_def gen_argon2Threads_def gen_argon2KeyLen_def gen_argon2SaltLen_def

lemma gen_main_hashSecret:
  shows "hashSecret cr secret s = (Inl err, s1) \<Longrightarrow>
      \<exists>msg. gen_main cr [prog, secret] s = (\<lparr>cm_status = 1, cm_stdout = [], cm_stderr = msg\<rparr>, s1)"
    and "hashSecret cr secret s = (Inr h, s1) \<Longrightarrow>
      gen_main cr [prog, secret] s = (\<lparr>cm_status = 0, cm_stdout = h @ newline, cm_stderr = []\<rparr>, s1)"
  by (auto simp: gen_main_def hashSecret_def bindS_def map_errS_def encodePHC_def argon2_consts gen_consts
      split: prod.splits sum.splits)

text \<open>
  C9. The command and the service hash alike: from the same randomness the command prints exactly the string that
  \<open>hashSecret\<close> returns, fails exactly when it fails, and what it prints is a hash that the token endpoint accepts for that
  secret and does not ask to rehash.
\<close>
theorem bootstrap_hash_agrees:
  assumes "argon2_ok f cr" "gen_main cr [prog, secret] s = (out, s1)"
  shows "case hashSecret cr secret s of
      (Inl err, s') \<Rightarrow> cm_status out = 1 \<and> cm_stdout out = [] \<and> s1 = s'
    | (Inr h, s') \<Rightarrow> cm_status out = 0 \<and> cm_stdout out = h @ newline \<and> s1 = s' \<and>
        fst (verifySecret cr secret h s2) \<and> \<not> needsRehash h"
proof -
  obtain x s' where h: "hashSecret cr secret s = (x, s')" by fastforce
  show ?thesis
  proof (cases x)
    case (Inl err)
    then show ?thesis using assms(2) gen_main_hashSecret(1) [of cr secret s err s' prog] h by auto
  next
    case (Inr a)
    then show ?thesis
      using assms(2) gen_main_hashSecret(2) [of cr secret s a s' prog] h hashSecret_only [OF assms(1)] by auto
  qed
qed

theorem bootstrap_hash_agrees_witness:
  "\<exists>h. cm_stdout (fst (gen_main toy_crypto [''gen'', ''secret''] ())) = h @ newline \<and> fst (verifySecret toy_crypto ''secret'' h ())"
proof -
  obtain h where "hashSecret toy_crypto ''secret'' () = (Inr h, ())"
    by (simp add: hashSecret_def toy_crypto_def bindS_def map_errS_def)
  with bootstrap_hash_agrees [OF toy_argon2_ok prod.collapse [symmetric], of "''gen''" "''secret''" "()" "()"]
  show ?thesis by auto
qed

end
