(* ===== verification/PostgresSpec.thy ===== *)
theory PostgresSpec
  imports Postgres SqliteSpec Rely
begin

section \<open>What the PostgreSQL repository guarantees\<close>

text \<open>
  The retry policy, stated as a relation; the schema invariant under every write; all-or-nothing writes; the
  agreement of the two backends' sentinels; and two facts about what the error translation hides from the
  retry loop and from the handlers.
\<close>

subsection \<open>The retry loop\<close>

text \<open>\<open>retries i s j t\<close>: from the \<open>i\<close>-th attempt in state \<open>s\<close>, failed attempts with a serialization failure and completed
waits lead to the \<open>j\<close>-th attempt in state \<open>t\<close>.\<close>

inductive retries :: "(nat \<Rightarrow> ('s, goerr, unit) op) \<Rightarrow> ('s, goerr, 'a) op \<Rightarrow> nat \<Rightarrow> 's \<Rightarrow> nat \<Rightarrow> 's \<Rightarrow> bool"
  for sleep attempt where
  here: "retries sleep attempt i s i s"
| again: "attempt s = (Inl err, s1) \<Longrightarrow> isRetryable err \<Longrightarrow> sleep i s1 = (Inr u, s2) \<Longrightarrow>
     retries sleep attempt (Suc i) s2 j t \<Longrightarrow> retries sleep attempt i s j t"

text \<open>Why the loop stopped after the attempt that answered \<open>r\<close> and left \<open>t\<close>, with \<open>n\<close> the number of the last attempt
allowed.\<close>

definition stopped ::
  "engine \<Rightarrow> (nat \<Rightarrow> ('s, goerr, unit) op) \<Rightarrow> nat \<Rightarrow> nat \<Rightarrow> 's \<Rightarrow> goerr + 'a \<Rightarrow> 's \<Rightarrow> bool" where
  "stopped g sleep n k t r s' \<longleftrightarrow>
     (case r of
        Inr x \<Rightarrow> s' = t
      | Inl err \<Rightarrow> if g = engineCockroach \<and> isRetryable err \<and> k < n then \<exists>e. sleep k t = (Inl e, s') else s' = t)"

lemma retry_from_spec:
  "retry_from g sleep attempt i n s = (r, s') \<Longrightarrow>
   \<exists>k t t'. retries sleep attempt i s k t \<and> k \<le> i + n \<and> attempt t = (r, t') \<and> stopped g sleep (i + n) k t' r s'"
proof (induction n arbitrary: i s)
  case 0
  then have "retries sleep attempt i s i s \<and> i \<le> i + 0 \<and> attempt s = (r, s') \<and> stopped g sleep (i + 0) i s' r s'"
    by (auto intro: here simp: stopped_def split: sum.splits)
  then show ?case by blast
next
  case (Suc n)
  obtain a s1 where a: "attempt s = (a, s1)" by fastforce
  show ?case
  proof (cases "\<exists>err. a = Inl err \<and> g = engineCockroach \<and> isRetryable err")
    case False
    then have "r = a \<and> s' = s1" using Suc.prems a by (auto split: sum.splits if_splits)
    with False a have "retries sleep attempt i s i s \<and> i \<le> i + Suc n \<and> attempt s = (r, s1) \<and>
        stopped g sleep (i + Suc n) i s1 r s'"
      by (auto intro: here simp: stopped_def split: sum.splits)
    then show ?thesis by blast
  next
    case True
    then obtain err where e: "a = Inl err" "g = engineCockroach" "isRetryable err" by blast
    obtain b s2 where b: "sleep i s1 = (b, s2)" by fastforce
    show ?thesis
    proof (cases b)
      case (Inl x)
      then have "r = Inl err \<and> s' = s2" using Suc.prems a e b by simp
      then have "retries sleep attempt i s i s \<and> i \<le> i + Suc n \<and> attempt s = (r, s1) \<and>
          stopped g sleep (i + Suc n) i s1 r s'"
        using a e b Inl by (auto intro: here simp: stopped_def)
      then show ?thesis by blast
    next
      case (Inr u)
      then have "retry_from g sleep attempt (Suc i) n s2 = (r, s')" using Suc.prems a e b by simp
      from Suc.IH [OF this] obtain k t t' where h: "retries sleep attempt (Suc i) s2 k t" "k \<le> Suc i + n"
        "attempt t = (r, t')" "stopped g sleep (Suc i + n) k t' r s'"
        by blast
      have "retries sleep attempt i s k t" by (rule again [OF a [unfolded e(1)] e(3) b [unfolded Inr] h(1)])
      then show ?thesis using h(2-4) by (metis add_Suc_shift)
    qed
  qed
qed

text \<open>
  C14. The retry policy: the answer of a write is the answer of its last attempt; every earlier attempt failed with
  a serialization failure and was followed by a completed wait; there are at most five attempts on CockroachDB
  and exactly one on PostgreSQL; and a retryable failure is reported only after the fifth attempt or when the
  wait was cancelled.
\<close>
theorem retry_policy:
  "case retryLoop g sleep attempt s of (r, s') \<Rightarrow>
     \<exists>k t t'. retries sleep attempt 0 s k t \<and> k \<le> (if g = engineCockroach then 4 else 0) \<and> attempt t = (r, t') \<and>
       stopped g sleep 4 k t' r s'"
proof -
  obtain r s' where run: "retryLoop g sleep attempt s = (r, s')" by fastforce
  let ?n = "(if g = engineCockroach then maxRetries else 1) - 1"
  have n: "?n = (if g = engineCockroach then 4 else 0)" by (simp add: maxRetries_def)
  obtain k t t' where k: "retries sleep attempt 0 s k t" "k \<le> 0 + ?n" "attempt t = (r, t')"
    "stopped g sleep (0 + ?n) k t' r s'"
    using retry_from_spec [OF run [unfolded retryLoop_def]] by blast
  have "k \<le> (if g = engineCockroach then 4 else 0) \<and> stopped g sleep 4 k t' r s'"
    using k(2,4) unfolding n by (cases g) (auto simp: stopped_def split: sum.splits)
  then show ?thesis unfolding run prod.case using k(1,3) by blast
qed

lemma backoff_delay_bounds: "5 * millisecond \<le> backoff_delay r \<and> backoff_delay r < 20 * millisecond"
  by (simp add: backoff_delay_def backoffBase_def backoffJitter_def millisecond_def)

subsection \<open>Failed attempts leave no trace\<close>

interpretation same_db: rely "\<lambda>s t. st_db t = st_db s"
  by unfold_locales simp_all

lemma retries_db:
  assumes "retries sleep attempt i s j t"
    and "\<And>s err s'. attempt s = (Inl err, s') \<Longrightarrow> st_db s' = st_db s" "\<And>i. moves (\<lambda>s t. st_db t = st_db s) (sleep i)"
  shows "st_db t = st_db s"
  using assms(1)
proof induction
  case (again s err s1 i u s2 j t)
  then show ?case using assms(2) [OF again(1)] movesD [OF assms(3) again(3)] by simp
qed simp

lemma sleep_db: "moves (\<lambda>s t. st_db t = st_db s) (backoffSleep e i)"
  by (auto simp: moves_def backoffSleep_def exec_def select_stmt_def Let_def split: option.split)

lemma withRetry_cases:
  assumes "withRetry r fn s = (x, s')"
  obtains (error) err where "x = Inl err" "st_db s' = st_db s"
    | (ok) y s1 s2 where "x = Inr y" "st_db s1 = st_db s" "fn s1 = (Inr y, s2)" "st_db s' = st_db s2"
proof -
  let ?g = "rp_engine r" and ?e = "rp_env r"
  obtain k t t' n where rt: "retries (backoffSleep ?e) (runOnce ?e fn) 0 s k t" "runOnce ?e fn t = (x, t')"
    "stopped ?g (backoffSleep ?e) n k t' x s'"
    using retry_from_spec [OF assms [unfolded withRetry_def retryLoop_def]] by blast
  have fail: "st_db s' = st_db s" if "runOnce ?e fn s = (Inl err, s')" for s err s'
    using that unfolding runOnce_def by (rule in_tx_Inl)
  have t: "st_db t = st_db s" by (rule retries_db [OF rt(1) fail sleep_db])
  show thesis
  proof (cases x)
    case (Inl err)
    have "st_db t' = st_db s" using fail [OF rt(2) [unfolded Inl]] t by simp
    then have "st_db s' = st_db s" using rt(3) Inl movesD [OF sleep_db] by (auto simp: stopped_def split: if_splits)
    then show thesis by (rule error [OF Inl])
  next
    case (Inr y)
    obtain s1 s2 where "st_db s1 = st_db t" "fn s1 = (Inr y, s2)" "st_db t' = st_db s2"
      using rt(2) unfolding Inr runOnce_def by (rule in_tx_Inr)
    then show thesis using ok [OF Inr] t rt(3) Inr by (simp add: stopped_def)
  qed
qed

lemma db_keeps_retry [db_rules]:
  assumes "db_keeps P fn" shows "db_keeps P (withRetry r fn)"
proof (rule keepsI)
  fix s :: store assume P: "P (st_db s)"
  obtain x s' where run: "withRetry r fn s = (x, s')" by fastforce
  then show "P (st_db (snd (withRetry r fn s)))"
  proof (cases rule: withRetry_cases)
    case error
    then show ?thesis using P by (simp add: run)
  next
    case (ok y s1 s2)
    then show ?thesis using keepsD [OF assms, of s1] P by (simp add: run)
  qed
qed

lemma stmt_keeps_returning: "stmt_keeps P f \<Longrightarrow> stmt_keeps P (returning f g)"
  by (auto simp: stmt_keeps_def returning_def split: sum.splits option.splits)

lemma keeps_insert_deletions [wf_stmts]: "stmt_keeps (db_wf e) (insert_deletions e rows)"
proof (induction rows)
  case Nil
  then show ?case by (simp add: stmt_keeps_def)
next
  case (Cons x rows)
  show ?case
  proof (rule stmt_keepsI)
    fix d y d'
    assume wf: "db_wf e d" and i: "insert_deletions e (x # rows) d = Inr (y, d')"
    obtain d1 where "insert_deletion e x d = Inr ((), d1)" "insert_deletions e rows d1 = Inr ((), d')"
      using i by (auto split: sum.splits)
    then show "db_wf e d'" using wf Cons keeps_insert_deletion [of e x] unfolding stmt_keeps_def by blast
  qed
qed

lemma keeps_sweep_stmt [wf_stmts]:
  "stmt_keeps (db_wf e) (sweep_stmt e cl clock extra cutoff n uuids now)"
proof (rule stmt_keepsI)
  fix d x d'
  assume wf: "db_wf e d" and s: "sweep_stmt e cl clock extra cutoff n uuids now d = Inr (x, d')"
  obtain P removed d1 rows where "delete_profiles e P d = Inr (removed, d1)" "insert_deletions e rows d1 = Inr ((), d')"
    using s by (auto simp: sweep_stmt_def Let_def split: sum.splits prod.splits)
  then show "db_wf e d'"
    using wf keeps_delete_profiles [of e P] keeps_insert_deletions [of e rows] unfolding stmt_keeps_def by blast
qed

lemma keeps_delete_returning [wf_stmts]: "stmt_keeps (db_wf e) (delete_returning_source e i)"
  using keeps_delete_profiles [of e "\<lambda>p. up_ID p = i"]
  by (auto simp: stmt_keeps_def delete_returning_source_def split: sum.splits prod.splits list.splits)

lemma db_keeps_pg [db_rules]:
  "stmt_keeps P f \<Longrightarrow> db_keeps P (pg_run e f)" "stmt_keeps P f \<Longrightarrow> db_keeps P (pg_scan e f)"
  "db_keeps P (uuid_arg r x)" "db_keeps P (get_uuids e n)"
proof -
  show "stmt_keeps P f \<Longrightarrow> db_keeps P (pg_run e f)" unfolding pg_run_def by (intro keep_rules db_rules)
  show "stmt_keeps P f \<Longrightarrow> db_keeps P (pg_scan e f)" unfolding pg_scan_def by (intro keep_rules db_rules)
  show "db_keeps P (uuid_arg r x)" unfolding uuid_arg_def by (intro keep_rules db_rules)
  show "db_keeps P (get_uuids e n)" by (simp add: keeps_def get_uuids_def)
qed

lemma db_keeps_pg_validateMethod [db_rules]: "db_keeps P (pg_validateMethod r m st)"
  unfolding pg_validateMethod_def by (intro keep_rules db_rules keeps_select)

lemma db_keeps_pg_insert [db_rules]: "db_keeps (db_wf (rp_env r)) (pg_insert_credential r u now c)"
  unfolding pg_insert_credential_def by (intro keep_rules db_rules stmt_keeps_returning wf_stmts)

lemma keeps_pg_DeleteExpired: "db_keeps (db_wf (rp_env r)) (pg_DeleteExpired r cl t m)"
  unfolding pg_DeleteExpired_def Let_def
  by (auto intro!: keep_rules db_rules wf_stmts split: option.splits)


subsection \<open>All or nothing\<close>

definition all_or_nothing :: "'a dbop \<Rightarrow> bool" where
  "all_or_nothing m \<longleftrightarrow> (\<forall>s. case m s of (Inl _, s') \<Rightarrow> st_db s' = st_db s | (Inr _, _) \<Rightarrow> True)"

lemma all_or_nothing_retry: "all_or_nothing (withRetry r fn)"
  by (auto simp: all_or_nothing_def split: prod.splits sum.splits elim: withRetry_cases)

lemma all_or_nothing_rules:
  "all_or_nothing (failS err)" "(\<And>x. all_or_nothing (k x)) \<Longrightarrow> all_or_nothing (bindS (liftS v) k)"
  by (auto simp: all_or_nothing_def failS_def liftS_def bindS_def split: sum.splits prod.splits)

lemma all_or_nothing_DeleteExpired: "all_or_nothing (pg_DeleteExpired r cl t m)"
  unfolding pg_DeleteExpired_def Let_def
  by (auto intro!: all_or_nothing_rules all_or_nothing_retry split: option.splits)


lemma pg_run_InrD: "pg_run e f s = (Inr x, s') \<Longrightarrow> f (st_db s) = Inr (x, st_db s')"
  by (auto simp: pg_run_def map_errS_eq_Inr dest: exec_InrD)

lemma pg_scan_InrD: "pg_scan e f s = (Inr x, s') \<Longrightarrow> f (st_db s) = Inr (x, st_db s')"
  by (auto simp: pg_scan_def map_errS_eq_Inr dest: exec_InrD)

lemma returning_Inr: "returning f g d = Inr (y, d') \<longleftrightarrow> (\<exists>x. f d = Inr (x, d') \<and> g d' = Some y)"
  by (auto simp: returning_def split: sum.splits option.splits)

lemma uuid_arg_Inr: "uuid_arg r x s = (Inr y, s') \<longleftrightarrow> rp_uuid r x = Inr y \<and> s' = s"
  by (auto simp: uuid_arg_def map_errS_def liftS_def split: sum.splits)

lemma pg_validateMethod_db: "pg_validateMethod r m st s = (Inr u, s') \<Longrightarrow> st_db s' = st_db s"
  by (auto simp: pg_validateMethod_def bindS_eq_Inr map_errS_eq_Inr uuid_arg_Inr select_Inr
      dest!: exec_InrD split: if_splits)

lemma returning_insert_profile:
  assumes "returning (insert_profile e q) (profile_by_id (up_ID q)) d = Inr (y, d')"
  shows "y = q" "d' = d\<lparr>db_profiles := db_profiles d @ [q]\<rparr>"
proof -
  have i: "up_ID q \<notin> up_ID ` set (db_profiles d)" "d' = d\<lparr>db_profiles := db_profiles d @ [q]\<rparr>"
    "profile_by_id (up_ID q) d' = Some y"
    using assms by (auto simp: returning_Inr insert_profile_Inr)
  have "\<forall>p \<in> set (db_profiles d). \<not> up_ID p = up_ID q" using i(1) by (metis imageI)
  then have "find (\<lambda>p. up_ID p = up_ID q) (db_profiles d @ [q]) = Some q"
    by (rule find_append_new) simp
  then show "y = q" "d' = d\<lparr>db_profiles := db_profiles d @ [q]\<rparr>" using i(2,3) by (simp_all add: profile_by_id_def)
qed

lemma returning_insert_credential:
  assumes "returning (insert_credential e c) (credential_by_id (uc_ID c)) d = Inr (y, d')"
  shows "y = c" "d' = d\<lparr>db_credentials := db_credentials d @ [c]\<rparr>"
proof -
  have i: "uc_ID c \<notin> uc_ID ` set (db_credentials d)" "d' = d\<lparr>db_credentials := db_credentials d @ [c]\<rparr>"
    "credential_by_id (uc_ID c) d' = Some y"
    using assms by (auto simp: returning_Inr insert_credential_Inr)
  have "\<forall>x \<in> set (db_credentials d). \<not> uc_ID x = uc_ID c" using i(1) by (metis imageI)
  then have "find (\<lambda>x. uc_ID x = uc_ID c) (db_credentials d @ [c]) = Some c"
    by (rule find_append_new) simp
  then show "y = c" "d' = d\<lparr>db_credentials := db_credentials d @ [c]\<rparr>" using i(2,3) by (simp_all add: credential_by_id_def)
qed

text \<open>
  A successful \<open>CreateProfileWithCredential\<close> on PostgreSQL added exactly two rows and returns them: the
  normalised profile under its generated id, and the credential referring to that id whatever user id the caller
  sent; on an error nothing was added.
\<close>
theorem pg_create_profile_with_credential:
  "case pg_CreateProfileWithCredential r p c s of
     (Inl err, s') \<Rightarrow> st_db s' = st_db s
   | (Inr (p', c'), s') \<Rightarrow> \<exists>i j now mid. rp_uuid r (uc_MethodID c) = Inr mid \<and>
       p' = profile_row i now (NormalizeProfileForWrite (en_toUpper (rp_env r)) p) \<and>
       c' = credential_row j i now (c\<lparr>uc_MethodID := mid\<rparr>) \<and>
       st_db s' = (st_db s)\<lparr>db_profiles := db_profiles (st_db s) @ [p'],
         db_credentials := db_credentials (st_db s) @ [c']\<rparr>"
proof -
  obtain x s' where run: "pg_CreateProfileWithCredential r p c s = (x, s')" by fastforce
  show ?thesis
  proof (cases x)
    case (Inl err)
    have "all_or_nothing (pg_CreateProfileWithCredential r p c)"
      unfolding pg_CreateProfileWithCredential_def Let_def
      by (intro all_or_nothing_rules all_or_nothing_retry)
    then show ?thesis using run Inl by (auto simp: all_or_nothing_def split: prod.splits sum.splits)
  next
    case (Inr y)
    obtain p' c' where y: "y = (p', c')" by (cases y)
    let ?e = "rp_env r" and ?c = "PrepareCreateProfileWithCredential c"
    let ?p = "NormalizeProfileForWrite (en_toUpper ?e) p"
    let ?fn = "bindS (get_uuid ?e) (\<lambda>i. bindS (now_text ?e) (\<lambda>now.
       bindS (pg_scan ?e (returning (insert_profile ?e (profile_row i now ?p)) (profile_by_id i))) (\<lambda>gotProfile.
       bindS (pg_validateMethod r (uc_MethodID ?c) (uc_SecretState ?c)) (\<lambda>_.
       bindS (pg_insert_credential r (up_ID gotProfile) now ?c) (\<lambda>gotCredential. retS (gotProfile, gotCredential))))))"
    have "withRetry r ?fn s = (Inr (p', c'), s')"
      using run by (auto simp: pg_CreateProfileWithCredential_def Let_def Inr y bindS_def liftS_def
          split: sum.splits if_splits)
    then obtain s1 s2 where f: "st_db s1 = st_db s" "?fn s1 = (Inr (p', c'), s2)" "st_db s' = st_db s2"
      by (cases rule: withRetry_cases) auto
    obtain i j now mid s3 s4 s5 s6 s7 where st: "get_uuid ?e s1 = (Inr i, s3)" "now_text ?e s3 = (Inr now, s4)"
        "pg_scan ?e (returning (insert_profile ?e (profile_row i now ?p)) (profile_by_id i)) s4 = (Inr p', s5)"
        "pg_validateMethod r (uc_MethodID ?c) (uc_SecretState ?c) s5 = (Inr (), s6)"
        "get_uuid ?e s6 = (Inr j, s7)" "rp_uuid r (uc_MethodID ?c) = Inr mid"
        "pg_scan ?e (returning (insert_credential ?e (credential_row j (up_ID p') now (?c\<lparr>uc_MethodID := mid\<rparr>)))
           (credential_by_id j)) s7 = (Inr c', s2)"
      using f(2) by (auto simp: bindS_eq_Inr pg_insert_credential_def uuid_arg_Inr)
    have d4: "st_db s4 = st_db s" using get_uuid_D [OF st(1)] now_text_D [OF st(2)] f(1) by simp
    have p': "p' = profile_row i now ?p" "st_db s5 = (st_db s)\<lparr>db_profiles := db_profiles (st_db s) @ [p']\<rparr>"
      using returning_insert_profile [of ?e "profile_row i now ?p" "st_db s4" p' "st_db s5"] pg_scan_InrD [OF st(3)] d4
      by simp_all
    have d7: "st_db s7 = st_db s5" using pg_validateMethod_db [OF st(4)] get_uuid_D [OF st(5)] by simp
    have "up_ID p' = i" by (simp add: p'(1))
    then have c': "c' = credential_row j i now (?c\<lparr>uc_MethodID := mid\<rparr>)"
        "st_db s2 = (st_db s5)\<lparr>db_credentials := db_credentials (st_db s5) @ [c']\<rparr>"
      using returning_insert_credential [of ?e "credential_row j i now (?c\<lparr>uc_MethodID := mid\<rparr>)" "st_db s7" c' "st_db s2"]
        pg_scan_InrD [OF st(7)] d7
      by simp_all
    have row: "credential_row j i now (?c\<lparr>uc_MethodID := mid\<rparr>) = credential_row j i now (c\<lparr>uc_MethodID := mid\<rparr>)"
      by (simp add: credential_row_def PrepareCreateProfileWithCredential_def)
    have "rp_uuid r (uc_MethodID c) = Inr mid" using st(6) by (simp add: PrepareCreateProfileWithCredential_def)
    moreover have "st_db s' = (st_db s)\<lparr>db_profiles := db_profiles (st_db s) @ [p'],
         db_credentials := db_credentials (st_db s) @ [c']\<rparr>"
      using f(3) p'(2) c'(2) by simp
    ultimately show ?thesis using p'(1) c'(1) row unfolding run Inr y prod.case sum.case by blast
  qed
qed

subsection \<open>Errors of the two backends\<close>

definition schema_checks :: "string list" where
  "schema_checks = [''ck_user_profile_name_nonempty'', ''ck_user_profile_phone_e164'',
     ''ck_user_profile_street_address_nonempty'', ''ck_user_profile_locality_nonempty'',
     ''ck_user_profile_region_nonempty'', ''ck_user_profile_postal_code_nonempty'', ''ck_user_profile_country_alpha2'',
     ''ck_user_profile_source'', ''ck_user_credential_secret_state_enum'', ''ck_user_credential_secret_state'',
     ''ck_deletion_log_reason'']"

lemma schema_checks_all:
  "schema_checks = map fst (profile_checks e p) @ map fst (credential_checks c) @ map fst (deletion_checks d)"
  by (simp add: schema_checks_def profile_checks_def credential_checks_def deletion_checks_def)

text \<open>
  The two backends report every violation of the schema with the same sentinel, with one exception: a credential for a
  profile that does not exist is \<open>ErrInvalidArgument\<close> on PostgreSQL and \<open>ErrInvalidMethod\<close> on SQLite, whose driver does
  not say which foreign key failed.
\<close>
theorem sentinels_agree:
  "list_all (\<lambda>v. pg_translateError (pg_violation v) = sqlite_translateError (sqlite_violation v))
     ([PrimaryKey, UsernameUnique, MethodFK] @ map CheckFailed schema_checks) \<and>
   pg_translateError (pg_violation ProfileFK) = ErrInvalidArgument \<and>
   sqlite_translateError (sqlite_violation ProfileFK) = ErrInvalidMethod"
  by code_simp

lemma translated_not_retryable: "\<not> isRetryable (pg_translateError err)"
  by (auto simp: pg_translateError_def isRetryable_def split: option.splits)

text \<open>A serialization failure of a statement inside the transaction is translated before the retry loop sees it, so it is
not retried, on CockroachDB either; only one that \<open>BEGIN\<close> or \<open>COMMIT\<close> reports is.\<close>

lemma statement_conflict_not_retried:
  assumes "ValidateID i = Inr ()" "en_fault (rp_env r) (st_tick s) = None"
    and "en_fault (rp_env r) (Suc (st_tick s)) = Some (PgError ''40001'' con msg)"
  shows "fst (pg_Delete r i s) = Inl (Wrap ''postgres: driver error (sqlstate 40001): '' ErrUnclassified) \<and>
    st_tick (snd (pg_Delete r i s)) = st_tick s + 2"
proof -
  have t: "pg_translateError (PgError ''40001'' con msg) = Wrap ''postgres: driver error (sqlstate 40001): '' ErrUnclassified"
    by (simp add: pg_translateError_def pg_code_defs)
  have "runOnce (rp_env r) (bindS (pg_run (rp_env r) (delete_profiles (rp_env r) (\<lambda>p. up_ID p = i))) (\<lambda>gone.
       if gone = [] then failS ErrNotFound else retS ())) s =
     (Inl (Wrap ''postgres: driver error (sqlstate 40001): '' ErrUnclassified), s\<lparr>st_tick := st_tick s + 2\<rparr>)"
    using assms(2,3)
    by (simp add: runOnce_def in_tx_def bindS_def tx_control_def map_errS_def exec_def select_stmt_def pg_run_def t)
  then show ?thesis
    using assms(1)
    by (cases "rp_engine r")
      (simp_all add: pg_Delete_def bindS_def withRetry_def retryLoop_def maxRetries_def isRetryable_def numeral_eq_Suc)
qed

text \<open>An expired deadline is translated like any other driver error: no answer of a translated call is
\<open>context.DeadlineExceeded\<close>.\<close>

lemma deadline_hidden: "\<not> errors_is (pg_translateError err) DeadlineExceeded"
  by (auto simp: pg_translateError_def split: option.splits)

end
