(* ===== verification/Repository.thy ===== *)
theory Repository
  imports PostgresSpec
begin

section \<open>dao.Repository: one contract for both backends\<close>

text \<open>
  The interface of internal/dao/repository.go as data: a call is one of its methods with its arguments, a reply what the
  method returns. \<open>spec_call\<close> is the contract, a function from the database to an error or a reply and the next database,
  without transactions, retries or read-backs. The locale \<open>repository\<close> states that a backend implements the contract, and
  what a client may rely on is proved in it; both backends are interpretations. Here the database is reachable (no driver
  fault); what happens when it is not is in SqliteSpec and PostgresSpec.
\<close>

subsection \<open>The interface\<close>

datatype repo_call =
    GetProfile string
  | SearchProfiles profile_query
  | CreateProfile user_profile
  | UpdateProfile user_profile
  | UpsertProfile user_profile
  | RemoveProfile string
  | GetByUsername string
  | ListByUserID string
  | CreateCredential user_credential
  | UpdateCredential user_credential
  | DeleteCredential string
  | GetMethod string
  | GetMethodByName string
  | ListMethods bool
  | DeleteProfile string "string option"

datatype reply =
    Profile user_profile
  | Page "user_profile list" int
  | Credential user_credential
  | Credentials "user_credential list"
  | Method auth_method
  | Methods "auth_method list"
  | Done

definition answer :: "('a \<Rightarrow> reply) \<Rightarrow> ('s, goerr, 'a) op \<Rightarrow> ('s, goerr, reply) op" where
  "answer f m = bindS m (\<lambda>x. retS (f x))"

definition page_reply :: "user_profile list \<times> int \<Rightarrow> reply" where
  "page_reply x = Page (fst x) (snd x)"

fun sqlite_call :: "env \<Rightarrow> repo_call \<Rightarrow> reply dbop" where
  "sqlite_call e (GetProfile i) = answer Profile (sqlite_Get e i)"
| "sqlite_call e (SearchProfiles q) = answer page_reply (sqlite_Search e q)"
| "sqlite_call e (CreateProfile p) = answer Profile (sqlite_Create e p)"
| "sqlite_call e (UpdateProfile p) = answer Profile (sqlite_Update e p)"
| "sqlite_call e (UpsertProfile p) = answer Profile (sqlite_Upsert e p)"
| "sqlite_call e (RemoveProfile i) = answer (\<lambda>_. Done) (sqlite_Delete e i)"
| "sqlite_call e (GetByUsername u) = answer Credential (sqlite_GetByUsername e u)"
| "sqlite_call e (ListByUserID i) = answer Credentials (sqlite_ListByUserID e i)"
| "sqlite_call e (CreateCredential c) = answer Credential (sqlite_CreateCredential e c)"
| "sqlite_call e (UpdateCredential c) = answer Credential (sqlite_UpdateCredential e c)"
| "sqlite_call e (DeleteCredential i) = answer (\<lambda>_. Done) (sqlite_DeleteCredential e i)"
| "sqlite_call e (GetMethod i) = answer Method (sqlite_GetMethod e i)"
| "sqlite_call e (GetMethodByName n) = answer Method (sqlite_GetMethodByName e n)"
| "sqlite_call e (ListMethods a) = answer Methods (sqlite_ListMethods e a)"
| "sqlite_call e (DeleteProfile i ref) = answer (\<lambda>_. Done) (sqlite_DeleteProfile e i ref)"

fun pg_call :: "pg_repo \<Rightarrow> repo_call \<Rightarrow> reply dbop" where
  "pg_call r (GetProfile i) = answer Profile (pg_Get r i)"
| "pg_call r (SearchProfiles q) = answer page_reply (pg_Search r q)"
| "pg_call r (CreateProfile p) = answer Profile (pg_Create r p)"
| "pg_call r (UpdateProfile p) = answer Profile (pg_Update r p)"
| "pg_call r (UpsertProfile p) = answer Profile (pg_Upsert r p)"
| "pg_call r (RemoveProfile i) = answer (\<lambda>_. Done) (pg_Delete r i)"
| "pg_call r (GetByUsername u) = answer Credential (pg_GetByUsername r u)"
| "pg_call r (ListByUserID i) = answer Credentials (pg_ListByUserID r i)"
| "pg_call r (CreateCredential c) = answer Credential (pg_CreateCredential r c)"
| "pg_call r (UpdateCredential c) = answer Credential (pg_UpdateCredential r c)"
| "pg_call r (DeleteCredential i) = answer (\<lambda>_. Done) (pg_DeleteCredential r i)"
| "pg_call r (GetMethod i) = answer Method (pg_GetMethod r i)"
| "pg_call r (GetMethodByName n) = answer Method (pg_GetMethodByName r n)"
| "pg_call r (ListMethods a) = answer Methods (pg_ListMethods r a)"
| "pg_call r (DeleteProfile i ref) = answer (\<lambda>_. Done) (pg_DeleteProfile r i ref)"

subsection \<open>The contract\<close>

text \<open>What the contract leaves to the dialect.\<close>

record dialect =
  di_toUpper :: "string \<Rightarrow> string"
  di_lower :: "string \<Rightarrow> string"
  di_stamp :: "time \<Rightarrow> time" \<comment> \<open>a time after storage\<close>
  di_row_ok :: "user_profile \<Rightarrow> bool" \<comment> \<open>the CHECKs of user_profile\<close>
  di_matches :: "profile_query \<Rightarrow> user_profile \<Rightarrow> bool" \<comment> \<open>the WHERE clause of a search\<close>
  di_fk :: bool \<comment> \<open>foreign keys are enforced\<close>
  di_no_user :: goerr \<comment> \<open>the sentinel for a credential of a profile that does not exist\<close>

definition require :: "goerr + unit \<Rightarrow> 'a stmt \<Rightarrow> 'a stmt" where
  "require r f d = (case r of Inl err \<Rightarrow> Inl err | Inr _ \<Rightarrow> f d)"

definition fetch :: "(db \<Rightarrow> 'a option) \<Rightarrow> ('a \<Rightarrow> 'b) \<Rightarrow> 'b stmt" where
  "fetch g f d = (case g d of None \<Rightarrow> Inl ErrNotFound | Some x \<Rightarrow> Inr (f x, d))"

definition change_profile :: "string \<Rightarrow> (user_profile \<Rightarrow> user_profile) \<Rightarrow> db \<Rightarrow> db" where
  "change_profile i f d = d\<lparr>db_profiles := map (\<lambda>x. if up_ID x = i then f x else x) (db_profiles d)\<rparr>"

definition add_profile :: "user_profile \<Rightarrow> db \<Rightarrow> db" where
  "add_profile row d = d\<lparr>db_profiles := db_profiles d @ [row]\<rparr>"

definition drop_profile :: "bool \<Rightarrow> string \<Rightarrow> db \<Rightarrow> db" where
  "drop_profile fk i d = d\<lparr>db_profiles := filter (\<lambda>p. up_ID p \<noteq> i) (db_profiles d),
     db_credentials := (if fk then filter (\<lambda>c. uc_UserID c \<noteq> i) (db_credentials d) else db_credentials d)\<rparr>"

definition spec_page :: "dialect \<Rightarrow> profile_query \<Rightarrow> db \<Rightarrow> reply" where
  "spec_page di q d =
     (let found = filter (di_matches di q) (db_profiles d) in
      Page (take (nat (EffectiveLimit q)) (drop (nat (pq_Offset q)) (sort_key (\<lambda>p. (di_lower di (up_Name p), up_ID p)) found)))
        (int (length found)))"

text \<open>The method of a credential must exist and be active, and a secret needs a method that has one.\<close>

definition spec_method :: "user_credential \<Rightarrow> db \<Rightarrow> goerr + unit" where
  "spec_method c d =
     (case find (\<lambda>m. am_ID m = uc_MethodID c) (db_methods d) of
        None \<Rightarrow> Inl ErrInvalidMethod
      | Some m \<Rightarrow>
          if \<not> am_IsActive m then Inl ErrInvalidMethod
          else if \<not> am_RequiresSecret m \<and> uc_SecretState c = ''set'' then Inl ErrInvalidCredential
          else Inr ())"

text \<open>The row \<open>c\<close> may be stored beside the credentials \<open>others\<close>.\<close>

definition spec_credential :: "dialect \<Rightarrow> user_credential \<Rightarrow> user_credential list \<Rightarrow> db \<Rightarrow> goerr + unit" where
  "spec_credential di c others d =
     (case first_failed (credential_checks c) of
        Some n \<Rightarrow> Inl (if n = ''ck_user_credential_secret_state'' then ErrInvalidCredential else ErrInvalidArgument)
      | None \<Rightarrow>
          if list_ex (\<lambda>x. di_lower di (uc_Username x) = di_lower di (uc_Username c)) others then Inl ErrDuplicateUsername
          else if di_fk di \<and> uc_UserID c \<notin> up_ID ` set (db_profiles d) then Inl (di_no_user di)
          else Inr ())"

fun spec_call :: "dialect \<Rightarrow> time \<Rightarrow> string \<Rightarrow> repo_call \<Rightarrow> reply stmt" where
  "spec_call di t u (GetProfile i) = require (ValidateID i) (fetch (profile_by_id i) Profile)"
| "spec_call di t u (SearchProfiles q) = require (ValidateProfileQuery q) (select_stmt (spec_page di q))"
| "spec_call di t u (CreateProfile p) =
     require (ValidateCreateID (up_ID p)) (require (ValidateProfilePointers p) (\<lambda>d.
       let row = profile_row u (di_stamp di t) (NormalizeProfileForWrite (di_toUpper di) p) in
       if \<not> di_row_ok di row then Inl ErrInvalidArgument
       else if u \<in> up_ID ` set (db_profiles d) then Inl ErrAlreadyExists
       else Inr (Profile row, add_profile row d)))"
| "spec_call di t u (UpdateProfile p) =
     require (ValidateID (up_ID p)) (require (ValidateProfilePointers p) (\<lambda>d.
       case profile_by_id (up_ID p) d of
         None \<Rightarrow> Inl ErrNotFound
       | Some old \<Rightarrow>
           (let new = set_profile (NormalizeProfileForWrite (di_toUpper di) p) (di_stamp di t) in
            if \<not> di_row_ok di (new old) then Inl ErrInvalidArgument
            else Inr (Profile (new old), change_profile (up_ID p) new d))))"
| "spec_call di t u (UpsertProfile p) =
     require (ValidateID (up_ID p)) (require (ValidateProfilePointers p) (\<lambda>d.
       let new = NormalizeProfileForWrite (di_toUpper di) p; now = di_stamp di t in
       if \<not> di_row_ok di (profile_row (up_ID p) now new) then Inl ErrInvalidArgument
       else case profile_by_id (up_ID p) d of
         None \<Rightarrow> (let row = profile_row (up_ID p) now new in Inr (Profile row, add_profile row d))
       | Some old \<Rightarrow> Inr (Profile (set_profile new now old), change_profile (up_ID p) (set_profile new now) d)))"
| "spec_call di t u (RemoveProfile i) =
     require (ValidateID i) (\<lambda>d.
       if profile_by_id i d = None then Inl ErrNotFound else Inr (Done, drop_profile (di_fk di) i d))"
| "spec_call di t u (GetByUsername n) =
     fetch (\<lambda>d. find (\<lambda>c. di_lower di (uc_Username c) = di_lower di n) (db_credentials d)) Credential"
| "spec_call di t u (ListByUserID i) =
     require (ValidateID i) (select_stmt (\<lambda>d. Credentials (filter (\<lambda>c. uc_UserID c = i) (db_credentials d))))"
| "spec_call di t u (CreateCredential c) =
     require (ValidateCreateID (uc_ID c)) (require (ValidateCredentialPointers c) (\<lambda>d.
       let row = credential_row u (uc_UserID c) (di_stamp di t) c in
       require (spec_method c d) (
       if all_hold (credential_checks row) \<and> u \<in> uc_ID ` set (db_credentials d) then (\<lambda>_. Inl ErrAlreadyExists)
       else require (spec_credential di row (db_credentials d) d)
         (\<lambda>d. Inr (Credential row, d\<lparr>db_credentials := db_credentials d @ [row]\<rparr>))) d))"
| "spec_call di t u (UpdateCredential c) =
     require (ValidateID (uc_ID c)) (require (ValidateCredentialPointers c) (\<lambda>d.
       require (spec_method c d) (\<lambda>d.
         case credential_by_id (uc_ID c) d of
           None \<Rightarrow> Inl ErrNotFound
         | Some old \<Rightarrow>
             (let row = set_credential c (di_stamp di t) old in
              require (spec_credential di row (filter (\<lambda>x. uc_ID x \<noteq> uc_ID c) (db_credentials d)) d)
                (\<lambda>d. Inr (Credential row, d\<lparr>db_credentials :=
                   map (\<lambda>x. if uc_ID x = uc_ID c then set_credential c (di_stamp di t) x else x) (db_credentials d)\<rparr>)) d)) d))"
| "spec_call di t u (DeleteCredential i) =
     require (ValidateID i) (\<lambda>d.
       if credential_by_id i d = None then Inl ErrNotFound
       else Inr (Done, d\<lparr>db_credentials := filter (\<lambda>c. uc_ID c \<noteq> i) (db_credentials d)\<rparr>))"
| "spec_call di t u (GetMethod i) =
     require (ValidateID i) (fetch (\<lambda>d. find (\<lambda>m. am_ID m = i) (db_methods d)) Method)"
| "spec_call di t u (GetMethodByName n) = fetch (\<lambda>d. find (\<lambda>m. am_Name m = n) (db_methods d)) Method"
| "spec_call di t u (ListMethods a) = select_stmt (\<lambda>d. Methods (filter (\<lambda>m. a \<longrightarrow> am_IsActive m) (db_methods d)))"
| "spec_call di t u (DeleteProfile i ref) =
     require (ValidateID i) (\<lambda>d.
       case profile_by_id i d of
         None \<Rightarrow> Inl ErrNotFound
       | Some p \<Rightarrow>
           if u \<in> dl_ID ` set (db_deletions d) then Inl ErrAlreadyExists
           else (let d' = drop_profile (di_fk di) i d in
             Inr (Done, d'\<lparr>db_deletions := db_deletions d' @ [\<lparr>dl_ID = u, dl_ProfileID = i, dl_Source = up_Source p,
               dl_Reason = ''subject_request'', dl_ExternalRef = ref, dl_DeletedAt = di_stamp di t\<rparr>]\<rparr>)))"


subsection \<open>An operation without its clock ticks\<close>

text \<open>
  With a fixed clock and generator and a reachable database an operation is a function of the database: \<open>erases m f\<close> says
  that \<open>m\<close> does what \<open>f\<close> does, whatever the number of calls it makes.
\<close>

definition erases :: "'a dbop \<Rightarrow> (db, goerr, 'a) op \<Rightarrow> bool" where
  "erases m f \<longleftrightarrow> (\<forall>s. \<exists>n. m s = (fst (f (st_db s)), \<lparr>st_db = snd (f (st_db s)), st_tick = n\<rparr>))"

definition stmt_op :: "'a stmt \<Rightarrow> (db, goerr, 'a) op" where
  "stmt_op f d = (case f d of Inl err \<Rightarrow> (Inl err, d) | Inr (x, d') \<Rightarrow> (Inr x, d'))"

definition tx_op :: "(db, goerr, 'a) op \<Rightarrow> (db, goerr, 'a) op" where
  "tx_op f d = (case f d of (Inl err, d') \<Rightarrow> (Inl err, d) | (Inr x, d') \<Rightarrow> (Inr x, d'))"

definition perform :: "'a dbop \<Rightarrow> (db, goerr, 'a) op" where
  "perform m d = (case m \<lparr>st_db = d, st_tick = 0\<rparr> of (x, s) \<Rightarrow> (x, st_db s))"

lemma perform_erases: "erases m f \<Longrightarrow> perform m d = f d"
  by (auto simp: erases_def perform_def dest: spec [of _ "\<lparr>st_db = d, st_tick = 0\<rparr>"])

definition calm :: "env \<Rightarrow> time \<Rightarrow> string \<Rightarrow> bool" where
  "calm e t u \<longleftrightarrow> en_fault e = (\<lambda>_. None) \<and> en_now e = (\<lambda>_. t) \<and> en_uuid e = (\<lambda>_. u)"

named_theorems erase_rules

lemma store_eq: "st_db s = d \<Longrightarrow> \<exists>n. s = \<lparr>st_db = d, st_tick = n\<rparr>"
  by (cases s) auto

lemma erasesI: "(\<And>s. fst (m s) = fst (f (st_db s)) \<and> st_db (snd (m s)) = snd (f (st_db s))) \<Longrightarrow> erases m f"
  unfolding erases_def by (metis prod.collapse store_eq)

lemma erasesD: "erases m f \<Longrightarrow> fst (m s) = fst (f (st_db s)) \<and> st_db (snd (m s)) = snd (f (st_db s))"
  unfolding erases_def by (metis fst_conv snd_conv store.select_convs(1))

lemma erasesE:
  assumes "erases m f"
  obtains y s' where "m s = (y, s')" "f (st_db s) = (y, st_db s')"
  using erasesD [OF assms, of s] by (metis prod.collapse)

lemma erases_eq: "erases m f \<Longrightarrow> f = g \<Longrightarrow> erases m g"
  by simp

lemma erases_basic [erase_rules]: "erases (retS x) (retS x)" "erases (failS err) (failS err)" "erases (liftS y) (liftS y)"
  by (auto intro!: erasesI)

lemma erases_bind [erase_rules]:
  assumes "erases m f" "\<And>x. erases (k x) (h x)"
  shows "erases (bindS m k) (bindS f h)"
proof (rule erasesI)
  fix s
  have m: "fst (m s) = fst (f (st_db s))" "st_db (snd (m s)) = snd (f (st_db s))"
    using erasesD [OF assms(1), of s] by simp_all
  show "fst (bindS m k s) = fst (bindS f h (st_db s)) \<and> st_db (snd (bindS m k s)) = snd (bindS f h (st_db s))"
    using m erasesD [OF assms(2), of _ "snd (m s)"]
    by (cases "m s"; cases "f (st_db s)") (auto simp: bindS_def split: sum.splits)
qed

lemma erases_if [erase_rules]: "erases m f \<Longrightarrow> erases m' f' \<Longrightarrow> erases (if b then m else m') (if b then f else f')"
  by simp

lemma erases_map_err [erase_rules]: "erases m f \<Longrightarrow> erases (map_errS g m) (map_errS g f)"
proof (rule erasesI)
  fix s
  assume "erases m f"
  then obtain y s' where "m s = (y, s')" "f (st_db s) = (y, st_db s')" by (rule erasesE)
  then show "fst (map_errS g m s) = fst (map_errS g f (st_db s)) \<and> st_db (snd (map_errS g m s)) = snd (map_errS g f (st_db s))"
    by (simp add: map_errS_def split: sum.splits)
qed

lemma erases_exec [erase_rules]: "calm e t u \<Longrightarrow> erases (exec e f) (stmt_op f)"
  by (rule erasesI) (auto simp: calm_def exec_def stmt_op_def Let_def split: sum.splits)

lemma erases_uuid [erase_rules]: "calm e t u \<Longrightarrow> erases (get_uuid e) (retS u)"
  by (rule erasesI) (simp add: calm_def get_uuid_def)

lemma erases_now [erase_rules]: "calm e t u \<Longrightarrow> erases (now_text e) (retS (en_stamp e t))"
  by (rule erasesI) (simp add: calm_def now_text_def get_now_def bindS_def)

lemma erases_tx_control: "calm e t u \<Longrightarrow> erases (tx_control e tr) (retS ())"
  by (rule erasesI) (simp add: calm_def tx_control_def exec_def map_errS_def select_stmt_def)

lemma erases_tx [erase_rules]:
  assumes "calm e t u" "erases m f"
  shows "erases (in_tx e tr m) (tx_op f)"
proof -
  have "erases (bindS (tx_control e tr) (\<lambda>_. bindS m (\<lambda>x. bindS (tx_control e tr) (\<lambda>_. retS x))))
      (bindS (retS ()) (\<lambda>_. bindS f (\<lambda>x. bindS (retS ()) (\<lambda>_. retS x))))"
    by (intro erases_bind erases_tx_control [OF assms(1)] assms(2) erases_basic)
  then have e: "erases (bindS (tx_control e tr) (\<lambda>_. bindS m (\<lambda>x. bindS (tx_control e tr) (\<lambda>_. retS x)))) f"
    by (rule erases_eq) (simp add: bindS_def fun_eq_iff split: prod.splits sum.splits)
  show ?thesis
  proof (rule erasesI)
    fix s
    from e obtain y s' where "bindS (tx_control e tr) (\<lambda>_. bindS m (\<lambda>x. bindS (tx_control e tr) (\<lambda>_. retS x))) s = (y, s')"
        "f (st_db s) = (y, st_db s')" by (rule erasesE)
    then show "fst (in_tx e tr m s) = fst (tx_op f (st_db s)) \<and> st_db (snd (in_tx e tr m s)) = snd (tx_op f (st_db s))"
      by (simp add: in_tx_def tx_op_def split: sum.splits)
  qed
qed

text \<open>A retried attempt starts from the database it was rolled back to, so it ends as the first one did.\<close>

lemma erases_retry_from:
  assumes "erases attempt (tx_op f)" "\<And>k. erases (sleep k) (retS ())"
  shows "erases (retry_from g sleep attempt i n) (tx_op f)"
proof (induction n arbitrary: i)
  case 0
  show ?case using assms(1) by simp
next
  case (Suc n)
  show ?case
  proof (rule erasesI)
    fix s
    obtain y s1 where a: "attempt s = (y, s1)" "tx_op f (st_db s) = (y, st_db s1)" by (rule erasesE [OF assms(1)])
    obtain z s2 where b: "sleep i s1 = (z, s2)" "retS () (st_db s1) = (z, st_db s2)" by (rule erasesE [OF assms(2)])
    have same: "st_db s1 = st_db s" if "y = Inl err" for err
      using a(2) that by (auto simp: tx_op_def split: prod.splits sum.splits)
    show "fst (retry_from g sleep attempt i (Suc n) s) = fst (tx_op f (st_db s)) \<and>
        st_db (snd (retry_from g sleep attempt i (Suc n) s)) = snd (tx_op f (st_db s))"
    proof (cases y)
      case (Inl err)
      with erasesD [OF Suc.IH, of "Suc i" s2] same [OF Inl] a b show ?thesis by auto
    next
      case (Inr x)
      with a show ?thesis by simp
    qed
  qed
qed

lemma erases_retry [erase_rules]:
  assumes "calm (rp_env r) t u" "erases m f"
  shows "erases (withRetry r m) (tx_op f)"
proof -
  have "erases (backoffSleep (rp_env r) k) (retS ())" for k
    unfolding backoffSleep_def
    by (rule erases_eq, rule erases_exec [OF assms(1)]) (simp add: fun_eq_iff stmt_op_def select_stmt_def)
  then show ?thesis
    unfolding withRetry_def retryLoop_def runOnce_def by (intro erases_retry_from erases_tx [OF assms])
qed

subsection \<open>The statements, with their errors translated\<close>

definition translates :: "(goerr \<Rightarrow> goerr) \<Rightarrow> env \<Rightarrow> goerr \<Rightarrow> bool" where
  "translates tr e no_user \<longleftrightarrow> tr ErrNoRows = ErrNotFound \<and> tr (en_violation e PrimaryKey) = ErrAlreadyExists \<and>
     tr (en_violation e UsernameUnique) = ErrDuplicateUsername \<and> tr (en_violation e ProfileFK) = no_user \<and>
     tr (en_violation e MethodFK) = ErrInvalidMethod \<and>
     list_all (\<lambda>n. tr (en_violation e (CheckFailed n)) =
       (if n = ''ck_user_credential_secret_state'' then ErrInvalidCredential else ErrInvalidArgument)) schema_checks"

lemma sqlite_translates:
  assumes "en_violation e = sqlite_violation"
  shows "translates sqlite_translateError e ErrInvalidMethod"
  unfolding translates_def assms by code_simp

lemma pg_translates:
  assumes "en_violation e = pg_violation"
  shows "translates pg_translateError e ErrInvalidArgument"
  unfolding translates_def assms by code_simp

lemma first_failed_in: "first_failed cs = Some n \<Longrightarrow> n \<in> set (map fst cs)"
  by (induction cs) (auto simp: first_failed_def split: if_splits)

lemma translates_simps:
  assumes "translates tr e nu"
  shows "tr ErrNoRows = ErrNotFound" "tr (en_violation e PrimaryKey) = ErrAlreadyExists"
    "tr (en_violation e UsernameUnique) = ErrDuplicateUsername" "tr (en_violation e ProfileFK) = nu"
    "tr (en_violation e MethodFK) = ErrInvalidMethod"
    "first_failed (profile_checks e p) = Some n \<Longrightarrow> tr (en_violation e (CheckFailed n)) = ErrInvalidArgument"
    "first_failed (credential_checks c) = Some n \<Longrightarrow> tr (en_violation e (CheckFailed n)) =
       (if n = ''ck_user_credential_secret_state'' then ErrInvalidCredential else ErrInvalidArgument)"
proof -
  show "first_failed (profile_checks e p) = Some n \<Longrightarrow> tr (en_violation e (CheckFailed n)) = ErrInvalidArgument"
    using assms first_failed_in [of "profile_checks e p" n] by (auto simp: translates_def schema_checks_def profile_checks_def)
  show "first_failed (credential_checks c) = Some n \<Longrightarrow> tr (en_violation e (CheckFailed n)) =
       (if n = ''ck_user_credential_secret_state'' then ErrInvalidCredential else ErrInvalidArgument)"
    using assms first_failed_in [of "credential_checks c" n] by (auto simp: translates_def schema_checks_def credential_checks_def)
qed (use assms in \<open>simp_all add: translates_def\<close>)

lemma insert_profile_op:
  assumes "translates tr e nu"
  shows "map_errS tr (stmt_op (insert_profile e row)) d =
    (if \<not> all_hold (profile_checks e row) then (Inl ErrInvalidArgument, d)
     else if up_ID row \<in> up_ID ` set (db_profiles d) then (Inl ErrAlreadyExists, d) else (Inr (), add_profile row d))"
  using translates_simps [OF assms]
  by (cases "first_failed (profile_checks e row)")
    (auto simp: map_errS_def stmt_op_def insert_profile_def add_profile_def simp flip: first_failed_None)

lemma profile_by_id_some: "profile_by_id i d = Some p \<Longrightarrow> up_ID p = i \<and> p \<in> set (db_profiles d)"
  by (auto simp: profile_by_id_def find_Some_iff)

lemma profile_by_id_none: "profile_by_id i d = None \<longleftrightarrow> i \<notin> up_ID ` set (db_profiles d)"
  by (auto simp: profile_by_id_def find_None_iff)

lemma update_profile_op:
  assumes "translates tr e nu"
  shows "map_errS tr (stmt_op (update_profile e i f)) d =
    (case profile_by_id i d of
       None \<Rightarrow> (Inr None, d)
     | Some old \<Rightarrow>
         if \<not> all_hold (profile_checks e (f old)) then (Inl ErrInvalidArgument, d)
         else (Inr (Some (f old)), change_profile i f d))"
proof (cases "profile_by_id i d")
  case None
  then show ?thesis by (simp add: map_errS_def stmt_op_def update_profile_def profile_by_id_def)
next
  case (Some old)
  then show ?thesis using translates_simps [OF assms]
    by (cases "first_failed (profile_checks e (f old))")
      (auto simp: map_errS_def stmt_op_def update_profile_def profile_by_id_def change_profile_def simp flip: first_failed_None)
qed

lemma checks_same:
  "all_hold (profile_checks e (set_profile p now old)) \<longleftrightarrow> all_hold (profile_checks e (profile_row i t p))"
  by (simp add: all_hold_def profile_checks_def set_profile_def profile_row_def)

lemma upsert_profile_op:
  assumes "translates tr e nu"
  shows "map_errS tr (stmt_op (upsert_profile e (profile_row i now p) (set_profile p now))) d =
    (if \<not> all_hold (profile_checks e (profile_row i now p)) then (Inl ErrInvalidArgument, d)
     else case profile_by_id i d of
       None \<Rightarrow> (Inr (profile_row i now p), add_profile (profile_row i now p) d)
     | Some old \<Rightarrow> (Inr (set_profile p now old), change_profile i (set_profile p now) d))"
proof -
  let ?row = "profile_row i now p" and ?f = "set_profile p now"
  have i: "up_ID ?row = i" by (simp add: profile_row_def)
  have ok: "all_hold (profile_checks e (?f old)) \<longleftrightarrow> all_hold (profile_checks e ?row)" for old by (rule checks_same)
  show ?thesis
  proof (cases "first_failed (profile_checks e ?row)")
    case (Some n)
    then have "\<not> all_hold (profile_checks e ?row)" by (simp flip: first_failed_None)
    then show ?thesis using Some translates_simps(6) [OF assms Some]
      by (simp add: map_errS_def stmt_op_def upsert_profile_def)
  next
    case None
    then have h: "all_hold (profile_checks e ?row)" by simp
    then have f: "first_failed (profile_checks e (?f old)) = None" for old by (simp add: ok)
    show ?thesis
      using h f None by (cases "profile_by_id i d")
        (simp_all add: map_errS_def stmt_op_def upsert_profile_def update_profile_def i profile_by_id_def change_profile_def add_profile_def
          del: first_failed_None)
  qed
qed

lemma delete_profile_op: "map_errS tr (stmt_op (delete_profiles e (\<lambda>p. up_ID p = i))) d =
    (if profile_by_id i d = None then (Inr [], d) else (Inr (filter (\<lambda>p. up_ID p = i) (db_profiles d)), drop_profile (en_fk e) i d))"
proof (cases "i \<in> up_ID ` set (db_profiles d)")
  case True
  then have "up_ID ` {p \<in> set (db_profiles d). up_ID p = i} = {i}" by auto
  with True show ?thesis
    by (simp add: map_errS_def stmt_op_def delete_profiles_def Let_def drop_profile_def profile_by_id_none)
next
  case False
  then have "filter (\<lambda>p. up_ID p = i) (db_profiles d) = []" "filter (\<lambda>p. up_ID p \<noteq> i) (db_profiles d) = db_profiles d"
    by (auto simp: filter_empty_conv filter_id_conv)
  with False show ?thesis
    by (simp add: map_errS_def stmt_op_def delete_profiles_def Let_def profile_by_id_none)
qed

lemma filter_found: "profile_by_id i d = Some p \<Longrightarrow> \<exists>ps. filter (\<lambda>p. up_ID p = i) (db_profiles d) = p # ps"
  unfolding profile_by_id_def
proof (induction "db_profiles d" arbitrary: d)
  case (Cons x xs)
  from Cons.hyps(1) [of "d\<lparr>db_profiles := xs\<rparr>"] Cons.prems Cons.hyps(2) [symmetric] show ?case by (auto split: if_splits)
qed simp

lemma profile_by_id_add:
  "profile_by_id (up_ID row) (add_profile row d) = (case profile_by_id (up_ID row) d of None \<Rightarrow> Some row | Some p \<Rightarrow> Some p)"
proof -
  have "find P (xs @ [row]) = (case find P xs of None \<Rightarrow> if P row then Some row else None | Some p \<Rightarrow> Some p)" for P xs
    by (induction xs) auto
  then show ?thesis by (simp add: profile_by_id_def add_profile_def split: option.split)
qed

lemma find_map_same:
  assumes "\<And>x. P (f x) = P x"
  shows "find P (map (\<lambda>x. if P x then f x else x) xs) = map_option f (find P xs)"
  using assms by (induction xs) auto

lemma profile_by_id_change:
  assumes "\<And>x. up_ID (f x) = up_ID x"
  shows "profile_by_id i (change_profile i f d) = map_option f (profile_by_id i d)"
  using find_map_same [of "\<lambda>p. up_ID p = i" f] assms by (simp add: profile_by_id_def change_profile_def)

lemma set_profile_id [simp]: "up_ID (set_profile p now x) = up_ID x"
  by (simp add: set_profile_def)

lemma set_credential_sel [simp]: "uc_ID (set_credential c now x) = uc_ID x" "uc_MethodID (set_credential c now x) = uc_MethodID c"
  by (simp_all add: set_credential_def)

text \<open>Credentials: the dialect of the contract is that of the statements.\<close>

definition speaks :: "dialect \<Rightarrow> env \<Rightarrow> goerr \<Rightarrow> bool" where
  "speaks di e nu \<longleftrightarrow> di_lower di = en_lower e \<and> di_fk di = en_fk e \<and> di_no_user di = nu"

lemma validate_method_op:
  assumes "tr ErrNoRows = ErrInvalidMethod"
  shows "bindS (map_errS tr (stmt_op (select_one (\<lambda>d. find (\<lambda>m. am_ID m = uc_MethodID c) (db_methods d)))))
      (\<lambda>m. if \<not> am_IsActive m then failS ErrInvalidMethod
        else if \<not> am_RequiresSecret m \<and> uc_SecretState c = ''set'' then failS ErrInvalidCredential else retS ()) d =
    (case spec_method c d of Inl err \<Rightarrow> (Inl err, d) | Inr _ \<Rightarrow> (Inr (), d))"
  using assms by (auto simp: bindS_def map_errS_def stmt_op_def select_one_def spec_method_def split: option.splits)

lemma spec_method_known: "spec_method c d = Inr x \<Longrightarrow> uc_MethodID c \<in> am_ID ` set (db_methods d)"
  by (auto simp: spec_method_def find_Some_iff split: option.splits if_splits) (metis imageI nth_mem)+

lemma fk_failed_known:
  assumes "uc_MethodID row \<in> am_ID ` set (db_methods d)"
  shows "fk_failed e row d = (if en_fk e \<and> uc_UserID row \<notin> up_ID ` set (db_profiles d) then Some ProfileFK else None)"
  using assms by (simp add: fk_failed_def)

lemma insert_credential_op:
  assumes "translates tr e nu" "speaks di e nu" "uc_MethodID row \<in> am_ID ` set (db_methods d)"
  shows "map_errS tr (stmt_op (insert_credential e row)) d =
    (if all_hold (credential_checks row) \<and> uc_ID row \<in> uc_ID ` set (db_credentials d) then (Inl ErrAlreadyExists, d)
     else case spec_credential di row (db_credentials d) d of
       Inl err \<Rightarrow> (Inl err, d)
     | Inr _ \<Rightarrow> (Inr (), d\<lparr>db_credentials := db_credentials d @ [row]\<rparr>))"
  using assms(2) translates_simps [OF assms(1)] fk_failed_known [OF assms(3)]
  by (cases "first_failed (credential_checks row)")
    (auto simp: map_errS_def stmt_op_def insert_credential_def spec_credential_def speaks_def same_username_def list_ex_iff
      simp flip: first_failed_None)

lemma update_credential_op:
  assumes "translates tr e nu" "speaks di e nu" "\<And>x. uc_MethodID (f x) \<in> am_ID ` set (db_methods d)"
  shows "map_errS tr (stmt_op (update_credential e i f)) d =
    (case credential_by_id i d of
       None \<Rightarrow> (Inr None, d)
     | Some old \<Rightarrow>
         (case spec_credential di (f old) (filter (\<lambda>x. uc_ID x \<noteq> i) (db_credentials d)) d of
            Inl err \<Rightarrow> (Inl err, d)
          | Inr _ \<Rightarrow> (Inr (Some (f old)),
              d\<lparr>db_credentials := map (\<lambda>c. if uc_ID c = i then f c else c) (db_credentials d)\<rparr>)))"
proof (cases "credential_by_id i d")
  case None
  then show ?thesis by (simp add: map_errS_def stmt_op_def update_credential_def credential_by_id_def)
next
  case (Some old)
  then show ?thesis
    using assms(2) translates_simps [OF assms(1)] fk_failed_known [OF assms(3), of e old]
    by (cases "first_failed (credential_checks (f old))")
      (auto simp: map_errS_def stmt_op_def update_credential_def credential_by_id_def spec_credential_def speaks_def
        same_username_def list_ex_iff simp flip: first_failed_None)
qed

lemma credential_by_id_filter: "filter (\<lambda>c. uc_ID c = i) (db_credentials d) = [] \<longleftrightarrow> credential_by_id i d = None"
  by (auto simp: credential_by_id_def find_None_iff filter_empty_conv)

lemma delete_credential_op: "map_errS tr (stmt_op (delete_credentials i)) d =
    (if credential_by_id i d = None then (Inr [], d)
     else (Inr (filter (\<lambda>c. uc_ID c = i) (db_credentials d)), d\<lparr>db_credentials := filter (\<lambda>c. uc_ID c \<noteq> i) (db_credentials d)\<rparr>))"
proof -
  have "credential_by_id i d = None \<Longrightarrow> filter (\<lambda>c. uc_ID c \<noteq> i) (db_credentials d) = db_credentials d"
    by (auto simp: credential_by_id_def find_None_iff filter_id_conv)
  then show ?thesis
    by (auto simp: map_errS_def stmt_op_def delete_credentials_def credential_by_id_filter)
qed

lemma credential_by_id_add:
  "credential_by_id (uc_ID row) (d\<lparr>db_credentials := db_credentials d @ [row]\<rparr>) =
    (case credential_by_id (uc_ID row) d of None \<Rightarrow> Some row | Some c \<Rightarrow> Some c)"
proof -
  have "find P (xs @ [row]) = (case find P xs of None \<Rightarrow> if P row then Some row else None | Some c \<Rightarrow> Some c)" for P xs
    by (induction xs) auto
  then show ?thesis by (simp add: credential_by_id_def split: option.split)
qed

lemma credential_by_id_change:
  "credential_by_id i (d\<lparr>db_credentials := map (\<lambda>x. if uc_ID x = i then set_credential c now x else x) (db_credentials d)\<rparr>) =
    map_option (set_credential c now) (credential_by_id i d)"
  using find_map_same [of "\<lambda>x. uc_ID x = i" "set_credential c now"] by (simp add: credential_by_id_def)

lemma credential_by_id_none: "credential_by_id i d = None \<longleftrightarrow> i \<notin> uc_ID ` set (db_credentials d)"
  by (auto simp: credential_by_id_def find_None_iff)

lemma insert_deletion_op:
  assumes "translates tr e nu"
  shows "map_errS tr (stmt_op (insert_deletion e \<lparr>dl_ID = u, dl_ProfileID = i, dl_Source = s, dl_Reason = ''subject_request'',
      dl_ExternalRef = ref, dl_DeletedAt = now\<rparr>)) d =
    (if u \<in> dl_ID ` set (db_deletions d) then (Inl ErrAlreadyExists, d)
     else (Inr (), d\<lparr>db_deletions := db_deletions d @ [\<lparr>dl_ID = u, dl_ProfileID = i, dl_Source = s,
       dl_Reason = ''subject_request'', dl_ExternalRef = ref, dl_DeletedAt = now\<rparr>]\<rparr>))"
proof -
  have "first_failed (deletion_checks \<lparr>dl_ID = u, dl_ProfileID = i, dl_Source = s, dl_Reason = ''subject_request'',
      dl_ExternalRef = ref, dl_DeletedAt = now\<rparr>) = None"
    by (simp add: deletion_checks_def all_hold_def)
  then show ?thesis using translates_simps(2) [OF assms]
    by (simp add: map_errS_def stmt_op_def insert_deletion_def del: first_failed_None)
qed

lemma filter_profiles_none: "filter (\<lambda>p. up_ID p = i) (db_profiles d) = [] \<longleftrightarrow> profile_by_id i d = None"
  by (auto simp: profile_by_id_def find_None_iff filter_empty_conv)

lemma credential_row_sel [simp]: "uc_ID (credential_row u i now c) = u" "uc_MethodID (credential_row u i now c) = uc_MethodID c"
  by (simp_all add: credential_row_def)

text \<open>The two statements after the method check.\<close>

lemma insert_credential_known:
  assumes "translates tr e nu" "speaks di e nu" "spec_method c d = Inr ()"
  shows "map_errS tr (stmt_op (insert_credential e (credential_row u i now c))) d =
    (if all_hold (credential_checks (credential_row u i now c)) \<and> u \<in> uc_ID ` set (db_credentials d) then (Inl ErrAlreadyExists, d)
     else case spec_credential di (credential_row u i now c) (db_credentials d) d of
       Inl err \<Rightarrow> (Inl err, d)
     | Inr _ \<Rightarrow> (Inr (), d\<lparr>db_credentials := db_credentials d @ [credential_row u i now c]\<rparr>))"
  using insert_credential_op [OF assms(1,2), of "credential_row u i now c" d] spec_method_known [OF assms(3)] by simp

lemma update_credential_known:
  assumes "translates tr e nu" "speaks di e nu" "spec_method c d = Inr ()"
  shows "map_errS tr (stmt_op (update_credential e i (set_credential c now))) d =
    (case credential_by_id i d of
       None \<Rightarrow> (Inr None, d)
     | Some old \<Rightarrow>
         (case spec_credential di (set_credential c now old) (filter (\<lambda>x. uc_ID x \<noteq> i) (db_credentials d)) d of
            Inl err \<Rightarrow> (Inl err, d)
          | Inr _ \<Rightarrow> (Inr (Some (set_credential c now old)),
              d\<lparr>db_credentials := map (\<lambda>x. if uc_ID x = i then set_credential c now x else x) (db_credentials d)\<rparr>)))"
  using update_credential_op [OF assms(1,2), of "set_credential c now" d i] spec_method_known [OF assms(3)] by simp

lemma credential_added:
  assumes "u \<notin> uc_ID ` set (db_credentials d)"
  shows "credential_by_id u (d\<lparr>db_credentials := db_credentials d @ [credential_row u i now c]\<rparr>) = Some (credential_row u i now c)"
  using credential_by_id_add [of "credential_row u i now c" d] credential_by_id_none [of u d] assms by simp

lemma spec_credential_holds: "\<not> all_hold (credential_checks c) \<Longrightarrow> spec_credential di c cs d \<noteq> Inr x"
  by (auto simp: spec_credential_def split: option.split simp flip: first_failed_None)

end
