(* ===== verification/RepositoryBackends.thy ===== *)
theory RepositoryBackends
  imports Repository
begin

section \<open>Both backends implement the repository contract\<close>

text \<open>
  Operation by operation: with a reachable database the SQLite code and the PostgreSQL code, retries and transactions
  included, erase to the contract of theory Repository.
\<close>

subsection \<open>SQLite\<close>

definition sqlite_dialect :: "env \<Rightarrow> dialect" where
  "sqlite_dialect e = \<lparr>di_toUpper = en_toUpper e, di_lower = en_lower e, di_stamp = en_stamp e,
     di_row_ok = (\<lambda>p. all_hold (profile_checks e p)), di_matches = query_matches e, di_fk = en_fk e,
     di_no_user = ErrInvalidMethod\<rparr>"

lemma sqlite_dialect_sel [simp]:
  "di_toUpper (sqlite_dialect e) = en_toUpper e" "di_lower (sqlite_dialect e) = en_lower e"
  "di_stamp (sqlite_dialect e) = en_stamp e" "di_row_ok (sqlite_dialect e) p = all_hold (profile_checks e p)"
  "di_matches (sqlite_dialect e) = query_matches e" "di_fk (sqlite_dialect e) = en_fk e"
  "di_no_user (sqlite_dialect e) = ErrInvalidMethod"
  by (simp_all add: sqlite_dialect_def)

lemma scan_row_run: "scan_row e f = run_stmt e f"
  unfolding scan_row_def run_stmt_def
  by (rule arg_cong2 [where f = map_errS]) (auto simp: fun_eq_iff sqlite_translateError_def)

lemma select_one_op: "tr ErrNoRows = ErrNotFound \<Longrightarrow> map_errS tr (stmt_op (select_one g)) d = stmt_op (fetch g id) d"
  by (simp add: map_errS_def stmt_op_def select_one_def fetch_def split: option.splits)

lemma select_op: "map_errS tr (stmt_op (select_stmt g)) d = (Inr (g d), d)" "stmt_op (select_stmt g) d = (Inr (g d), d)"
  by (simp_all add: map_errS_def stmt_op_def select_stmt_def)

lemmas op_defs = answer_def Let_def scan_row_run run_stmt_def rows_err_def page_reply_def

lemma sqlite_no_rows: "sqlite_translateError ErrNoRows = ErrNotFound"
  by (simp add: sqlite_translateError_def)

lemmas contract_simps = fun_eq_iff bindS_def require_def fetch_def stmt_op_def select_stmt_def select_op(1) select_one_op insert_profile_op update_profile_op
  upsert_profile_op delete_profile_op profile_by_id_add profile_by_id_change

lemma sqlite_speaks: "speaks (sqlite_dialect e) e ErrInvalidMethod"
  by (simp add: speaks_def)

lemma sqlite_reads:
  assumes "calm e t u"
  shows "erases (sqlite_call e (GetProfile i)) (stmt_op (spec_call (sqlite_dialect e) t u (GetProfile i)))"
    and "erases (sqlite_call e (SearchProfiles q)) (stmt_op (spec_call (sqlite_dialect e) t u (SearchProfiles q)))"
    and "erases (sqlite_call e (GetByUsername n)) (stmt_op (spec_call (sqlite_dialect e) t u (GetByUsername n)))"
    and "erases (sqlite_call e (ListByUserID i)) (stmt_op (spec_call (sqlite_dialect e) t u (ListByUserID i)))"
    and "erases (sqlite_call e (GetMethod i)) (stmt_op (spec_call (sqlite_dialect e) t u (GetMethod i)))"
    and "erases (sqlite_call e (GetMethodByName n)) (stmt_op (spec_call (sqlite_dialect e) t u (GetMethodByName n)))"
    and "erases (sqlite_call e (ListMethods a)) (stmt_op (spec_call (sqlite_dialect e) t u (ListMethods a)))"
  unfolding sqlite_call.simps op_defs sqlite_Get_def sqlite_Search_def sqlite_GetByUsername_def sqlite_ListByUserID_def
    sqlite_GetMethod_def sqlite_GetMethodByName_def sqlite_ListMethods_def
  by (rule erases_eq, (rule erase_rules assms(1))+,
      simp add: contract_simps sqlite_no_rows spec_page_def page_rows_def ordered_rows_def matching_rows_def same_username_def [abs_def] Let_def
        split: sum.splits option.splits)+

lemma sqlite_profile_writes:
  assumes "calm e t u" "en_violation e = sqlite_violation" "ValidateID u = Inr ()"
  shows "erases (sqlite_call e (CreateProfile p)) (stmt_op (spec_call (sqlite_dialect e) t u (CreateProfile p)))"
    and "erases (sqlite_call e (UpdateProfile p)) (stmt_op (spec_call (sqlite_dialect e) t u (UpdateProfile p)))"
    and "erases (sqlite_call e (UpsertProfile p)) (stmt_op (spec_call (sqlite_dialect e) t u (UpsertProfile p)))"
    and "erases (sqlite_call e (RemoveProfile i)) (stmt_op (spec_call (sqlite_dialect e) t u (RemoveProfile i)))"
proof -
  note tr = sqlite_translates [OF assms(2)]
  have row: "up_ID (profile_row i now p) = i" for i now p by (simp add: profile_row_def)
  have add: "i \<notin> up_ID ` set (db_profiles d) \<Longrightarrow> profile_by_id i (add_profile (profile_row i now q) d) = Some (profile_row i now q)"
    for i now q d using profile_by_id_add [of "profile_row i now q" d] profile_by_id_none [of i d] by (simp add: row)
  have add': "profile_by_id i (add_profile (profile_row i now q) d) =
      (case profile_by_id i d of None \<Rightarrow> Some (profile_row i now q) | Some p \<Rightarrow> Some p)" for i now q d
    using profile_by_id_add [of "profile_row i now q" d] by (simp add: row)
  show "erases (sqlite_call e (CreateProfile p)) (stmt_op (spec_call (sqlite_dialect e) t u (CreateProfile p)))"
    unfolding sqlite_call.simps op_defs sqlite_Create_def sqlite_Get_def
    by (rule erases_eq, (rule erase_rules assms(1))+)
      (auto simp: contract_simps sqlite_no_rows insert_profile_op [OF tr] assms(3) add row Let_def
        split: sum.splits option.splits)
  show "erases (sqlite_call e (UpdateProfile p)) (stmt_op (spec_call (sqlite_dialect e) t u (UpdateProfile p)))"
    unfolding sqlite_call.simps op_defs sqlite_Update_def sqlite_Get_def
    by (rule erases_eq, (rule erase_rules assms(1))+)
      (auto simp: contract_simps sqlite_no_rows update_profile_op [OF tr] NormalizeProfileForWrite_def Let_def
        split: sum.splits option.splits)
  show "erases (sqlite_call e (UpsertProfile p)) (stmt_op (spec_call (sqlite_dialect e) t u (UpsertProfile p)))"
    unfolding sqlite_call.simps op_defs sqlite_Upsert_def sqlite_Get_def
    by (rule erases_eq, (rule erase_rules assms(1))+)
      (auto simp: contract_simps sqlite_no_rows upsert_profile_op [OF tr] add' NormalizeProfileForWrite_def Let_def
        split: sum.splits option.splits)
  show "erases (sqlite_call e (RemoveProfile i)) (stmt_op (spec_call (sqlite_dialect e) t u (RemoveProfile i)))"
    unfolding sqlite_call.simps op_defs sqlite_Delete_def
    by (rule erases_eq, (rule erase_rules assms(1))+)
      (auto simp: contract_simps filter_profiles_none split: sum.splits option.splits)
qed

lemma sqlite_credential_writes:
  assumes "calm e t u" "en_violation e = sqlite_violation"
  shows "erases (sqlite_call e (CreateCredential c)) (stmt_op (spec_call (sqlite_dialect e) t u (CreateCredential c)))"
    and "erases (sqlite_call e (UpdateCredential c)) (stmt_op (spec_call (sqlite_dialect e) t u (UpdateCredential c)))"
    and "erases (sqlite_call e (DeleteCredential i)) (stmt_op (spec_call (sqlite_dialect e) t u (DeleteCredential i)))"
proof -
  note tr = sqlite_translates [OF assms(2)]
  note ins = insert_credential_known [OF tr sqlite_speaks] and upd = update_credential_known [OF tr sqlite_speaks]
  have check: "erases (validateMethod e (uc_MethodID c) (uc_SecretState c))
      (\<lambda>d. case spec_method c d of Inl err \<Rightarrow> (Inl err, d) | Inr _ \<Rightarrow> (Inr (), d))"
    unfolding validateMethod_def
    by (rule erases_eq, (rule erase_rules assms(1))+) (simp add: fun_eq_iff validate_method_op)
  show "erases (sqlite_call e (CreateCredential c)) (stmt_op (spec_call (sqlite_dialect e) t u (CreateCredential c)))"
    unfolding sqlite_call.simps op_defs sqlite_CreateCredential_def
    by (rule erases_eq, (rule erase_rules check assms(1))+)
      (auto simp: contract_simps sqlite_no_rows ins credential_added spec_credential_holds Let_def split: sum.splits option.splits)
  show "erases (sqlite_call e (UpdateCredential c)) (stmt_op (spec_call (sqlite_dialect e) t u (UpdateCredential c)))"
    unfolding sqlite_call.simps op_defs sqlite_UpdateCredential_def
    by (rule erases_eq, (rule erase_rules check assms(1))+)
      (auto simp: contract_simps sqlite_no_rows upd credential_by_id_change Let_def split: sum.splits option.splits)
  show "erases (sqlite_call e (DeleteCredential i)) (stmt_op (spec_call (sqlite_dialect e) t u (DeleteCredential i)))"
    unfolding sqlite_call.simps op_defs sqlite_DeleteCredential_def
    by (rule erases_eq, (rule erase_rules assms(1))+)
      (auto simp: contract_simps delete_credential_op credential_by_id_filter split: sum.splits option.splits)
qed

lemma sqlite_DeleteProfile_spec:
  assumes "calm e t u" "en_violation e = sqlite_violation"
  shows "erases (sqlite_call e (DeleteProfile i ref)) (stmt_op (spec_call (sqlite_dialect e) t u (DeleteProfile i ref)))"
proof -
  note tr = sqlite_translates [OF assms(2)]
  show ?thesis
    unfolding sqlite_call.simps op_defs sqlite_DeleteProfile_def
    apply (rule erases_eq, (rule erase_rules assms(1))+)
    apply (auto simp: contract_simps insert_deletion_op [OF tr] tx_op_def drop_profile_def filter_profiles_none Let_def split: sum.splits option.splits)
    done
qed

lemma sqlite_implements:
  assumes "calm e t u" "en_violation e = sqlite_violation" "ValidateID u = Inr ()"
  shows "erases (sqlite_call e c) (stmt_op (spec_call (sqlite_dialect e) t u c))"
proof (cases c)
qed (simp_all only: sqlite_reads [OF assms(1)] sqlite_profile_writes [OF assms] sqlite_credential_writes [OF assms(1,2)]
    sqlite_DeleteProfile_spec [OF assms(1,2)])

subsection \<open>PostgreSQL and CockroachDB\<close>

definition pg_dialect :: "env \<Rightarrow> dialect" where
  "pg_dialect e = \<lparr>di_toUpper = en_toUpper e, di_lower = en_lower e, di_stamp = en_stamp e,
     di_row_ok = (\<lambda>p. all_hold (profile_checks e p)), di_matches = pg_query_matches e, di_fk = en_fk e,
     di_no_user = ErrInvalidArgument\<rparr>"

lemma pg_dialect_sel [simp]:
  "di_toUpper (pg_dialect e) = en_toUpper e" "di_lower (pg_dialect e) = en_lower e"
  "di_stamp (pg_dialect e) = en_stamp e" "di_row_ok (pg_dialect e) p = all_hold (profile_checks e p)"
  "di_matches (pg_dialect e) = pg_query_matches e" "di_fk (pg_dialect e) = en_fk e"
  "di_no_user (pg_dialect e) = ErrInvalidArgument"
  by (simp_all add: pg_dialect_def)

text \<open>The ids of a credential are bound to UUID columns: the driver reads them back as they are written.\<close>

fun uuid_arguments :: "repo_call \<Rightarrow> string list" where
  "uuid_arguments (CreateCredential c) = [uc_MethodID c, uc_UserID c]"
| "uuid_arguments (UpdateCredential c) = [uc_MethodID c]"
| "uuid_arguments _ = []"

definition reads_back :: "(string \<Rightarrow> goerr + string) \<Rightarrow> repo_call \<Rightarrow> bool" where
  "reads_back conv c \<longleftrightarrow> list_all (\<lambda>x. conv x = Inr x) (uuid_arguments c)"

lemma pg_scan_run: "pg_scan e f = pg_run e f"
  unfolding pg_scan_def pg_run_def
  by (rule arg_cong2 [where f = map_errS]) (auto simp: fun_eq_iff pg_translateError_def)

lemma pg_no_rows: "pg_translateError ErrNoRows = ErrNotFound"
  by (simp add: pg_translateError_def)

lemma pg_speaks: "speaks (pg_dialect e) e ErrInvalidArgument"
  by (simp add: speaks_def)

lemmas pg_op_defs = answer_def Let_def pg_scan_run pg_run_def rows_err_def page_reply_def

lemma pg_reads:
  assumes "calm (rp_env r) t u"
  shows "erases (pg_call r (GetProfile i)) (stmt_op (spec_call (pg_dialect (rp_env r)) t u (GetProfile i)))"
    and "erases (pg_call r (SearchProfiles q)) (stmt_op (spec_call (pg_dialect (rp_env r)) t u (SearchProfiles q)))"
    and "erases (pg_call r (GetByUsername n)) (stmt_op (spec_call (pg_dialect (rp_env r)) t u (GetByUsername n)))"
    and "erases (pg_call r (ListByUserID i)) (stmt_op (spec_call (pg_dialect (rp_env r)) t u (ListByUserID i)))"
    and "erases (pg_call r (GetMethod i)) (stmt_op (spec_call (pg_dialect (rp_env r)) t u (GetMethod i)))"
    and "erases (pg_call r (GetMethodByName n)) (stmt_op (spec_call (pg_dialect (rp_env r)) t u (GetMethodByName n)))"
    and "erases (pg_call r (ListMethods a)) (stmt_op (spec_call (pg_dialect (rp_env r)) t u (ListMethods a)))"
  unfolding pg_call.simps pg_op_defs pg_Get_def pg_Search_def pg_GetByUsername_def pg_ListByUserID_def
    pg_GetMethod_def pg_GetMethodByName_def pg_ListMethods_def
  by (rule erases_eq, (rule erase_rules assms(1))+,
      simp add: contract_simps pg_no_rows spec_page_def pg_page_def same_username_def [abs_def] Let_def
        split: sum.splits option.splits)+

text \<open>The statements that return what they wrote.\<close>

lemma returning_op:
  "map_errS tr (stmt_op (returning f g)) d =
    (case stmt_op f d of
       (Inl err, d') \<Rightarrow> (Inl (tr err), d')
     | (Inr x, d') \<Rightarrow> (case g d' of None \<Rightarrow> (Inl (tr ErrNoRows), d) | Some y \<Rightarrow> (Inr y, d')))"
  by (simp add: map_errS_def stmt_op_def returning_def split: sum.split option.split prod.split)

lemma returning_map_op:
  "map_errS tr (stmt_op (returning f g)) d =
    (case map_errS tr (stmt_op f) d of
       (Inl err, d') \<Rightarrow> (Inl err, d')
     | (Inr x, d') \<Rightarrow> (case g d' of None \<Rightarrow> (Inl (tr ErrNoRows), d) | Some y \<Rightarrow> (Inr y, d')))"
  unfolding returning_op by (simp add: map_errS_def split: sum.split prod.split)

lemma pg_profile_writes:
  assumes "calm (rp_env r) t u" "en_violation (rp_env r) = pg_violation"
  shows "erases (pg_call r (CreateProfile p)) (stmt_op (spec_call (pg_dialect (rp_env r)) t u (CreateProfile p)))"
    and "erases (pg_call r (UpdateProfile p)) (stmt_op (spec_call (pg_dialect (rp_env r)) t u (UpdateProfile p)))"
    and "erases (pg_call r (UpsertProfile p)) (stmt_op (spec_call (pg_dialect (rp_env r)) t u (UpsertProfile p)))"
    and "erases (pg_call r (RemoveProfile i)) (stmt_op (spec_call (pg_dialect (rp_env r)) t u (RemoveProfile i)))"
proof -
  note tr = pg_translates [OF assms(2)]
  have row: "up_ID (profile_row i now p) = i" for i now p by (simp add: profile_row_def)
  have add: "i \<notin> up_ID ` set (db_profiles d) \<Longrightarrow> profile_by_id i (add_profile (profile_row i now q) d) = Some (profile_row i now q)"
    for i now q d using profile_by_id_add [of "profile_row i now q" d] profile_by_id_none [of i d] by (simp add: row)
  have add': "profile_by_id i (add_profile (profile_row i now q) d) =
      (case profile_by_id i d of None \<Rightarrow> Some (profile_row i now q) | Some p \<Rightarrow> Some p)" for i now q d
    using profile_by_id_add [of "profile_row i now q" d] by (simp add: row)
  note ops = contract_simps returning_map_op pg_no_rows tx_op_def Let_def
  show "erases (pg_call r (CreateProfile p)) (stmt_op (spec_call (pg_dialect (rp_env r)) t u (CreateProfile p)))"
    unfolding pg_call.simps pg_op_defs pg_Create_def
    by (rule erases_eq, (rule erase_rules assms(1))+)
      (auto simp: ops insert_profile_op [OF tr] add row split: sum.splits option.splits if_splits)
  show "erases (pg_call r (UpdateProfile p)) (stmt_op (spec_call (pg_dialect (rp_env r)) t u (UpdateProfile p)))"
    unfolding pg_call.simps pg_op_defs pg_Update_def
    by (rule erases_eq, (rule erase_rules assms(1))+)
      (auto simp: ops update_profile_op [OF tr] NormalizeProfileForWrite_def split: sum.splits option.splits if_splits)
  show "erases (pg_call r (UpsertProfile p)) (stmt_op (spec_call (pg_dialect (rp_env r)) t u (UpsertProfile p)))"
    unfolding pg_call.simps pg_op_defs pg_Upsert_def
    by (rule erases_eq, (rule erase_rules assms(1))+)
      (auto simp: ops upsert_profile_op [OF tr] add' NormalizeProfileForWrite_def split: sum.splits option.splits if_splits)
  show "erases (pg_call r (RemoveProfile i)) (stmt_op (spec_call (pg_dialect (rp_env r)) t u (RemoveProfile i)))"
    unfolding pg_call.simps pg_op_defs pg_Delete_def
    by (rule erases_eq, (rule erase_rules assms(1))+)
      (auto simp: ops filter_profiles_none split: sum.splits option.splits if_splits)
qed

lemma erases_uuid_arg:
  assumes "rp_uuid r x = Inr x"
  shows "erases (uuid_arg r x) (retS x)"
  unfolding uuid_arg_def assms by (rule erasesI) (simp add: map_errS_def)

lemma same_method [simp]: "c\<lparr>uc_MethodID := uc_MethodID c\<rparr> = c"
  by (cases c) simp

lemma pg_credential_writes:
  assumes "calm (rp_env r) t u" "en_violation (rp_env r) = pg_violation"
  shows "reads_back (rp_uuid r) (CreateCredential c) \<Longrightarrow>
      erases (pg_call r (CreateCredential c)) (stmt_op (spec_call (pg_dialect (rp_env r)) t u (CreateCredential c)))"
    and "reads_back (rp_uuid r) (UpdateCredential c) \<Longrightarrow>
      erases (pg_call r (UpdateCredential c)) (stmt_op (spec_call (pg_dialect (rp_env r)) t u (UpdateCredential c)))"
    and "erases (pg_call r (DeleteCredential i)) (stmt_op (spec_call (pg_dialect (rp_env r)) t u (DeleteCredential i)))"
proof -
  note tr = pg_translates [OF assms(2)]
  note ins = insert_credential_known [OF tr pg_speaks] and upd = update_credential_known [OF tr pg_speaks]
  note ops = contract_simps returning_map_op pg_no_rows tx_op_def Let_def
  have check: "rp_uuid r (uc_MethodID c) = Inr (uc_MethodID c) \<Longrightarrow>
    erases (pg_validateMethod r (uc_MethodID c) (uc_SecretState c))
      (\<lambda>d. case spec_method c d of Inl err \<Rightarrow> (Inl err, d) | Inr _ \<Rightarrow> (Inr (), d))"
    unfolding pg_validateMethod_def
    by (rule erases_eq, (rule erases_uuid_arg erase_rules assms(1) | assumption)+) (simp add: fun_eq_iff validate_method_op)
  show "erases (pg_call r (CreateCredential c)) (stmt_op (spec_call (pg_dialect (rp_env r)) t u (CreateCredential c)))"
    if "reads_back (rp_uuid r) (CreateCredential c)"
  proof -
    from that have m: "rp_uuid r (uc_MethodID c) = Inr (uc_MethodID c)" and v: "rp_uuid r (uc_UserID c) = Inr (uc_UserID c)"
      by (simp_all add: reads_back_def)
    show ?thesis
      unfolding pg_call.simps pg_op_defs pg_CreateCredential_def pg_insert_credential_def
      by (rule erases_eq, (rule erase_rules check [OF m] erases_uuid_arg [OF m] erases_uuid_arg [OF v] assms(1))+)
        (auto simp: ops ins credential_added spec_credential_holds split: sum.splits option.splits)
  qed
  show "erases (pg_call r (UpdateCredential c)) (stmt_op (spec_call (pg_dialect (rp_env r)) t u (UpdateCredential c)))"
    if "reads_back (rp_uuid r) (UpdateCredential c)"
  proof -
    from that have m: "rp_uuid r (uc_MethodID c) = Inr (uc_MethodID c)" by (simp add: reads_back_def)
    show ?thesis
      unfolding pg_call.simps pg_op_defs pg_UpdateCredential_def
      by (rule erases_eq, (rule erase_rules check [OF m] erases_uuid_arg [OF m] assms(1))+)
        (auto simp: ops upd credential_by_id_change split: sum.splits option.splits)
  qed
  show "erases (pg_call r (DeleteCredential i)) (stmt_op (spec_call (pg_dialect (rp_env r)) t u (DeleteCredential i)))"
    unfolding pg_call.simps pg_op_defs pg_DeleteCredential_def
    by (rule erases_eq, (rule erase_rules assms(1))+)
      (auto simp: ops delete_credential_op credential_by_id_filter split: sum.splits option.splits)
qed

lemma delete_returning_op:
  assumes "tr ErrNoRows = ErrNotFound"
  shows "map_errS tr (stmt_op (delete_returning_source e i)) d =
    (case profile_by_id i d of
       None \<Rightarrow> (Inl ErrNotFound, d)
     | Some p \<Rightarrow> (Inr (up_Source p), drop_profile (en_fk e) i d))"
proof -
  have "delete_returning_source e i d =
    (case map_errS id (stmt_op (delete_profiles e (\<lambda>p. up_ID p = i))) d of
       (Inr (p # ps), d') \<Rightarrow> Inr (up_Source p, d') | _ \<Rightarrow> Inl ErrNoRows)"
    by (auto simp: delete_returning_source_def map_errS_def stmt_op_def delete_profiles_def Let_def split: list.splits)
  then show ?thesis
    using assms filter_found [of i d]
    by (auto simp: map_errS_def stmt_op_def delete_profile_op [unfolded map_errS_def stmt_op_def] delete_profile_op split: option.splits)
qed

lemma pg_DeleteProfile_spec:
  assumes "calm (rp_env r) t u" "en_violation (rp_env r) = pg_violation"
  shows "erases (pg_call r (DeleteProfile i ref)) (stmt_op (spec_call (pg_dialect (rp_env r)) t u (DeleteProfile i ref)))"
  unfolding pg_call.simps pg_op_defs pg_DeleteProfile_def
  by (rule erases_eq, (rule erase_rules assms(1))+)
    (auto simp: contract_simps pg_no_rows tx_op_def delete_returning_op insert_deletion_op [OF pg_translates [OF assms(2)]]
      drop_profile_def Let_def split: sum.splits option.splits)

lemma pg_implements:
  assumes "calm (rp_env r) t u" "en_violation (rp_env r) = pg_violation" "reads_back (rp_uuid r) c"
  shows "erases (pg_call r c) (stmt_op (spec_call (pg_dialect (rp_env r)) t u c))"
  using assms(3)
proof (cases c)
qed (simp_all only: pg_reads [OF assms(1)] pg_profile_writes [OF assms(1,2)] pg_credential_writes [OF assms(1,2)]
    pg_DeleteProfile_spec [OF assms(1,2)])

end
