(* ===== verification/ClientTypes.thy ===== *)
theory ClientTypes
  imports ClientStoreSpec TokenHandler
begin

section \<open>The constraints of oauth_client and what the store reads\<close>

text \<open>
  The CHECK constraints of migrations/issuer/00001_initial_schema.sql on one row, and the text in which PostgreSQL hands a
  \<open>TEXT[]\<close> to the driver: an element is quoted when it is empty, is the word NULL, or contains array syntax, a quote, a
  backslash or white space.
\<close>

definition sql_trim :: "string \<Rightarrow> string" where
  "sql_trim s = rev (dropWhile (\<lambda>c. c = CHR '' '') (rev (dropWhile (\<lambda>c. c = CHR '' '') s)))"

definition array_quoted :: "string \<Rightarrow> bool" where
  "array_quoted e \<longleftrightarrow> e = [] \<or> ascii_upper e = ''NULL'' \<or>
     contains_any e ([CHR ''{'', CHR ''}'', CHR '','', CHR 0x22, CHR 0x5C, CHR '' ''] @ map char_of [9 ..< 14 :: nat])"

definition array_element :: "string \<Rightarrow> string" where
  "array_element e =
     (if array_quoted e
      then CHR 0x22 # concat (map (\<lambda>c. if c = CHR 0x22 \<or> c = CHR 0x5C then [CHR 0x5C, c] else [c]) e) @ [CHR 0x22]
      else e)"

definition array_out :: "string list \<Rightarrow> string" where
  "array_out es = CHR ''{'' # join_with CHR '','' (map array_element es) @ ''}''"

definition id_char :: "char \<Rightarrow> bool" where
  "id_char c \<longleftrightarrow> is_digit c \<or> 65 \<le> byte c \<and> byte c \<le> 90 \<or> 97 \<le> byte c \<and> byte c \<le> 122 \<or> c \<in> {CHR ''.'', CHR ''_'', CHR ''-''}"

text \<open>A row whose one granted scope is \<open>scope\<close>.\<close>

definition client_checks :: "oauth_client \<Rightarrow> string \<Rightarrow> bool" where
  "client_checks r scope \<longleftrightarrow>
     list_all id_char (oc_client_id r) \<and> 8 \<le> length (oc_client_id r) \<and> length (oc_client_id r) \<le> 64 \<and>
     sql_trim (oc_name r) \<noteq> [] \<and>
     oc_secret_state r \<in> {''none'', ''set'', ''revoked''} \<and>
     (oc_secret_state r = ''set'' \<and> oc_secret_hash r \<noteq> None \<or> oc_secret_state r \<in> {''none'', ''revoked''} \<and> oc_secret_hash r = None) \<and>
     oc_granted_scopes r = array_out [scope] \<and> sql_trim scope \<noteq> [] \<and>
     sql_trim (oc_audience r) \<noteq> [] \<and>
     oc_status r \<in> {''active'', ''disabled''}"

definition clients_typed :: "oauth_client list \<Rightarrow> bool" where
  "clients_typed rows \<longleftrightarrow> distinct (map oc_client_id rows) \<and> (\<forall>r \<in> set rows. \<exists>scope. client_checks r scope)"

lemma array_one: "array_out [e] = CHR ''{'' # array_element e @ ''}''"
  by (simp add: array_out_def)

lemma join_set: "c \<in> set (join_with d es) \<Longrightarrow> c = d \<or> (\<exists>e \<in> set es. c \<in> set e)"
  by (induction d es rule: join_with.induct) auto

lemma parse_one:
  assumes "e \<noteq> []"
  shows "parsePostgresTextArray (array_out [e]) = Inr es \<longleftrightarrow> \<not> array_quoted e \<and> es = [e]"
proof
  assume p: "parsePostgresTextArray (array_out [e]) = Inr es"
  then have es: "list_all plain_element es" "array_element e @ ''}'' = join_with CHR '','' es @ ''}''"
    by (simp_all add: text_array_exact array_one)
  have "CHR 0x22 \<notin> set (join_with CHR '','' es)"
    using es(1) join_set [of "CHR 0x22" "CHR '',''" es] by (auto simp: plain_element_def list_all_iff)
  moreover have "CHR 0x22 \<in> set (array_element e)" if "array_quoted e" using that by (simp add: array_element_def)
  ultimately have q: "\<not> array_quoted e" using es(2) by auto
  then have "e = join_with CHR '','' es" using es(2) by (simp add: array_element_def)
  moreover have "CHR '','' \<notin> set e" using q by (auto simp: array_quoted_def contains_any_def list_ex_iff)
  ultimately have "es = [e]" using assms by (cases es; cases "tl es") auto
  with q show "\<not> array_quoted e \<and> es = [e]" by simp
next
  assume "\<not> array_quoted e \<and> es = [e]"
  then show "parsePostgresTextArray (array_out [e]) = Inr es"
    by (auto simp: text_array_exact array_one array_element_def plain_element_def array_quoted_def contains_any_def list_ex_iff)
qed


definition typed_client :: oauth_client where
  "typed_client = \<lparr>oc_client_id = ''svc-qa-1'', oc_name = ''QA'', oc_secret_hash = None, oc_secret_state = ''none'',
     oc_granted_scopes = ''{profile:search}'', oc_audience = ''loginid-api-service'', oc_status = ''active''\<rparr>"

lemma typed_client_checks: "client_checks typed_client ScopeSearch"
proof -
  have "array_out [ScopeSearch] = ''{profile:search}''" by code_simp
  then show ?thesis
    by (simp add: client_checks_def typed_client_def id_char_def is_digit_def byte_def sql_trim_def ScopeSearch_def)
qed


end
