(* ===== verification/SweepPostgres.thy ===== *)
theory SweepPostgres
  imports SweepBatch PostgresSpec
begin

section \<open>The retention sweep on the PostgreSQL repository\<close>

text \<open>
  The one-statement batch of \<open>pg_DeleteExpired\<close> does what the loop of the SQLite repository does, so it meets the
  same contract and the sweep gives the same guarantee, under the retry loop too.
\<close>

lemma insert_deletions_Inr:
  "insert_deletions e rows d = Inr (u, d') \<Longrightarrow> d' = d\<lparr>db_deletions := db_deletions d @ rows\<rparr>"
proof (induction rows arbitrary: d)
  case (Cons x rows)
  obtain d1 where "insert_deletion e x d = Inr ((), d1)" "insert_deletions e rows d1 = Inr (u, d')"
    using Cons.prems by (auto split: sum.splits)
  then show ?case using Cons.IH insert_deletion_Inr by fastforce
qed simp

lemma map2_snd: "length ys \<le> length xs \<Longrightarrow> map2 (\<lambda>_ y. f y) xs ys = map f ys"
proof -
  assume "length ys \<le> length xs"
  then have "map f (map snd (zip xs ys)) = map f ys" by (simp add: map_snd_zip_take)
  then show ?thesis by (simp add: case_prod_beta' comp_def)
qed

lemma filter_in_take: "distinct ps \<Longrightarrow> filter (\<lambda>p. p \<in> set (take k (filter Q ps))) ps = take k (filter Q ps)"
proof (induction ps arbitrary: k)
  case (Cons a ps)
  have a: "a \<notin> set (take k (filter Q ps))" for k using Cons.prems by (auto dest: in_set_takeD)
  show ?case
  proof (cases "Q a")
    case False
    then show ?thesis using Cons a by simp
  next
    case True
    show ?thesis
    proof (cases k)
      case (Suc m)
      have "filter (\<lambda>p. p = a \<or> p \<in> set (take m (filter Q ps))) ps = filter (\<lambda>p. p \<in> set (take m (filter Q ps))) ps"
        by (rule filter_cong) (use Cons.prems in auto)
      then show ?thesis using Suc True Cons by simp
    qed simp
  qed
qed simp

lemma sweep_stmt_batch:
  assumes "clockColumnFor c = Some (clock, extra)" "db_wf e d" "length uuids = nat n" "1 \<le> n"
    and s: "sweep_stmt e c clock extra (en_stamp e t) n uuids now d = Inr ((examined, deleted), d')"
  shows "swept_batch e c t n \<lparr>RowsExamined = examined, RowsDeleted = deleted, OldestSurvivingAt = old,
    Drained = (examined < n)\<rparr> d d'"
proof -
  let ?x = "expired clock extra (en_stamp e t) d"
  define cand where "cand = take (nat n) (filter ?x (db_profiles d))"
  have x: "?x = (\<lambda>p. extra d p \<and> clock p < en_stamp e t)" by (rule ext) (simp add: expired_def)
  define row where "row = (\<lambda>u (p::user_profile). \<lparr>dl_ID = u, dl_ProfileID = up_ID p, dl_Source = class_string c,
              dl_Reason = ''retention_sweep'', dl_ExternalRef = None, dl_DeletedAt = now\<rparr>)"
  let ?P = "\<lambda>p. up_ID p \<in> set (map up_ID cand) \<and> extra d p \<and> clock p < en_stamp e t"
  obtain removed d1 where del: "delete_profiles e ?P d = Inr (removed, d1)"
    and ins: "insert_deletions e (map2 row uuids removed) d1 = Inr ((), d')"
    and n: "examined = int (length cand)" "deleted = int (length removed)"
    using s unfolding sweep_stmt_def Let_def row_def cand_def x by (auto split: sum.splits prod.splits)
  have inj: "p = q" if "p \<in> set (db_profiles d)" "q \<in> set (db_profiles d)" "up_ID p = up_ID q" for p q
    using assms(2) that by (auto simp: db_wf_def distinct_map inj_on_def)
  have cin: "p \<in> set (db_profiles d) \<and> ?x p" if "p \<in> set cand" for p
    using that by (auto simp: cand_def dest: in_set_takeD)
  have P: "?P p \<longleftrightarrow> p \<in> set cand" if "p \<in> set (db_profiles d)" for p
    using that cin inj by (auto simp: expired_def)
  have "distinct (db_profiles d)" using assms(2) by (auto simp: db_wf_def distinct_map)
  then have "filter (\<lambda>p. p \<in> set cand) (db_profiles d) = cand" unfolding cand_def by (rule filter_in_take)
  moreover have "filter ?P (db_profiles d) = filter (\<lambda>p. p \<in> set cand) (db_profiles d)"
    by (rule filter_cong) (use P in simp_all)
  ultimately have gone: "filter ?P (db_profiles d) = cand" by simp
  have keep: "filter (\<lambda>p. \<not> ?P p) (db_profiles d) = filter (\<lambda>p. up_ID p \<notin> up_ID ` set cand) (db_profiles d)"
  proof (rule filter_cong)
    fix p assume p: "p \<in> set (db_profiles d)"
    have "up_ID p \<in> up_ID ` set cand \<longleftrightarrow> p \<in> set cand" using p inj cin by auto
    then show "(\<not> ?P p) = (up_ID p \<notin> up_ID ` set cand)" using P [OF p] by blast
  qed simp
  have d1: "removed = cand" "d1 = without e (up_ID ` set cand) d"
    using del unfolding delete_profiles_def Let_def gone keep by (auto simp: without_def)
  define log where "log = map2 row uuids cand"
  have len: "length cand \<le> length uuids" using assms(3) by (simp add: cand_def)
  have ids: "map dl_ProfileID log = map up_ID cand"
    using map2_snd [OF len, of up_ID] by (simp add: log_def row_def comp_def case_prod_beta')
  have "list_all (logged c) log" by (auto simp: log_def row_def logged_def list_all_iff)
  moreover have "length log = length cand" using ids by (metis length_map)
  moreover have "d' = (without e (set (map dl_ProfileID log)) d)\<lparr>db_deletions := db_deletions d @ log\<rparr>"
    using insert_deletions_Inr [OF ins] by (simp add: d1 ids log_def [symmetric])
  ultimately show ?thesis
    using assms(1,4) ids n d1(1) unfolding swept_batch_def
    by (intro exI [of _ clock] exI [of _ extra] exI [of _ log]) (simp add: cand_def)
qed

lemma pg_DeleteExpired_batch:
  assumes "db_wf (rp_env r) (st_db s)" "pg_DeleteExpired r c t n s = (Inr b, s')"
  shows "swept_batch (rp_env r) c t n b (st_db s) (st_db s')"
proof -
  let ?e = "rp_env r"
  obtain clock extra where c: "clockColumnFor c = Some (clock, extra)" and n: "1 \<le> n"
    using assms(2) by (auto simp: pg_DeleteExpired_def split: if_splits option.splits)
  let ?fn = "bindS (now_text ?e) (\<lambda>now. bindS (get_uuids ?e (nat n)) (\<lambda>uuids.
     bindS (pg_run ?e (sweep_stmt ?e c clock extra (en_stamp ?e t) n uuids now)) (\<lambda>(examined, deleted).
     bindS (pg_run ?e (select_stmt (\<lambda>d. min_clock clock (filter (extra d) (db_profiles d))))) (\<lambda>oldest.
     retS \<lparr>RowsExamined = examined, RowsDeleted = deleted, OldestSurvivingAt = oldest, Drained = (examined < n)\<rparr>))))"
  have "withRetry r ?fn s = (Inr b, s')"
    using assms(2) c by (auto simp: pg_DeleteExpired_def Let_def split: if_splits)
  then obtain s1 s2 where f: "st_db s1 = st_db s" "?fn s1 = (Inr b, s2)" "st_db s' = st_db s2"
    by (cases rule: withRetry_cases) auto
  obtain now s3 uuids s4 examined deleted s5 oldest where st: "now_text ?e s1 = (Inr now, s3)"
      "get_uuids ?e (nat n) s3 = (Inr uuids, s4)"
      "pg_run ?e (sweep_stmt ?e c clock extra (en_stamp ?e t) n uuids now) s4 = (Inr (examined, deleted), s5)"
      "pg_run ?e (select_stmt (\<lambda>d. min_clock clock (filter (extra d) (db_profiles d)))) s5 = (Inr oldest, s2)"
    and b: "b = \<lparr>RowsExamined = examined, RowsDeleted = deleted, OldestSurvivingAt = oldest, Drained = (examined < n)\<rparr>"
    using f(2) by (auto simp: bindS_eq_Inr)
  have u: "length uuids = nat n" "st_db s4 = st_db s"
    using st(2) now_text_D [OF st(1)] f(1) by (auto simp: get_uuids_def)
  have "st_db s2 = st_db s5" using pg_run_InrD [OF st(4)] by (simp add: select_Inr)
  then show ?thesis
    using sweep_stmt_batch [OF c _ u(1) n, of ?e "st_db s"] assms(1) pg_run_InrD [OF st(3)] u(2) f(3) b by simp
qed

interpretation pg_batches: batch_deleter "rp_env r" "pg_DeleteExpired r" for r
proof unfold_locales
  show "db_keeps (db_wf (rp_env r)) (pg_DeleteExpired r c t n)" for c t n by (rule keeps_pg_DeleteExpired)
  show "swept_batch (rp_env r) c t n b (st_db s) (st_db s')"
    if "db_wf (rp_env r) (st_db s)" "pg_DeleteExpired r c t n s = (Inr b, s')" for c t n s b s'
    using that by (rule pg_DeleteExpired_batch)
  show "st_db s' = st_db s" if "pg_DeleteExpired r c t n s = (Inl err, s')" for c t n s err s'
    using that all_or_nothing_DeleteExpired [of r c t n] by (auto simp: all_or_nothing_def split: prod.splits sum.splits)
qed

interpretation pg_sweep: expiry_sweeper "store_sweeper (pg_DeleteExpired r)" swept_db "db_wf (rp_env r)"
    "\<lambda>d. length (db_profiles d)" "stale_rows (rp_env r)" "swept (rp_env r)" for r
  by (rule pg_batches.sweeper)

text \<open>
  C16. The sweep over the PostgreSQL repository terminates and does what retention promises, whatever statements
  fail and are retried: one result per class; no row older than the cutoff is left in a drained class; and only
  expired rows were removed, each logged exactly once.
\<close>
theorem pg_sweep_removes_what_expired:
  assumes "leaves_alone swept_db d" "se_repo d = store_sweeper (pg_DeleteExpired r)" "db_wf (rp_env r) (swept_db w)"
  shows "\<exists>rs w'. Run d now k w = Some (rs, w') \<and> map cr_Class rs = allClasses \<and>
    list_all (class_outcome (stale_rows (rp_env r)) now (swept_db w')) rs \<and>
    swept (rp_env r) (cutoffFor now) (swept_db w) (swept_db w') \<and> db_wf (rp_env r) (swept_db w')"
  using pg_sweep.Run_ends [OF assms] by blast

definition quiet_pg :: pg_repo where
  "quiet_pg = \<lparr>rp_env = pg_env (\<lambda>n. int n * second) (\<lambda>n. ''0b8f5a5e-0000-4000-8000-00000000000'' @ utoa n)
     (\<lambda>_. None) ascii_upper ascii_lower ascii_upper, rp_engine = engineCockroach, rp_uuid = Inr\<rparr>"

definition quiet_pg_sweep :: "(store \<times> unit) sweep_env" where
  "quiet_pg_sweep = \<lparr>se_ctx_Err = (\<lambda>w. (None, w)), se_now = (\<lambda>w. (0, w)), se_repo = store_sweeper (pg_DeleteExpired quiet_pg),
     se_emit = None, se_recorder = None\<rparr>"

theorem pg_sweep_removes_what_expired_witness:
  "\<exists>rs w'. Run quiet_pg_sweep (1000 * 365 * 24 * hour) 0 (\<lparr>st_db = old_and_fresh, st_tick = 0\<rparr>, ()) = Some (rs, w') \<and>
    map cr_Class rs = allClasses"
proof -
  have "leaves_alone swept_db quiet_pg_sweep" by (simp add: leaves_alone_def quiet_pg_sweep_def)
  moreover have "se_repo quiet_pg_sweep = store_sweeper (pg_DeleteExpired quiet_pg)" by (simp add: quiet_pg_sweep_def)
  moreover have "db_wf (rp_env quiet_pg) (swept_db (\<lparr>st_db = old_and_fresh, st_tick = 0\<rparr>, ()))"
    by (simp add: swept_db_def db_wf_def old_and_fresh_def named_profile_def quiet_pg_def pg_env_def credential_refs_def
      profile_checks_def all_hold_def opt_ok_def sql_nonempty_def c_str_def sql_length_def sql_trim_def byte_def)
  ultimately show ?thesis using pg_sweep_removes_what_expired by blast
qed

end
