(* ===== verification/EndToEnd.thy ===== *)
theory EndToEnd
  imports Issuer
begin

section \<open>Issuer and verifier together\<close>

text \<open>
  A token that the issuer answers is accepted by the verifier that read the issuer's key document, for the same
  subject and scope, until it expires. The JWT library is again a parameter: \<open>sign_ok\<close> says that what it signs
  it decodes and verifies under the matching public key, \<open>jwt_lib_complete\<close> that it accepts what meets its checks.
\<close>

definition sign_ok :: "'k issuer_lib \<Rightarrow> 's jwt_lib \<Rightarrow> bool" where
  "sign_ok lib L \<longleftrightarrow> (\<forall>k h c tok. il_sign lib k h c = Inr tok \<longrightarrow>
     jl_header L tok = Some h \<and> jl_claims L tok = Some c \<and> jl_verifies L (rk_Public k) tok)"

definition jwt_lib_complete :: "'s jwt_lib \<Rightarrow> 's jwt_parse \<Rightarrow> bool" where
  "jwt_lib_complete L parse \<longleftrightarrow> (\<forall>algs iss kf tok s h c key s1.
     jl_header L tok = Some h \<and> jl_claims L tok = Some c \<and> jh_alg h \<in> set algs \<and> kf h s = (Inr key, s1) \<and>
     jl_verifies L key tok \<and> (iss = [] \<or> cl_Issuer c = iss) \<and> unexpired c (jl_now L s1)
     \<longrightarrow> parse algs iss kf tok s = (Inr (c, True), s1))"

lemma lib_parse_complete: "jwt_lib_complete L (lib_parse L)"
  by (auto simp: jwt_lib_complete_def lib_parse_def)

text \<open>The key document of the issuer, as the verifier reads it, and a verifier whose key source answers from it.\<close>

definition reads_document :: "'k signing_key \<Rightarrow> 's jwt_verifier \<Rightarrow> ctx \<Rightarrow> 's \<Rightarrow> 's \<Rightarrow> bool" where
  "reads_document key v cx s s1 \<longleftrightarrow> (\<exists>keys pk. parseJWKS (Doc (jwks_json (SigningKey_JWKS key))) = Inr keys \<and>
     keys (sk_Kid key) = Some pk \<and> jv_keys v cx (sk_Kid key) s = (Inr pk, s1))"

lemma recognized_visible: "sc \<in> set recognized_scopes \<Longrightarrow> list_all visible sc \<and> sc \<noteq> []"
  by (auto simp: recognized_scopes_def scope_defs visible_def byte_def)

lemma recognized_single:
  assumes "sc \<in> set recognized_scopes"
  shows "singleScope sc = Inr sc"
proof -
  have "GoStrings.fields sc = [sc]"
    using recognized_visible [OF assms] by (intro fields_visible) (auto simp: list_all_iff)
  then show ?thesis using assms by (simp add: singleScope_iff)
qed

lemma mint_issuer:
  assumes "mint (issuer_deps lib db key iss dummy) cid rec w = (Inr resp, w')"
  shows "iw_now w' = iw_now w \<and> (\<exists>jti tok. il_sign lib (sk_Private key) (token_header (issuer_deps lib db key iss dummy))
      (token_claims (issuer_deps lib db key iss dummy) cid rec (iw_now w) jti) = Inr tok \<and>
    resp = token_response tok (cl_GrantedScope rec))"
  using assms unfolding mint_Inr by (auto simp: issuer_deps_def)

lemma issued_record:
  assumes "NewTokenHandler (issuer_deps lib db key iss dummy) r w = (resp, w')" "rs_status resp = 200"
    and "unique_clients (iw_db w)" "\<forall>pw salt t m p k. length (il_argon2 lib pw salt t m p k) = unat k"
  shows "\<exists>cid sec rec jti tok. tq_basic r = Some (cid, sec) \<and> clients (iw_db w) cid = Some rec \<and> cl_Active rec \<and>
    il_sign lib (sk_Private key) (token_header (issuer_deps lib db key iss dummy))
      (token_claims (issuer_deps lib db key iss dummy) cid rec (iw_now w) jti) = Inr tok \<and>
    resp = token_response tok (cl_GrantedScope rec)"
proof -
  let ?D = "issuer_deps lib db key iss dummy"
  obtain st form cid sec rec s1 s2 s3 s4 where t: "td_store ?D = Some st" "tq_basic r = Some (cid, sec)"
    and allow: "gi_Allow (td_limiter ?D) cid (sourceIPFrom (tq_remote r)) w = (Inr True, s1)"
    and get: "cs_Get st cid s1 = (Inr (Some rec), s2)" "cl_Active rec" and m: "mint ?D cid rec s4 = (Inr resp, w')"
    using token_issued [OF assms(1,2)] by blast
  obtain fault where db: "db = Some fault" "st = issuer_clients fault" using t(1) by auto
  have ok: "argon2_ok (il_argon2 lib) (td_crypto ?D)" using assms(4) by (simp add: issuer_crypto_ok)
  have at: "clients_at (iw_now w) w" using assms(3) by (simp add: clients_at_def)
  have "clients_at (iw_now w) w'"
    using triple_run [OF issuer_store.token_op_triple [OF issuer_frame ok], of fault "iw_now w" w "clients (iw_db w)"]
      at assms(1) t(1) db by (simp add: NewTokenHandler_def)
  then have "iw_now s4 = iw_now w" using mint_issuer [OF m] by (simp add: clients_at_def)
  moreover have "clients_at (iw_now w) s1 \<and> clients (iw_db s1) = clients (iw_db w)"
    using deps_frameD(1) [OF issuer_frame at allow] by simp
  then have "clients (iw_db w) cid = Some rec"
    using issuer_store.get_record [of "iw_now w" s1 fault cid rec s2] get(1) db(2) by auto
  ultimately show ?thesis using mint_issuer [OF m] t(2) get(2) by auto
qed

lemma verify_claims:
  assumes "jwt_lib_complete L (jv_parse v)" "jl_header L tok = Some h" "jh_alg h = ''RS256''" "jh_kid h = Some kid" "kid \<noteq> []"
    and "jl_claims L tok = Some c" "jv_keys v cx kid s = (Inr pk, s1)" "jl_verifies L pk tok"
    and "cl_Issuer c = jv_issuer v" "unexpired c (jl_now L s1)"
    and "cl_Audience c = [jv_audience v]" "cl_Subject c \<noteq> []" "cl_Scope c \<in> set recognized_scopes"
  shows "jwt_verify v cx tok s = (Inr \<lparr>ac_Sub = cl_Subject c, ac_Scope = cl_Scope c\<rparr>, s1)"
proof -
  have "kid_keyfunc (jv_keys v) cx h s = (Inr pk, s1)" using assms(4,5,7) by (simp add: kid_keyfunc_def)
  then have "jv_parse v [jwtAlgorithm] (jv_issuer v) (kid_keyfunc (jv_keys v) cx) tok s = (Inr (c, True), s1)"
    using assms(1) [unfolded jwt_lib_complete_def, rule_format,
        of tok h c "[jwtAlgorithm]" "kid_keyfunc (jv_keys v) cx" s pk s1 "jv_issuer v"] assms
    by (simp add: jwtAlgorithm_def)
  then show ?thesis
    using assms(11,12) recognized_single [OF assms(13)]
    by (simp add: jwt_verify_def bindS_def hasAudience_def)
qed

text \<open>
  C1. What the issuer mints the verifier accepts: the token of a 200 answer, presented to a verifier configured for this
  issuer and the client's audience whose key source answers from the issuer's published key document, is verified until its
  ten minutes (from the whole second of issue) have passed, and names the client that authenticated and the scope the
  store granted it.
\<close>
theorem issued_token_accepted:
  assumes "NewTokenHandler (issuer_deps lib db key iss dummy) r w = (resp, w')" "rs_status resp = 200"
    and "unique_clients (iw_db w)" "\<forall>pw salt t m p k. length (il_argon2 lib pw salt t m p k) = unat k"
    and "sign_ok lib L" "jwt_lib_complete L (jv_parse v)" "jv_issuer v = iss"
    and "sk_Kid key \<noteq> []" "0 \<le> pk_E (rk_Public (sk_Private key))" "pk_E (rk_Public (sk_Private key)) < 2 ^ 24"
    and "reads_document key v cx s s1" "jl_now L s1 < second * (iw_now w div second) + 10 * minute"
  shows "\<exists>cid sec rec tok. tq_basic r = Some (cid, sec) \<and> clients (iw_db w) cid = Some rec \<and>
    resp = token_response tok (cl_GrantedScope rec) \<and>
    (cid \<noteq> [] \<and> cl_ClientAudience rec = jv_audience v \<and> cl_GrantedScope rec \<in> set recognized_scopes \<longrightarrow>
       jwt_verify v cx tok s = (Inr \<lparr>ac_Sub = cid, ac_Scope = cl_GrantedScope rec\<rparr>, s1))"
proof -
  let ?D = "issuer_deps lib db key iss dummy"
  obtain cid sec rec jti tok where t: "tq_basic r = Some (cid, sec)" "clients (iw_db w) cid = Some rec"
    "resp = token_response tok (cl_GrantedScope rec)"
    and signed: "il_sign lib (sk_Private key) (token_header ?D) (token_claims ?D cid rec (iw_now w) jti) = Inr tok"
    using issued_record [OF assms(1-4)] by blast
  obtain pk where pk: "pk = rk_Public (sk_Private key)" "jv_keys v cx (sk_Kid key) s = (Inr pk, s1)"
    using assms(11) publish_parse [OF assms(8-10)] unfolding reads_document_def by auto
  have e: "unexpired (token_claims ?D cid rec (iw_now w) jti) (jl_now L s1)"
  proof -
    have "(iw_now w + 10 * minute) div second = iw_now w div second + 600"
      by (simp add: second_def minute_def)
    then show ?thesis
      using assms(12) by (simp add: unexpired_def token_claims_def issuer_deps_def tokenTTL_def second_def minute_def)
  qed
  have "jwt_verify v cx tok s = (Inr \<lparr>ac_Sub = cid, ac_Scope = cl_GrantedScope rec\<rparr>, s1)"
    if "cid \<noteq> []" "cl_ClientAudience rec = jv_audience v" "cl_GrantedScope rec \<in> set recognized_scopes"
    using verify_claims [of L v tok "token_header ?D" "sk_Kid key" "token_claims ?D cid rec (iw_now w) jti" cx s pk s1]
      signed assms(5-8) pk e that
    by (auto simp: sign_ok_def token_header_def token_claims_def jwtAlgorithm_def)
  then show ?thesis using t by blast
qed

subsection \<open>A concrete issuer\<close>

text \<open>
  A toy Argon2id that pads the password, a signature that signs one claim set, one client whose stored hash was made with
  another memory cost, and a verifier that answers one key: the inputs of the examples below.
\<close>

definition example_lib :: "unit issuer_lib" where
  "example_lib = \<lparr>il_argon2 = (\<lambda>pw salt t m p k. take (unat k) (pw @ replicate (unat k) CHR 0x00)),
     il_rand = (\<lambda>_ n. Inr (replicate n CHR 0x01)), il_uuid = (\<lambda>_. ''j1''),
     il_sign = (\<lambda>k h c. if rk_Public k = \<lparr>pk_N = 3233, pk_E = 65537\<rparr> \<and> jh_alg h = ''RS256'' \<and> jh_kid h = Some ''k1'' \<and>
         cl_Subject c = ''qa-client'' \<and> cl_Scope c = ''profile:search'' \<and> cl_Audience c = [''aud''] \<and> cl_Issuer c = ''iss'' \<and>
         cl_IssuedAt c = Some (100 * second) \<and> cl_ExpiresAt c = Some (700 * second) \<and> cl_ID c = ''j1''
       then Inr ''tok'' else Inl (ErrText ''no key''))\<rparr>"

definition drifted_hash :: string where
  "drifted_hash = encodePHC 1024 1 4 ''salt'' (take 32 (''secret'' @ replicate 32 CHR 0x00))"

definition example_row :: oauth_client where
  "example_row = \<lparr>oc_client_id = ''qa-client'', oc_name = ''QA'', oc_secret_hash = Some drifted_hash, oc_secret_state = ''set'',
     oc_granted_scopes = ''{profile:search}'', oc_audience = ''aud'', oc_status = ''active''\<rparr>"

definition example_issuer :: issuer_world where
  "example_issuer = \<lparr>iw_db = \<lparr>is_rows = [example_row], is_tick = 0\<rparr>, iw_limiter = issuer_limiter,
     iw_now = 100 * second, iw_hashes = 0, iw_draws = 0\<rparr>"

definition grant_request :: "string \<Rightarrow> token_request" where
  "grant_request sec = \<lparr>tq_form = Inr (\<lambda>k. if k = ''grant_type'' then ''client_credentials'' else []),
     tq_basic = Some (''qa-client'', sec), tq_remote = ''10.0.0.1:5000''\<rparr>"

abbreviation example_deps :: "(issuer_world, unit) token_deps" where
  "example_deps \<equiv> issuer_deps example_lib (Some (\<lambda>_. None)) demo_signing_key ''iss'' drifted_hash"

lemma example_scope: "parsePostgresTextArray ''{profile:search}'' = Inr [''profile:search'']"
  by code_simp

lemma example_ip: "sourceIPFrom ''10.0.0.1:5000'' = ''10.0.0.1''"
  by code_simp

lemma example_argon2: "length (il_argon2 example_lib pw salt t m p k) = unat k"
  by (simp add: example_lib_def)

lemma example_remote: "sourceIPFrom (tq_remote (grant_request sec)) = ''10.0.0.1''"
  by (simp add: grant_request_def example_ip)

lemma trim_space_nil: "trim_space [] = []"
  by code_simp

definition example_record :: client_record where
  "example_record = \<lparr>cl_ClientID = ''qa-client'', cl_Name = ''QA'', cl_SecretHash = drifted_hash,
     cl_GrantedScope = ''profile:search'', cl_ClientAudience = ''aud'', cl_Active = True\<rparr>"

lemma example_active: "cl_Active example_record" by (simp add: example_record_def)

lemma example_decode: "decode_client ''qa-client'' example_row = Inr example_record"
  by (simp add: decode_client_def example_row_def example_scope example_record_def)

lemma example_verify: 
  "verifySecret (issuer_crypto example_lib) sec drifted_hash w =
     (take 32 (sec @ replicate 32 CHR 0x00) = take 32 (''secret'' @ replicate 32 CHR 0x00), w\<lparr>iw_hashes := Suc (iw_hashes w)\<rparr>)"
  by (simp add: verifySecret_def drifted_hash_def parse_encode issuer_crypto_def example_lib_def)

lemma example_drifted: "needsRehash drifted_hash"
  by (simp add: needsRehash_def drifted_hash_def parse_encode argon2_consts)

lemma example_allow: "gl_allow (100 * second) c ip issuer_limiter = (True, gl_sweep (100 * second) issuer_limiter)"
  by (simp add: gl_allow_def Let_def gl_sweep_def issuer_limiter_def NewInProcessGrantLimiter_def gl_sweepMap_def
      sweep_map_def isBlocked_def)


lemma example_get: "cs_Get (issuer_clients (\<lambda>_. None)) ''qa-client'' w = (Inr (Some example_record), w\<lparr>iw_db := (iw_db w)\<lparr>is_tick := Suc (is_tick (iw_db w))\<rparr>\<rparr>)"
  if "is_rows (iw_db w) = [example_row]"
proof -
  have "oc_client_id example_row = ''qa-client''" by (simp add: example_row_def)
  then show ?thesis
    by (simp add: issuer_clients_def on_db_def PostgresClientStore_def pcs_Get_def issuer_exec_def client_row_def that example_decode)
qed

lemma example_deny: "\<exists>w. NewTokenHandler example_deps (grant_request ''guess'') example_issuer = (invalid_client, w)"
proof -
  have u: "\<not> authenticated example_deps (Some example_record) ''guess'' v" for v
    by (simp add: authenticated_def example_record_def example_verify)
  have "gi_Allow (td_limiter example_deps) ''qa-client'' (sourceIPFrom (tq_remote (grant_request ''guess''))) example_issuer =
      (Inr True, example_issuer\<lparr>iw_limiter := gl_sweep (100 * second) issuer_limiter\<rparr>)"
    by (simp add: issuer_grants_def example_issuer_def example_allow)
  note run = token_refused [OF _ _ _ _ this example_get u, of "\<lambda>k. if k = ''grant_type'' then ''client_credentials'' else []"]
  show ?thesis using run by (simp add: grant_request_def example_issuer_def)
qed

lemma example_grant: "\<exists>w. NewTokenHandler example_deps (grant_request ''secret'') example_issuer =
   (token_response ''tok'' ''profile:search'', w)"
proof -
  have st: "td_store example_deps = Some (issuer_clients (\<lambda>_. None))" by simp
  have a: "gi_Allow (td_limiter example_deps) ''qa-client'' (sourceIPFrom (tq_remote (grant_request ''secret''))) example_issuer =
      (Inr True, example_issuer\<lparr>iw_limiter := gl_sweep (100 * second) issuer_limiter\<rparr>)" (is "_ = (_, ?w1)")
    by (simp add: issuer_grants_def example_issuer_def example_allow)
  have form: "tq_form (grant_request ''secret'') = Inr (\<lambda>k. if k = ''grant_type'' then ''client_credentials'' else [])"
    "tq_basic (grant_request ''secret'') = Some (''qa-client'', ''secret'')" by (simp_all add: grant_request_def)
  let ?w2 = "?w1\<lparr>iw_db := (iw_db ?w1)\<lparr>is_tick := Suc (is_tick (iw_db ?w1))\<rparr>\<rparr>"
  have g: "cs_Get (issuer_clients (\<lambda>_. None)) ''qa-client'' ?w1 = (Inr (Some example_record), ?w2)"
    by (rule example_get) (simp add: example_issuer_def)
  have c: "check_secret example_deps (Some example_record) ''secret'' ?w2 = (Inr True, ?w2\<lparr>iw_hashes := Suc (iw_hashes ?w2)\<rparr>)" (is "_ = (_, ?w3)")
    by (simp add: check_secret_def example_record_def example_verify) (simp add: drifted_hash_def encodePHC_def)
  let ?w4 = "gi_RecordSuccess (td_limiter example_deps) ''qa-client'' ''10.0.0.1'' ?w3"
  obtain x w5 where r: "rehash example_deps (issuer_clients (\<lambda>_. None)) ''qa-client'' ''secret'' example_record ?w4 = (x, w5)"
    by fastforce
  have x: "x = Inr ()" using r by (auto simp: rehash_def catchS_eq retS_def split: if_splits)
  have at: "clients_at (100 * second) ?w4"
    by (simp add: clients_at_def example_issuer_def unique_clients_def issuer_grants_def)
  have "argon2_ok (il_argon2 example_lib) (td_crypto example_deps)"
    by (simp add: issuer_crypto_ok example_argon2)
  then have "iw_now w5 = 100 * second"
    using issuer_store.rehash_table [OF issuer_frame _ at r] by (simp add: clients_at_def)
  then have m: "fst (mint example_deps ''qa-client'' example_record w5) = Inr (token_response ''tok'' ''profile:search'')"
    by (simp add: mint_def issuer_deps_def example_lib_def demo_signing_key_def token_header_def token_claims_def
        example_record_def jwtAlgorithm_def tokenTTL_def second_def minute_def)
  have "token_op example_deps (grant_request ''secret'') example_issuer = mint example_deps ''qa-client'' example_record w5"
    by (rule token_granted [OF st form(1) _ form(2) a g c example_active])
      (use r x in \<open>simp_all add: example_remote trim_space_nil\<close>)
  then show ?thesis using m
    by (cases "mint example_deps ''qa-client'' example_record w5") (simp add: NewTokenHandler_def run_handler_def)
qed

definition example_jwt :: "unit jwt_lib" where
  "example_jwt = \<lparr>jl_header = (\<lambda>t. Some \<lparr>jh_alg = ''RS256'', jh_kid = Some ''k1''\<rparr>),
     jl_claims = (\<lambda>t. Some \<lparr>cl_Scope = ''profile:search'', cl_Subject = ''qa-client'', cl_Issuer = ''iss'', cl_Audience = [''aud''],
       cl_IssuedAt = Some (100 * second), cl_ExpiresAt = Some (700 * second), cl_ID = ''j1''\<rparr>),
     jl_verifies = (\<lambda>key t. key = \<lparr>pk_N = 3233, pk_E = 65537\<rparr>), jl_now = (\<lambda>_. 101 * second)\<rparr>"

definition example_verifier :: "unit jwt_verifier" where
  "example_verifier = \<lparr>jv_parse = lib_parse example_jwt,
     jv_keys = (\<lambda>cx kid s. if kid = ''k1'' then (Inr \<lparr>pk_N = 3233, pk_E = 65537\<rparr>, s) else (Inl ErrJWKSUnreachable, s)),
     jv_issuer = ''iss'', jv_audience = ''aud''\<rparr>"

lemma example_unique: "unique_clients (iw_db example_issuer)"
  by (simp add: unique_clients_def example_issuer_def)

lemma example_sign_ok: "sign_ok example_lib example_jwt"
  unfolding sign_ok_def
proof (intro allI impI)
  fix k :: "unit rsa_private_key" and h c tok
  assume "il_sign example_lib k h c = Inr tok"
  then show "jl_header example_jwt tok = Some h \<and> jl_claims example_jwt tok = Some c \<and> jl_verifies example_jwt (rk_Public k) tok"
    by (cases h; cases c) (simp add: example_lib_def example_jwt_def split: if_splits)
qed

lemma example_reads: "reads_document demo_signing_key example_verifier None () ()"
proof -
  have "sk_Kid demo_signing_key = ''k1''" "rk_Public (sk_Private demo_signing_key) = \<lparr>pk_N = 3233, pk_E = 65537\<rparr>"
    by (simp_all add: demo_signing_key_def)
  then show ?thesis
    using publish_parse [of demo_signing_key] by (simp add: reads_document_def example_verifier_def)
qed

theorem token_issue_checked_witness:
  "\<exists>cid sec (rec :: client_record) v. tq_basic (grant_request ''secret'') = Some (cid, sec) \<and> cl_Active rec \<and>
     fst (verifySecret (td_crypto example_deps) sec (cl_SecretHash rec) v)"
proof -
  obtain w where w: "NewTokenHandler example_deps (grant_request ''secret'') example_issuer =
      (token_response ''tok'' ''profile:search'', w)" using example_grant by blast
  have st: "rs_status (token_response ''tok'' ''profile:search'') = 200" by (simp add: token_response_def)
  from token_issue_checked [OF w st] obtain cid sec s2 s3 and rec :: client_record where "tq_basic (grant_request ''secret'') = Some (cid, sec)" "cl_Active rec"
      "verifySecret (td_crypto example_deps) sec (cl_SecretHash rec) s2 = (True, s3)"
    by blast
  moreover from this(3) have "fst (verifySecret (td_crypto example_deps) sec (cl_SecretHash rec) s2)" by simp
  ultimately show ?thesis by (intro exI conjI)
qed

theorem token_failures_uniform_witness:
  "\<exists>v. fst (NewTokenHandler example_deps (grant_request ''guess'') example_issuer) = invalid_client \<and>
     iw_hashes (snd (verifySecret (td_crypto example_deps) ''guess'' (compared example_deps (Some example_record)) v)) = Suc (iw_hashes v)"
proof -
  have u: "\<not> authenticated example_deps (Some example_record) ''guess'' v" for v
    by (simp add: authenticated_def example_record_def example_verify)
  have "gi_Allow (td_limiter example_deps) ''qa-client'' (sourceIPFrom (tq_remote (grant_request ''guess''))) example_issuer =
      (Inr True, example_issuer\<lparr>iw_limiter := gl_sweep (100 * second) issuer_limiter\<rparr>)"
    by (simp add: issuer_grants_def example_issuer_def example_allow)
  note run = token_failures_uniform [OF _ _ _ _ this example_get u, of "\<lambda>k. if k = ''grant_type'' then ''client_credentials'' else []"]
  have "compared example_deps (Some example_record) = drifted_hash" by (simp add: compared_def example_record_def)
  then show ?thesis using run by (simp add: grant_request_def example_issuer_def example_verify)
qed

theorem rehash_keeps_credentials_witness:
  "\<exists>w. NewTokenHandler example_deps (grant_request ''secret'') example_issuer = (token_response ''tok'' ''profile:search'', w) \<and>
     unique_clients (iw_db w) \<and> (clients (iw_db w) = clients (iw_db example_issuer) \<or>
       rehashed example_deps (grant_request ''secret'') (clients (iw_db example_issuer)) (clients (iw_db w)))"
proof -
  obtain w where w: "NewTokenHandler example_deps (grant_request ''secret'') example_issuer =
      (token_response ''tok'' ''profile:search'', w)" using example_grant by blast
  have "\<forall>pw salt t m p k. length (il_argon2 example_lib pw salt t m p k) = unat k" by (simp add: example_argon2)
  from rehash_keeps_credentials [OF this example_unique w] w show ?thesis by blast
qed

theorem failed_grant_locks_out_witness:
  "\<exists>w1. NewTokenHandler example_deps (grant_request ''guess'') example_issuer = (invalid_client, w1) \<and>
     fst (NewTokenHandler example_deps (grant_request ''secret'') (w1\<lparr>iw_now := 100 * second + 1\<rparr>)) = writeTokenError 429 ''slow_down''"
proof -
  obtain w1 where w1: "NewTokenHandler example_deps (grant_request ''guess'') example_issuer = (invalid_client, w1)"
    using example_deny by blast
  have d: "deployed_limiter (iw_limiter example_issuer)" by (simp add: example_issuer_def deployed_start)
  have lock: "0 < lock_time l c ip - 1" for l c ip
  proof -
    have "(1::int) \<le> 2 ^ n" for n by simp
    then show ?thesis by (simp add: lock_time_def second_def minute_def min_def) (smt (verit) \<open>\<And>n. (1::int) \<le> 2 ^ n\<close>)
  qed
  have now: "iw_now example_issuer = 100 * second" by (simp add: example_issuer_def)
  obtain resp w2 where run: "NewTokenHandler example_deps (grant_request ''secret'') (w1\<lparr>iw_now := 100 * second + 1\<rparr>) = (resp, w2)"
    by fastforce
  have "resp = writeTokenError 429 ''slow_down''"
    using failed_grant_locks_out [OF w1 d _ _ _ _ run, of "\<lambda>k. if k = ''grant_type'' then ''client_credentials'' else []"]
      lock now by (simp add: grant_request_def basic_client_def)
  then show ?thesis using w1 run by auto
qed

theorem issued_token_accepted_witness:
  "\<exists>tok. fst (NewTokenHandler example_deps (grant_request ''secret'') example_issuer) = token_response tok ''profile:search'' \<and>
     jwt_verify example_verifier None tok () = (Inr \<lparr>ac_Sub = ''qa-client'', ac_Scope = ScopeSearch\<rparr>, ())"
proof -
  obtain w where w: "NewTokenHandler example_deps (grant_request ''secret'') example_issuer =
      (token_response ''tok'' ''profile:search'', w)" using example_grant by blast
  have len: "\<forall>pw salt t m p k. length (il_argon2 example_lib pw salt t m p k) = unat k" by (simp add: example_argon2)
  have v: "jwt_lib_complete example_jwt (jv_parse example_verifier)" "jv_issuer example_verifier = ''iss''"
      "jv_audience example_verifier = ''aud''" by (simp_all add: example_verifier_def lib_parse_complete)
  have s: "rs_status (token_response ''tok'' ''profile:search'') = 200" by (simp add: token_response_def)
  have t: "jl_now example_jwt () < second * (iw_now example_issuer div second) + 10 * minute"
    by (simp add: example_jwt_def example_issuer_def second_def minute_def)
  have cl: "clients (iw_db example_issuer) ''qa-client'' = Some example_record"
    using example_decode by (simp add: clients_def example_issuer_def client_row_def example_row_def)
  have k: "sk_Kid demo_signing_key \<noteq> []" "0 \<le> pk_E (rk_Public (sk_Private demo_signing_key))"
      "pk_E (rk_Public (sk_Private demo_signing_key)) < 2 ^ 24" by (simp_all add: demo_signing_key_def)
  from issued_token_accepted [OF w s example_unique len example_sign_ok v(1,2) k example_reads t]
  show ?thesis
    using w cl v(3) by (auto simp: grant_request_def example_record_def recognized_scopes_def scope_defs token_response_def)
qed

end
