(* ===== verification/OnboardingSpec.thy ===== *)
theory OnboardingSpec
  imports Onboarding
begin

section \<open>What the mediator guarantees\<close>

subsection \<open>Errors\<close>

definition unavailable_or_rejected :: "goerr \<Rightarrow> bool" where
  "unavailable_or_rejected err \<longleftrightarrow>
     err = ErrIdentityVerificationUnavailable \<or> errors_is err ErrVendorCredentialRejected"

lemma call_loop_errors: "call_loop ob cx call n first s = (Inl err, s') \<Longrightarrow>
    err = ErrIdentityVerificationUnavailable \<or> (\<exists>t t'. call t = (Inl err, t') \<and> errors_is err ErrVendorCredentialRejected)"
proof (induction n arbitrary: first s)
  case (Suc n)
  obtain go s1 where w: "(if first then (True, s) else ob_wait ob cx connectorRetryBackoff s) = (go, s1)" by (rule prod.exhaust)
  obtain x s2 where c: "call s1 = (x, s2)" by (rule prod.exhaust)
  show ?case using Suc.prems Suc.IH [of False s2] w c
    by (cases go; cases x) (auto simp del: split_paired_All split_paired_Ex split: if_splits)
qed simp

lemma attempt_errors:
  assumes "attemptVerifyIdentity ob cx u p ph nm s = (Inl err, s')"
  shows "err = ErrIdentityVerificationUnavailable \<or> (errors_is err ErrVendorCredentialRejected \<and>
    ((\<exists>c tok t t'. cc_Auth (ob_connector ob) c tok u p t = (Inl err, t')) \<or>
     (\<exists>c tok v t t'. cc_Identity (ob_connector ob) c tok v ph nm t = (Inl err, t'))))"
proof -
  consider (token) "err = ErrIdentityVerificationUnavailable"
    | (auth) tok t where "callAuth ob cx tok u p t = (Inl err, s')"
    | (identity) tok v t where "callIdentity ob cx tok v ph nm t = (Inl err, s')"
    using assms unfolding attemptVerifyIdentity_def bindS_eq_Inl map_errS_eq_Inl by blast
  then show ?thesis
  proof cases
    case auth
    then show ?thesis unfolding callAuth_def Let_def by (blast dest: call_loop_errors)
  next
    case identity
    then show ?thesis unfolding callIdentity_def Let_def by (blast dest: call_loop_errors)
  qed simp
qed

lemma verify_Inl:
  assumes "VerifyIdentity ob cx u p ph nm s = (Inl err, s')"
  obtains t where "attemptVerifyIdentity ob cx u p ph nm t = (Inl err, s')"
  using assms by (auto simp: VerifyIdentity_def split: prod.splits sum.splits if_splits)

text \<open>The transport's own errors are not this package's sentinel.\<close>

definition foreign_errors :: "'w http_client \<Rightarrow> bool" where
  "foreign_errors hc \<longleftrightarrow>
     (\<forall>cx url e. hc_new hc cx url = Some e \<longrightarrow> \<not> errors_is e ErrVendorCredentialRejected) \<and>
     (\<forall>cx r s. \<forall>e \<in> Basic_BNFs.setl (fst (hc_do hc cx r s)). \<not> errors_is e ErrVendorCredentialRejected)"

lemma foreign_newD: "foreign_errors hc \<Longrightarrow> hc_new hc cx url = Some e \<Longrightarrow> \<not> errors_is e ErrVendorCredentialRejected"
  by (simp add: foreign_errors_def)

lemma foreign_doD: "foreign_errors hc \<Longrightarrow> hc_do hc cx r s = (Inl e, s') \<Longrightarrow> \<not> errors_is e ErrVendorCredentialRejected"
  unfolding foreign_errors_def by (metis fst_conv setl.intros)

lemma hcc_rejected:
  assumes "foreign_errors hc" "errors_is err ErrVendorCredentialRejected"
  shows "hcc_Auth hc b c tok u p t = (Inl err, t') \<Longrightarrow> err = ErrVendorCredentialRejected"
    and "hcc_Identity hc b c tok v ph nm t = (Inl err, t') \<Longrightarrow> err = ErrVendorCredentialRejected"
  using assms(2)
  by (auto simp: hcc_Auth_def hcc_Identity_def catchS_def connector_reply_def failS_def retS_def
      dest: foreign_newD [OF assms(1)] foreign_doD [OF assms(1)]
      split: option.splits prod.splits sum.splits if_splits)

text \<open>
  C28. The mediator reports exactly two failures: over the HTTP client of the connector every failed verification is either
  ``temporarily unavailable'' or ``vendor credential rejected'', never a transport error, a status or a body; the transport's
  own errors are only assumed not to be this package's sentinel.
\<close>
theorem verify_error_contract:
  assumes "ob_connector ob = HTTPConnectorClient hc base"
    and "foreign_errors hc"
  shows "fst (VerifyIdentity ob cx u p ph nm s) \<in>
    range Inr \<union> {Inl ErrIdentityVerificationUnavailable, Inl ErrVendorCredentialRejected}"
proof (cases "fst (VerifyIdentity ob cx u p ph nm s)")
  case (Inl err)
  then obtain t s' where "attemptVerifyIdentity ob cx u p ph nm t = (Inl err, s')"
    by (cases "VerifyIdentity ob cx u p ph nm s") (auto elim: verify_Inl)
  from attempt_errors [OF this] have "err = ErrIdentityVerificationUnavailable \<or> err = ErrVendorCredentialRejected"
    using hcc_rejected [OF assms(2)] by (auto simp: assms(1) HTTPConnectorClient_def)
  with Inl show ?thesis by auto
qed simp

subsection \<open>How many calls\<close>

text \<open>Counters of the calls: of the connector's two endpoints and of the token endpoint.\<close>

record 'w call_counters =
  nc_auth :: "'w \<Rightarrow> nat"
  nc_identity :: "'w \<Rightarrow> nat"
  nc_fetch :: "'w \<Rightarrow> nat"

definition at_most :: "'w call_counters \<Rightarrow> nat \<times> nat \<times> nat \<Rightarrow> 'w ob_state \<Rightarrow> 'w ob_state \<Rightarrow> bool" where
  "at_most k b s s' \<longleftrightarrow> (case b of (a, i, f) \<Rightarrow> nc_auth k (snd s') \<le> nc_auth k (snd s) + a \<and>
     nc_identity k (snd s') \<le> nc_identity k (snd s) + i \<and> nc_fetch k (snd s') \<le> nc_fetch k (snd s) + f)"

definition calls_counted :: "'w onboarding \<Rightarrow> 'w call_counters \<Rightarrow> bool" where
  "calls_counted ob k \<longleftrightarrow>
     (\<forall>c tok u p s. at_most k (1, 0, 0) s (snd (cc_Auth (ob_connector ob) c tok u p s))) \<and>
     (\<forall>c tok v ph nm s. at_most k (0, 1, 0) s (snd (cc_Identity (ob_connector ob) c tok v ph nm s))) \<and>
     (\<forall>c u p s. at_most k (0, 0, 1) s (snd (tk_FetchToken (ob_tokens ob) c u p s))) \<and>
     (\<forall>c n s. at_most k (0, 0, 0) s (snd (ob_wait ob c n s)))"

lemma at_most_trans: "at_most k (a, i, f) s t \<Longrightarrow> at_most k (a', i', f') t u \<Longrightarrow> at_most k (a + a', i + i', f + f') s u"
  by (auto simp: at_most_def)

lemma at_most_mono: "at_most k (a, i, f) s t \<Longrightarrow> a \<le> a' \<Longrightarrow> i \<le> i' \<Longrightarrow> f \<le> f' \<Longrightarrow> at_most k (a', i', f') s t"
  by (auto simp: at_most_def)

lemma at_most_refl [simp]: "at_most k b s s" by (cases b) (simp add: at_most_def)

lemma call_loop_at_most:
  assumes "\<And>s. at_most k (a, i, 0) s (snd (call s))" "\<And>c n s. at_most k (0, 0, 0) s (snd (ob_wait ob c n s))"
  shows "at_most k (n * a, n * i, 0) s (snd (call_loop ob cx call n first s))"
proof (induction n arbitrary: first s)
  case (Suc n)
  obtain go s1 where w: "(if first then (True, s) else ob_wait ob cx connectorRetryBackoff s) = (go, s1)" by (rule prod.exhaust)
  have 1: "at_most k (0, 0, 0) s s1"
    using w assms(2) [of s cx connectorRetryBackoff] by (cases first) auto
  obtain x s2 where c: "call s1 = (x, s2)" by (rule prod.exhaust)
  have 2: "at_most k (a, i, 0) s s2" using at_most_trans [OF 1, of a i 0 s2] assms(1) [of s1] c by simp
  have 3: "at_most k (Suc n * a, Suc n * i, 0) s (snd (call_loop ob cx call n False s2))"
    using at_most_trans [OF 2 Suc.IH] by simp
  show ?case
  proof (cases go)
    case False
    then show ?thesis using at_most_mono [OF 1] by (simp add: w)
  next
    case True
    have "at_most k (Suc n * a, Suc n * i, 0) s s2" using at_most_mono [OF 2] by simp
    then show ?thesis using True 3 by (cases x) (simp_all add: w c)
  qed
qed simp

lemma bindS_at_most:
  assumes "at_most k (a, i, f) s (snd (m s))" "\<And>x t. m s = (Inr x, t) \<Longrightarrow> at_most k (a', i', f') t (snd (g x t))"
  shows "at_most k (a + a', i + i', f + f') s (snd (bindS m g s))"
proof -
  obtain y t where Pair: "m s = (y, t)" by (rule prod.exhaust)
  show ?thesis
  proof (cases y)
    case (Inl e)
    then show ?thesis using Pair at_most_mono [OF assms(1)] by (simp add: bindS_def)
  next
    case (Inr x)
    then show ?thesis using Pair at_most_trans [OF _ assms(2)] assms(1) by (simp add: bindS_def)
  qed
qed

lemma attempt_at_most:
  assumes "calls_counted ob k"
  shows "at_most k (3, 3, 1) s (snd (attemptVerifyIdentity ob cx u p ph nm s))"
proof -
  note ok = assms [unfolded calls_counted_def]
  have tok: "at_most k (0, 0, 1) s (snd (map_errS g (Token ob cx) s))" for g s
  proof (cases "ts_cached (fst s) \<noteq> [] \<and> ob_now ob (snd s) < ts_expiry (fst s) - refreshMargin")
    case True
    then show ?thesis by (simp add: Token_def map_errS_def Let_def)
  next
    case False
    obtain x s1 where f: "tk_FetchToken (ob_tokens ob) (ob_WithTimeout ob cx tokenCallTimeout) (ts_clientID (fst s))
      (ts_clientSecret (fst s)) s = (x, s1)" by (rule prod.exhaust)
    have "at_most k (0, 0, 1) s s1" using ok f by (metis snd_conv)
    then show ?thesis using False f
      by (cases x) (auto simp: Token_def map_errS_def Let_def at_most_def)
  qed
  have steps: "at_most k (1, 0, 0) s (snd (cc_Auth (ob_connector ob) c t u p s))"
      "at_most k (0, 1, 0) s (snd (cc_Identity (ob_connector ob) c t v ph nm s))"
      "at_most k (0, 0, 0) s (snd (ob_wait ob c n s))" for c t u p v ph nm n s
    using ok by blast+
  have a: "at_most k (3, 0, 0) s (snd (callAuth ob cx t u p s))" for t s
    using call_loop_at_most [OF steps(1,3), where n = "connectorMaxRetries + 1" and first = True]
    unfolding callAuth_def Let_def by (simp add: connectorMaxRetries_def del: call_loop.simps)
  have i: "at_most k (0, 3, 0) s (snd (callIdentity ob cx t v ph nm s))" for t v s
    using call_loop_at_most [OF steps(2,3), where n = "connectorMaxRetries + 1" and first = True]
    unfolding callIdentity_def Let_def by (simp add: connectorMaxRetries_def del: call_loop.simps)
  have rest: "at_most k (3, 3, 0) s (snd (bindS (callAuth ob cx t u p) (\<lambda>v. callIdentity ob cx t v ph nm) s))" for t s
    using bindS_at_most [where m = "callAuth ob cx t u p" and g = "\<lambda>v. callIdentity ob cx t v ph nm", OF a i] by simp
  show ?thesis
    unfolding attemptVerifyIdentity_def
    using bindS_at_most [where m = "map_errS (\<lambda>_. ErrIdentityVerificationUnavailable) (Token ob cx)", OF tok rest] by simp
qed

text \<open>
  C29. One verification is bounded work, whatever the connector answers: at most two tokens are fetched and at most six
  requests go to each endpoint of the connector.
\<close>
theorem verify_bounded:
  assumes "calls_counted ob k"
  shows "at_most k (6, 6, 2) s (snd (VerifyIdentity ob cx u p ph nm s))"
proof -
  obtain x s1 where 1: "attemptVerifyIdentity ob cx u p ph nm s = (x, s1)" by (rule prod.exhaust)
  have a: "at_most k (3, 3, 1) s s1" using attempt_at_most [OF assms, of s cx u p ph nm] 1 by simp
  then have "at_most k (3, 3, 1) s (Invalidate s1)" by (simp add: at_most_def Invalidate_def)
  from at_most_trans [OF this attempt_at_most [OF assms]]
  have "at_most k (6, 6, 2) s (snd (attemptVerifyIdentity ob cx u p ph nm (Invalidate s1)))" by (simp add: numeral_2_eq_2)
  then show ?thesis using 1 at_most_mono [OF a] by (cases x) (auto simp: VerifyIdentity_def)
qed

subsection \<open>The retry after a rejection\<close>

text \<open>
  The mediator blames the vendor credential only after a second attempt with a fresh token of its own: a rejection it
  reports means that the connector rejected two attempts, and that between them the cached token was dropped and a new one
  fetched.
\<close>
theorem rejected_twice:
  assumes "VerifyIdentity ob cx u p ph nm s = (Inl err, s')" "errors_is err ErrVendorCredentialRejected"
  shows "\<exists>err1 s1 tok life s2. attemptVerifyIdentity ob cx u p ph nm s = (Inl err1, s1) \<and>
    errors_is err1 ErrVendorCredentialRejected \<and>
    tk_FetchToken (ob_tokens ob) (ob_WithTimeout ob cx tokenCallTimeout) (ts_clientID (fst s1)) (ts_clientSecret (fst s1))
      (Invalidate s1) = (Inr (tok, life), s2) \<and>
    attemptVerifyIdentity ob cx u p ph nm (Invalidate s1) = (Inl err, s')"
proof -
  obtain err1 s1 where 1: "attemptVerifyIdentity ob cx u p ph nm s = (Inl err1, s1)" "errors_is err1 ErrVendorCredentialRejected"
    and 2: "attemptVerifyIdentity ob cx u p ph nm (Invalidate s1) = (Inl err, s')"
    using assms by (auto simp: VerifyIdentity_def split: prod.splits sum.splits if_splits)
  have "err \<noteq> ErrIdentityVerificationUnavailable" using assms(2) by auto
  then obtain tok s2 where "Token ob cx (Invalidate s1) = (Inr tok, s2)"
    using 2 by (auto simp: attemptVerifyIdentity_def bindS_eq_Inl map_errS_eq_Inl map_errS_eq_Inr)
  then have "\<exists>tok life s2. tk_FetchToken (ob_tokens ob) (ob_WithTimeout ob cx tokenCallTimeout) (ts_clientID (fst s1))
      (ts_clientSecret (fst s1)) (Invalidate s1) = (Inr (tok, life), s2)"
    by (auto simp: Token_def Let_def Invalidate_def split: prod.splits sum.splits)
  with 1 2 show ?thesis by blast
qed

subsection \<open>The cached token\<close>

text \<open>
  \<open>exp tok\<close> is when a token really expires. The cache's own idea of it may be late by \<open>slack\<close>, since the lifetime is
  counted from the arrival of the answer.
\<close>

definition cache_ok :: "(string \<Rightarrow> time) \<Rightarrow> duration \<Rightarrow> token_source \<Rightarrow> bool" where
  "cache_ok exp slack ts \<longleftrightarrow> ts_cached ts = [] \<or> ts_expiry ts \<le> exp (ts_cached ts) + slack"

definition fetch_ok :: "'w onboarding \<Rightarrow> (string \<Rightarrow> time) \<Rightarrow> duration \<Rightarrow> bool" where
  "fetch_ok ob exp slack \<longleftrightarrow> (\<forall>c u p s.
     (case tk_FetchToken (ob_tokens ob) c u p s of
        (Inl err, s1) \<Rightarrow> cache_ok exp slack (fst s) \<longrightarrow> cache_ok exp slack (fst s1)
      | (Inr (tok, life), s1) \<Rightarrow> ob_now ob (snd s1) < exp tok \<and> ob_now ob (snd s1) + life \<le> exp tok + slack))"

lemma fetch_okD:
  assumes "fetch_ok ob exp slack" "tk_FetchToken (ob_tokens ob) c u p s = (x, s1)"
  shows "case x of Inl err \<Rightarrow> cache_ok exp slack (fst s) \<longrightarrow> cache_ok exp slack (fst s1)
    | Inr (tok, life) \<Rightarrow> ob_now ob (snd s1) < exp tok \<and> ob_now ob (snd s1) + life \<le> exp tok + slack"
  using assms(1) unfolding fetch_ok_def
  by (elim allE [of _ c] allE [of _ u] allE [of _ p] allE [of _ s]) (simp add: assms(2) split: sum.splits)


subsection \<open>A concrete mediator\<close>

text \<open>A token endpoint that mints tokens for ten minutes and a connector that rejects everything; the world is the clock and
three counters.\<close>

definition reject_ob :: "(time \<times> nat \<times> nat \<times> nat) onboarding" where
  "reject_ob = \<lparr>ob_tokens = \<lparr>tk_FetchToken = (\<lambda>c u p (ts, t, a, i, f). (Inr (''tok'', 600 * second), (ts, t, a, i, Suc f)))\<rparr>,
     ob_connector = \<lparr>cc_Auth = (\<lambda>c tok u p (ts, t, a, i, f). (Inl ErrVendorCredentialRejected, (ts, t, Suc a, i, f))),
       cc_Identity = (\<lambda>c tok v ph nm (ts, t, a, i, f). (Inl ErrVendorCredentialRejected, (ts, t, a, Suc i, f)))\<rparr>,
     ob_now = fst, ob_WithTimeout = (\<lambda>c n. c), ob_wait = (\<lambda>c n s. (True, s))\<rparr>"

definition reject_state :: "(time \<times> nat \<times> nat \<times> nat) ob_state" where
  "reject_state = (\<lparr>ts_clientID = ''id'', ts_clientSecret = ''pw'', ts_cached = [], ts_expiry = 0\<rparr>, 100 * second, 0, 0, 0)"

lemma reject_attempt:
  "ts_cached ts = [] \<Longrightarrow> attemptVerifyIdentity reject_ob cx u p ph nm (ts, t, a, i, f) =
     (Inl ErrVendorCredentialRejected, (ts\<lparr>ts_cached := ''tok'', ts_expiry := t + 600 * second\<rparr>, t, Suc a, i, Suc f))"
  by (simp add: attemptVerifyIdentity_def bindS_def map_errS_def Token_def Let_def callAuth_def reject_ob_def)

theorem verify_bounded_witness:
  "at_most \<lparr>nc_auth = (\<lambda>(t, a, i, f). a), nc_identity = (\<lambda>(t, a, i, f). i), nc_fetch = (\<lambda>(t, a, i, f). f)\<rparr> (6, 6, 2) reject_state
     (snd (VerifyIdentity reject_ob None ''u'' ''p'' ''1'' ''n'' reject_state))"
  by (rule verify_bounded) (simp add: calls_counted_def at_most_def reject_ob_def split: prod.split)

theorem rejected_twice_witness:
  "\<exists>s1. errors_is ErrVendorCredentialRejected ErrVendorCredentialRejected \<and>
     fst (attemptVerifyIdentity reject_ob None ''u'' ''p'' ''1'' ''n'' (Invalidate s1)) = Inl ErrVendorCredentialRejected"
proof -
  obtain s' where run: "VerifyIdentity reject_ob None ''u'' ''p'' ''1'' ''n'' reject_state = (Inl ErrVendorCredentialRejected, s')"
    by (simp add: VerifyIdentity_def reject_state_def reject_attempt Invalidate_def)
  have "errors_is ErrVendorCredentialRejected ErrVendorCredentialRejected" by simp
  from rejected_twice [OF run this] obtain s1 where
    "attemptVerifyIdentity reject_ob None ''u'' ''p'' ''1'' ''n'' (Invalidate s1) = (Inl ErrVendorCredentialRejected, s')" by blast
  then show ?thesis by (intro exI [of _ s1]) simp
qed

text \<open>The same mediator at a moment that stays: its tokens, minted at 100 s, live until 700 s.\<close>

definition frozen_ob :: "(time \<times> nat \<times> nat \<times> nat) onboarding" where
  "frozen_ob = reject_ob\<lparr>ob_now := (\<lambda>_. 100 * second)\<rparr>"


text \<open>A connector that answers every call with 401.\<close>

definition down_http :: "(time \<times> nat) ob_state http_client" where
  "down_http = \<lparr>hc_parse = (\<lambda>u. Inr ''http''), hc_new = (\<lambda>c u. None),
     hc_do = (\<lambda>c r s. (Inr \<lparr>hp_status = 401, hp_body = Inr BadJson\<rparr>, s))\<rparr>"

definition down_ob :: "(time \<times> nat) onboarding" where
  "down_ob = \<lparr>ob_tokens = \<lparr>tk_FetchToken = (\<lambda>c u p s. (Inr (''tok'', 600 * second), s))\<rparr>,
     ob_connector = HTTPConnectorClient down_http ''http://c'', ob_now = fst, ob_WithTimeout = (\<lambda>c n. c),
     ob_wait = (\<lambda>c n s. (True, s))\<rparr>"

theorem verify_error_contract_witness:
  "fst (VerifyIdentity down_ob None ''u'' ''p'' ''1'' ''n''
      (\<lparr>ts_clientID = ''id'', ts_clientSecret = ''pw'', ts_cached = [], ts_expiry = 0\<rparr>, 100 * second, 0)) \<in>
    range Inr \<union> {Inl ErrIdentityVerificationUnavailable, Inl ErrVendorCredentialRejected}"
  by (rule verify_error_contract [where hc = down_http and base = "''http://c''"])
    (simp_all add: down_ob_def foreign_errors_def down_http_def)

end
