(* ===== verification/Spec2Isabelle.thy ===== *)
theory Spec2Isabelle
  imports VerifierAudit HashTool RepositoryContract ClientTypes SweepPostgres EndToEnd OnboardingSpec Handlers SqliteSpec IdentityLimiter RateLimit Budget Cursor
begin

section \<open>The LoginID take-home services\<close>

text \<open>
  The Go program of this repository, modelled from its source, with the theorems that make it correct.

  \<^bold>\<open>The program.\<close> Two binaries. cmd/api-service runs in one of three modes (APP_MODE): the \<^emph>\<open>verifier\<close> serves the profile
  API, search and read of personal profiles, to callers with a signed token; the \<^emph>\<open>issuer\<close> authenticates client
  applications and signs those tokens; the \<^emph>\<open>sweep\<close> removes expired profiles and ends. cmd/idp-connector is the only
  process that talks to the identity vendor. The issuer publishes its key as a JWKS document, which verifier and connector
  fetch and cache; internal/onboarding is the mediator through which api-service calls the connector. Profiles, credentials
  and the deletion log live in SQLite, PostgreSQL or CockroachDB behind one interface, dao.Repository.
\<close>

subsection \<open>Which theory models what\<close>

text \<open>
  \<^bold>\<open>Language and libraries.\<close> \<open>Prelude\<close>: time in nanoseconds, 64-bit wrap-around, fallible operations over a state
  (\<open>op\<close>, \<open>bindS\<close>, \<open>catchS\<close>, \<open>map_errS\<close>), finite maps as association lists. \<open>GoStrings\<close>, \<open>Base64\<close>, \<open>Json\<close>, \<open>Calendar\<close>,
  \<open>TimeText\<close>, \<open>GoErrors\<close>, \<open>Http\<close>, \<open>Outbound\<close>, \<open>Mux\<close>: what the code uses of strings, strconv, encoding, time, errors and
  net/http. \<open>Budget\<close>, \<open>Rely\<close>, \<open>Triple\<close>: the reasoning shared by several components, as locales and rules.

  \<^bold>\<open>Data access\<close> (internal/model, internal/dao). \<open>Dao\<close>: structs, validators, normalisers. \<open>SqlEngine\<close>: the tables of
  migrations/ with their constraints as a record \<open>db\<close>, the statements, transactions, and an environment that decides clock,
  generated ids and driver faults per call. \<open>SqliteDao\<close> and \<open>Postgres\<close>: every repository operation of the two packages, the
  retry loop included. \<open>SqliteSpec\<close>, \<open>PostgresSpec\<close>: schema invariant, atomicity, retry policy, search. \<open>Repository\<close>,
  \<open>RepositoryBackends\<close>, \<open>RepositoryContract\<close>: the interface of repository.go as a datatype of calls, its contract
  \<open>spec_call\<close>, the proof that both backends implement it, and that they cannot be told apart but for one sentinel.

  \<^bold>\<open>Verifier\<close> (internal/api). \<open>ApiCore\<close>: scopes, the stopgap authoriser, audit events, error answers, masking. \<open>Handlers\<close>:
  search and read over the record \<open>deps\<close>. \<open>Cursor\<close>, \<open>RateLimit\<close>, \<open>TouchCounter\<close>: page cursor, per-minute limiter, cap on
  distinct records. \<open>Jwks\<close>, \<open>JwtMiddleware\<close>: key cache and token check. \<open>JwksSpec\<close>, \<open>VerifierSpec\<close>, \<open>VerifierAudit\<close>:
  what they guarantee, up to the whole process and its audit log.

  \<^bold>\<open>Issuer.\<close> \<open>SigningKey\<close>, \<open>ClientStore\<close>, \<open>TokenHandler\<close>, \<open>GrantLimiter\<close>: key and key document, client secrets and their
  table, POST /auth/token, lockout. \<open>ClientStoreSpec\<close>, \<open>ClientTypes\<close>, \<open>TokenSpec\<close>, \<open>Issuer\<close>: their properties alone and
  assembled. \<open>EndToEnd\<close>: issuer and verifier together. \<open>HashTool\<close>: deploy/gen-argon2-hash.go.

  \<^bold>\<open>Connector and mediator.\<close> \<open>Vendor\<close>, \<open>IdentityLimiter\<close>, \<open>Connector\<close>: vendor clients, lockout per attempted identity,
  the two handlers. \<open>ConnectorSpec\<close>, \<open>ConnectorRouter\<close>: their properties alone and assembled. \<open>Onboarding\<close>,
  \<open>OnboardingSpec\<close>: internal/onboarding.

  \<^bold>\<open>Sweep.\<close> \<open>Sweep\<close>: cutoffs and the batch loop over any sweeper. \<open>SweepStore\<close>, \<open>SweepStoreSpec\<close>, \<open>SweepMetrics\<close>: the table of
  runs, its snapshots, the gauges. \<open>SweepBatch\<close>, \<open>SweepSqlite\<close>, \<open>SweepPostgres\<close>: the loop over the two repositories.

  \<^bold>\<open>Processes.\<close> \<open>Config\<close>: the environment. \<open>Startup\<close>: the DAO factory and both \<open>main\<close> functions up to the router they
  serve. \<open>Routers\<close>: the four constructors of internal/app as tables of routes. \<open>StartupSpec\<close>, \<open>RoutersSpec\<close>: what starts,
  and which requests reach a handler.
\<close>

subsection \<open>How the code is read\<close>

text \<open>
  A struct is a record with a prefix per type, an enumeration a datatype, a method a function with the source's name (prefixed
  where two types share it). A method that changes its receiver returns the new one; a function with \<open>(T, error)\<close> is an
  \<open>op\<close>, whose answer is \<open>Inl\<close> of an error or \<open>Inr\<close> of a value, so every early return is a branch. A pointer that may be nil
  is an option. A mutex makes a critical section one step; where the code releases it during I/O (the key cache), the
  other goroutines are an operation \<open>je_yield\<close> that may change the state along a stated relation. Interfaces are records of
  operations over a state type variable, and the theorems about a client hold for every provider that meets the stated laws.
  Go's int and time.Duration are integers with \<open>wrap64\<close> at the places where they can overflow; the PHC parser and the
  exponent of the key are at the widths the code reads and writes.

  \<^bold>\<open>Parameters with a contract.\<close> Code outside the repository is an argument: \<open>jwt_lib_ok\<close> and \<open>sign_ok\<close> (the JWT library
  returns only what verifies under a key the key function gave, and accepts what it signed), \<open>argon2_ok\<close> (Argon2id is a
  function of its inputs), PEM, DER and SHA-256 (\<open>key_io\<close>), net/http's client, \<open>context.WithTimeout\<close>, random bytes, the
  Prometheus registry. Every property that names one has a witness with a concrete instance.

  \<^bold>\<open>Interfaces as locales.\<close> \<open>budget\<close> (admissions in a window), \<open>rely\<close> (a relation no operation leaves), \<open>lockout\<close>,
  \<open>client_store\<close>, \<open>batch_deleter\<close> and \<open>expiry_sweeper\<close>, \<open>repository\<close>; each is interpreted on the code's own definitions:
  the rate limiter, the key cache and the connector's clock, the grant limiter, the PostgreSQL client store alone and in the
  issuer, and both profile repositories.

  \<^bold>\<open>Bounds and termination.\<close> Loops over lists are structural. The retry loop counts down from \<open>maxRetries\<close>, the mediator's
  from \<open>connectorMaxRetries\<close>. The batch loop of the sweep is a \<open>partial_function\<close>: that it ends is a theorem, by the number
  of expired rows. Nothing runs on fuel.
\<close>

subsection \<open>What the theorems show\<close>

text \<open>
  \<^item> \<^bold>\<open>Tokens and access.\<close> A token answered by the issuer is accepted by a verifier that read the published keys, for that
    client and scope, until it expires. A verifier that started answers a profile route, refusals aside, only for such a
    token, verified with a key fetched within the staleness bound; its audit log records exactly what it has disclosed. The
    connector's handlers run only for a token of their audience. Tokens are issued only to an active client that proved its
    secret; failures look alike and are slowed down.
  \<^item> \<^bold>\<open>Limits.\<close> The rate limiter, the touch cap under interleaved requests, the bound on out-of-band key fetches, the
    identity lockout, and the number of requests one onboarding sends.
  \<^item> \<^bold>\<open>Data.\<close> The schema invariant on every path of every write; writes that fail change nothing; every backend implements
    one contract, reads back what it wrote and deletes what it is asked to delete; the name filter is a substring test and
    pages partition a result; a sweep ends, removes only what expired, and says truthfully whether anything is left.
  \<^item> \<^bold>\<open>Encodings.\<close> Key document, PHC hash, page cursor, stored timestamps and array literals round trip.

  Where the code does not do what it or its documents say, a lemma shows it: a key exponent above 24 bits is truncated,
  the backoff can wrap, two credential maps can share a limiter key, the threads parameter of a hash is truncated, a
  serialization failure inside a transaction is not retried, and the connector checks no scope.
\<close>

subsection \<open>Not modelled\<close>

text \<open>
  The demo page and the build identifier (arguments of the routers); log lines; ListenAndServe, signals and the transport of
  net/http with its connection pools; the HTML body of a redirect; the rendering of metrics as text, which is the
  Prometheus library's; panics, and data races outside the modelled critical sections. SQL is modelled by the effect of
  each statement the code sends, not by parsing it; the order of an unordered SELECT is that of insertion. Of Unicode, the
  case mapping outside ASCII is a parameter. \<open>RepositoryContract\<close> leaves out CreateProfileWithCredential and DeleteExpired,
  whose theorems are in \<open>SqliteSpec\<close>, \<open>PostgresSpec\<close> and the sweep theories.
\<close>

end
